theory Spec2Isabelle
  imports Main "HOL-Library.Word"
begin

unbundle bit_operations_syntax

section \<open>Page buffer (src/2page/page.cc)\<close>

type_synonym byte = "8 word"

subsection \<open>The keyed hash used for the page CRC\<close>

text \<open>
  Modelled from the spec: \<open>MurmurHash3_x86_32\<close> is called by \<open>Page::flush\<close> and named by the
  specification, but its source (3rdparty/murmurhash3) is not part of the excerpt. The
  definitions below follow the published reference algorithm: 4-byte little-endian blocks
  are mixed into the running state \<open>h1\<close>, which starts as the seed; the 1 to 3 trailing bytes
  are mixed in without the rotation of the state; the length is xor-ed in and the state is
  finalised by \<open>fmix32\<close>. Reading \<open>len\<close> bytes from \<open>key\<close> is \<open>take (nat len) key\<close>;
  a negative \<open>len\<close> or a buffer shorter than \<open>len\<close> is undefined behaviour in the
  original and is not modelled.
\<close>

definition ROTL32 :: "32 word \<Rightarrow> nat \<Rightarrow> 32 word" where
  "ROTL32 x r = push_bit r x OR drop_bit (32 - r) x"

definition getblock32 :: "byte \<Rightarrow> byte \<Rightarrow> byte \<Rightarrow> byte \<Rightarrow> 32 word" where
  "getblock32 b0 b1 b2 b3 =
     ucast b0 OR push_bit 8 (ucast b1) OR push_bit 16 (ucast b2) OR push_bit 24 (ucast b3)"

definition murmur_k1 :: "32 word \<Rightarrow> 32 word" where
  "murmur_k1 k1 = ROTL32 (k1 * 0xcc9e2d51) 15 * 0x1b873593"

definition murmur_block :: "32 word \<Rightarrow> 32 word \<Rightarrow> 32 word" where
  "murmur_block h1 k1 = ROTL32 (h1 XOR murmur_k1 k1) 13 * 5 + 0xe6546b64"

fun murmur_body :: "32 word \<Rightarrow> byte list \<Rightarrow> 32 word" where
  "murmur_body h1 (b0 # b1 # b2 # b3 # rest) =
     murmur_body (murmur_block h1 (getblock32 b0 b1 b2 b3)) rest"
| "murmur_body h1 [b0, b1, b2] =
     h1 XOR murmur_k1 (push_bit 16 (ucast b2) XOR push_bit 8 (ucast b1) XOR ucast b0)"
| "murmur_body h1 [b0, b1] = h1 XOR murmur_k1 (push_bit 8 (ucast b1) XOR ucast b0)"
| "murmur_body h1 [b0] = h1 XOR murmur_k1 (ucast b0)"
| "murmur_body h1 [] = h1"

definition fmix32 :: "32 word \<Rightarrow> 32 word" where
  "fmix32 h =
     (let h = h XOR drop_bit 16 h;
          h = h * 0x85ebca6b;
          h = h XOR drop_bit 13 h;
          h = h * 0xc2b2ae35
      in h XOR drop_bit 16 h)"

definition MurmurHash3_x86_32 :: "byte list \<Rightarrow> int \<Rightarrow> 32 word \<Rightarrow> 32 word" where
  "MurmurHash3_x86_32 key len seed =
     fmix32 (murmur_body seed (take (nat len) key) XOR word_of_int len)"

subsection \<open>Page data, descriptors and the device\<close>

text \<open>
  \<open>PPageData\<close> is the raw page: the common header, of which only the \<open>crc32\<close> member is
  used here (the other members are kept as opaque bytes), followed by the payload, which
  starts at the header's last member \<open>payload[1]\<close>. The page type declarations (page.h) are
  not part of the excerpt; \<open>sizeof(PPageHeader)\<close> is therefore a parameter \<open>hsz\<close> of
  \<open>flush\<close>.
\<close>

record PPageData =
  header_crc32 :: "32 word"
  header_other :: "byte list"
  payload :: "byte list"

record PersistedData =
  address :: "64 word"
  size_pd :: "32 word"
  is_dirty :: bool
  is_without_header :: bool
  raw_data :: "nat option"

text \<open>
  Pointers are indices into a heap of cells; \<open>None\<close> in a cell is a released object and
  allocation appends a cell, so a new pointer never equals a live one. \<open>Page::m_datap\<close>
  either points at the page's own \<open>m_data_inline\<close> or at a descriptor on the heap.
\<close>

datatype pd_ref = Inline | OnHeap nat

record memory =
  buffers :: "PPageData option list"
  descriptors :: "PersistedData option list"
  ms_page_count_flushed :: "64 word"

record Page =
  m_is_allocated :: bool
  m_is_without_header :: bool
  m_cursor_list :: "nat option"
  m_node_proxy :: "nat option"
  m_datap :: pd_ref
  m_data_inline :: PersistedData

definition deref :: "'a option list \<Rightarrow> nat \<Rightarrow> 'a option" where
  "deref h p = (if p < length h then h ! p else None)"

definition alloc :: "'a option list \<Rightarrow> 'a \<Rightarrow> nat \<times> 'a option list" where
  "alloc h v = (length h, h @ [Some v])"

text \<open>
  Modelled from the spec: the device is an external collaborator
  (\<open>write(address, bytes, size) \<rightarrow> status\<close>, \<open>config().flags\<close>); its source is not part of the
  excerpt. \<open>write_status\<close> is the status a write at an address ends with (non-zero is
  thrown as an exception), \<open>storage\<close> is what has been persisted.
\<close>

record Device =
  config_flags :: "32 word"
  write_status :: "64 word \<Rightarrow> int"
  storage :: "64 word \<rightharpoonup> PPageData \<times> 32 word"

definition HAM_ENABLE_CRC32 :: "32 word" where
  "HAM_ENABLE_CRC32 = 0x02000000"

definition device_write :: "Device \<Rightarrow> 64 word \<Rightarrow> PPageData \<Rightarrow> 32 word \<Rightarrow> int \<times> Device" where
  "device_write dev a raw n =
     (let st = write_status dev a
      in if st \<noteq> 0 then (st, dev) else (0, dev\<lparr>storage := (storage dev)(a \<mapsto> (raw, n))\<rparr>))"

text \<open>How a call ends: it returns, an exception with a status is thrown, or a null or
  released pointer is dereferenced (undefined behaviour).\<close>

datatype outcome = Returned | Thrown int | Fault

subsection \<open>Page::flush\<close>

text \<open>
  The length argument \<open>page_data->size - (sizeof(PPageHeader) - 1)\<close> is computed in
  \<open>size_t\<close> and passed as \<open>int\<close>: the difference is truncated to 32 bits and read as signed.
  The seed is \<open>(uint32_t)page_data->address\<close>.
\<close>

definition crc_len :: "nat \<Rightarrow> 32 word \<Rightarrow> int" where
  "crc_len hsz sz = sint (word_of_int (uint sz - (int hsz - 1)) :: 32 word)"

definition flush ::
  "nat \<Rightarrow> Device \<Rightarrow> PersistedData \<Rightarrow> memory \<Rightarrow> outcome \<times> Device \<times> PersistedData \<times> memory" where
  "flush hsz device page_data mem =
     (if is_dirty page_data then
        (case raw_data page_data of
           None \<Rightarrow> (Fault, device, page_data, mem)
         | Some p \<Rightarrow>
            (case deref (buffers mem) p of
               None \<Rightarrow> (Fault, device, page_data, mem)
             | Some raw \<Rightarrow>
                 let raw1 =
                       (if config_flags device AND HAM_ENABLE_CRC32 \<noteq> 0
                           \<and> \<not> is_without_header page_data
                        then raw\<lparr>header_crc32 :=
                                   MurmurHash3_x86_32 (payload raw)
                                     (crc_len hsz (size_pd page_data))
                                     (ucast (address page_data))\<rparr>
                        else raw);
                     mem1 = mem\<lparr>buffers := (buffers mem)[p := Some raw1]\<rparr>;
                     (st, device1) =
                       device_write device (address page_data) raw1 (size_pd page_data)
                 in if st \<noteq> 0 then (Thrown st, device1, page_data, mem1)
                    else (Returned, device1, page_data\<lparr>is_dirty := False\<rparr>,
                          mem1\<lparr>ms_page_count_flushed := ms_page_count_flushed mem1 + 1\<rparr>)))
      else (Returned, device, page_data, mem))"

subsection \<open>Page::deep_copy_data\<close>

definition get_datap :: "Page \<Rightarrow> memory \<Rightarrow> PersistedData option" where
  "get_datap page mem =
     (case m_datap page of
        Inline \<Rightarrow> Some (m_data_inline page)
      | OnHeap d \<Rightarrow> deref (descriptors mem) d)"

text \<open>
  \<open>Memory::allocate<PPageData>(pd->size)\<close> followed by \<open>memcpy\<close> of \<open>pd->size\<close> bytes: a
  descriptor's buffer is a block of exactly \<open>size\<close> bytes, so the copy transfers the whole
  raw page into a new cell. The result is the returned pointer (\<open>None\<close> is the null
  pointer), the page and the memory.
\<close>

definition deep_copy_data :: "Page \<Rightarrow> memory \<Rightarrow> outcome \<times> nat option \<times> Page \<times> memory" where
  "deep_copy_data page mem =
     (let ret = (case m_datap page of Inline \<Rightarrow> None | OnHeap d \<Rightarrow> Some d)
      in case get_datap page mem of
           None \<Rightarrow> (Fault, None, page, mem)
         | Some old \<Rightarrow>
            (case raw_data old of
               None \<Rightarrow> (Fault, None, page, mem)
             | Some src \<Rightarrow>
                (case deref (buffers mem) src of
                   None \<Rightarrow> (Fault, None, page, mem)
                 | Some bytes \<Rightarrow>
                     let (b, bufs1) = alloc (buffers mem) bytes;
                         (pd, descs1) = alloc (descriptors mem) (old\<lparr>raw_data := Some b\<rparr>)
                     in (Returned, ret,
                         page\<lparr>m_datap := OnHeap pd, m_node_proxy := None\<rparr>,
                         mem\<lparr>buffers := bufs1, descriptors := descs1\<rparr>))))"

text \<open>The raw bytes the page currently works on (its primary buffer).\<close>

definition page_bytes :: "Page \<Rightarrow> memory \<Rightarrow> PPageData option" where
  "page_bytes page mem =
     (case get_datap page mem of
        None \<Rightarrow> None
      | Some pd \<Rightarrow> (case raw_data pd of None \<Rightarrow> None | Some p \<Rightarrow> deref (buffers mem) p))"

text \<open>The CRC field of the page's buffer after \<open>flush\<close> has run.\<close>

definition flushed_crc :: "nat \<Rightarrow> Device \<Rightarrow> PersistedData \<Rightarrow> memory \<Rightarrow> 32 word option" where
  "flushed_crc hsz dev pd mem =
     (case flush hsz dev pd mem of
        (out, dev', pd', mem') \<Rightarrow>
          (case raw_data pd' of
             None \<Rightarrow> None
           | Some p \<Rightarrow> map_option header_crc32 (deref (buffers mem') p)))"

section \<open>B+tree erase (src/btree_erase.c)\<close>

subsection \<open>Data model\<close>

text \<open>
  The declarations of keys, nodes, pages and the database (keys.h, btree.h, page.h, db.h)
  are not part of the excerpt; the records hold the attributes that btree_erase.c reads
  and writes through its accessor macros, with the widths the specification gives
  (\<open>count:u16\<close>, \<open>key_size:u16\<close>, \<open>flags:u8\<close>, 64-bit page and record ids).

  An internal key is one slot of a node: the record id or child pointer, the size and flags,
  and the inline key area. The last \<open>sizeof(ham_offset_t)\<close> bytes of the inline area hold
  the id of the extended blob when \<open>KEY_IS_EXTENDED\<close> is set; that part of the area is the
  field \<open>key_tail\<close>, read as a \<open>ham_offset_t\<close>, and \<open>key_prefix\<close> is the area before it
  (this presupposes a key size of at least 8 bytes).
\<close>

type_synonym ham_offset_t = "64 word"
type_synonym ham_status_t = int

record int_key =
  key_ptr :: ham_offset_t
  key_size :: "16 word"
  key_flags :: "8 word"
  key_prefix :: "byte list"
  key_tail :: ham_offset_t

text \<open>
  The slot array of a node is an array indexed by the slot number; \<open>btree_node_get_key\<close>
  is pointer arithmetic and checks no bound, so the array is a total function: a slot at or
  beyond \<open>count\<close> holds whatever was left there. The capacity of a page (\<open>maxkeys\<close>) is not
  checked anywhere in btree_erase.c and is not part of the array.
\<close>

record btree_node =
  node_count :: "16 word"
  node_is_leaf :: bool
  node_ptr_left :: ham_offset_t
  node_left :: ham_offset_t
  node_right :: ham_offset_t
  node_entries :: "int \<Rightarrow> int_key"

record ham_page =
  page_dirty :: bool
  page_type :: "32 word"
  page_node :: btree_node

record ham_btree =
  be_rootpage :: ham_offset_t
  be_maxkeys :: nat
  be_dirty :: bool

record ham_key =
  hk_data :: "byte list"
  hk_size :: "16 word"
  hk_flags :: "32 word"

text \<open>
  A \<open>ham_page_t *\<close> is the address of the page (\<open>page_get_self\<close>); the null pointer is the
  address 0, which is never the address of a btree page. All pages are resident in
  \<open>db_pages\<close>. \<open>db_blobs\<close> is the blob store, \<open>db_extkey_cache\<close> the optional cache of
  extended keys, \<open>db_freed\<close> the pages handed to \<open>txn_free_page\<close>.
\<close>

record ham_db =
  db_error :: ham_status_t
  db_dirty :: bool
  db_backend :: ham_btree
  db_pages :: "ham_offset_t \<Rightarrow> ham_page"
  db_blobs :: "ham_offset_t \<rightharpoonup> byte list"
  db_extkey_cache :: "(ham_offset_t \<rightharpoonup> byte list) option"
  db_freed :: "ham_offset_t list"

text \<open>
  The scratchpad of one erase. The backend pointer \<open>be\<close> is \<open>db_backend\<close> of the database;
  \<open>sp_rid\<close> and \<open>sp_intflags\<close> are the contents of the caller's variables that \<open>rid\<close> and
  \<open>intflags\<close> point to.
\<close>

record erase_scratchpad =
  sp_flags :: "32 word"
  sp_key :: ham_key
  sp_rid :: ham_offset_t
  sp_intflags :: "32 word"
  mergepage :: ham_offset_t

text \<open>
  The collaborators of btree_erase.c whose source is not part of the excerpt are
  parameters: the status \<open>db_uncouple_all_cursors\<close> returns for a page, the status and slot
  \<open>btree_get_slot\<close> returns, the child and slot \<open>btree_traverse_tree\<close> returns, the result
  of \<open>db_compare_keys\<close> and the error it leaves in the database, the status and blob id
  \<open>blob_allocate\<close> returns, the statuses of \<open>blob_free\<close> and \<open>txn_free_page\<close>, and
  \<open>btree_get_minkeys\<close>.
\<close>

record extern =
  uncouple_status :: "ham_db \<Rightarrow> ham_offset_t \<Rightarrow> ham_status_t"
  get_slot :: "ham_db \<Rightarrow> ham_offset_t \<Rightarrow> ham_key \<Rightarrow> ham_status_t \<times> int"
  traverse_tree :: "ham_db \<Rightarrow> ham_offset_t \<Rightarrow> ham_key \<Rightarrow> ham_offset_t \<times> int"
  compare_keys :: "ham_db \<Rightarrow> ham_offset_t \<Rightarrow> ham_key \<Rightarrow> int \<Rightarrow> int \<times> ham_status_t"
  blob_alloc :: "ham_db \<Rightarrow> byte list \<Rightarrow> ham_status_t \<times> ham_offset_t"
  blob_free_status :: "ham_db \<Rightarrow> ham_offset_t \<Rightarrow> ham_status_t"
  txn_free_status :: "ham_db \<Rightarrow> ham_offset_t \<Rightarrow> ham_status_t"
  minkeys :: "nat \<Rightarrow> nat"

subsection \<open>Constants\<close>

definition HAM_SUCCESS :: ham_status_t where
  "HAM_SUCCESS = 0"

definition HAM_KEY_NOT_FOUND :: ham_status_t where
  "HAM_KEY_NOT_FOUND = - 11"

definition HAM_BLOB_NOT_FOUND :: ham_status_t where
  "HAM_BLOB_NOT_FOUND = - 16"

text \<open>The key flags are four distinct bits (keys.h is not part of the excerpt).\<close>

definition KEY_BLOB_SIZE_TINY :: "8 word" where
  "KEY_BLOB_SIZE_TINY = 1"

definition KEY_BLOB_SIZE_SMALL :: "8 word" where
  "KEY_BLOB_SIZE_SMALL = 2"

definition KEY_BLOB_SIZE_EMPTY :: "8 word" where
  "KEY_BLOB_SIZE_EMPTY = 4"

definition KEY_IS_EXTENDED :: "8 word" where
  "KEY_IS_EXTENDED = 8"

definition PAGE_TYPE_B_ROOT :: "32 word" where
  "PAGE_TYPE_B_ROOT = 0x20000000"

text \<open>The flags of \<open>my_replace_key\<close>, defined in btree_erase.c itself.\<close>

definition NOFLUSH :: "32 word" where
  "NOFLUSH = 1"

definition INTERNAL_KEY :: "32 word" where
  "INTERNAL_KEY = 2"

subsection \<open>Accessors\<close>

type_synonym keyptr = "ham_offset_t \<times> int"

definition db_set_error :: "ham_db \<Rightarrow> ham_status_t \<Rightarrow> ham_db" where
  "db_set_error db e = db\<lparr>db_error := e\<rparr>"

definition db_fetch_page :: "ham_db \<Rightarrow> ham_offset_t \<Rightarrow> ham_offset_t" where
  "db_fetch_page db a = a"

definition get_node :: "ham_db \<Rightarrow> ham_offset_t \<Rightarrow> btree_node" where
  "get_node db p = page_node (db_pages db p)"

definition set_node :: "ham_db \<Rightarrow> ham_offset_t \<Rightarrow> btree_node \<Rightarrow> ham_db" where
  "set_node db p n = db\<lparr>db_pages := (db_pages db)(p := (db_pages db p)\<lparr>page_node := n\<rparr>)\<rparr>"

definition page_set_dirty :: "ham_db \<Rightarrow> ham_offset_t \<Rightarrow> ham_db" where
  "page_set_dirty db p = db\<lparr>db_pages := (db_pages db)(p := (db_pages db p)\<lparr>page_dirty := True\<rparr>)\<rparr>"

definition page_set_type :: "ham_db \<Rightarrow> ham_offset_t \<Rightarrow> 32 word \<Rightarrow> ham_db" where
  "page_set_type db p t = db\<lparr>db_pages := (db_pages db)(p := (db_pages db p)\<lparr>page_type := t\<rparr>)\<rparr>"

text \<open>\<open>btree_node_get_count\<close> yields the 16-bit count, promoted to \<open>int\<close> in every
  expression it occurs in; \<open>btree_node_set_count\<close> stores the low 16 bits.\<close>

definition btree_node_get_count :: "ham_db \<Rightarrow> ham_offset_t \<Rightarrow> int" where
  "btree_node_get_count db p = uint (node_count (get_node db p))"

definition btree_node_set_count :: "ham_db \<Rightarrow> ham_offset_t \<Rightarrow> int \<Rightarrow> ham_db" where
  "btree_node_set_count db p c = set_node db p ((get_node db p)\<lparr>node_count := word_of_int c\<rparr>)"

definition btree_node_is_leaf :: "ham_db \<Rightarrow> ham_offset_t \<Rightarrow> bool" where
  "btree_node_is_leaf db p = node_is_leaf (get_node db p)"

definition btree_node_get_ptr_left :: "ham_db \<Rightarrow> ham_offset_t \<Rightarrow> ham_offset_t" where
  "btree_node_get_ptr_left db p = node_ptr_left (get_node db p)"

definition btree_node_set_ptr_left :: "ham_db \<Rightarrow> ham_offset_t \<Rightarrow> ham_offset_t \<Rightarrow> ham_db" where
  "btree_node_set_ptr_left db p v = set_node db p ((get_node db p)\<lparr>node_ptr_left := v\<rparr>)"

definition btree_node_get_left :: "ham_db \<Rightarrow> ham_offset_t \<Rightarrow> ham_offset_t" where
  "btree_node_get_left db p = node_left (get_node db p)"

definition btree_node_set_left :: "ham_db \<Rightarrow> ham_offset_t \<Rightarrow> ham_offset_t \<Rightarrow> ham_db" where
  "btree_node_set_left db p v = set_node db p ((get_node db p)\<lparr>node_left := v\<rparr>)"

definition btree_node_get_right :: "ham_db \<Rightarrow> ham_offset_t \<Rightarrow> ham_offset_t" where
  "btree_node_get_right db p = node_right (get_node db p)"

definition btree_node_set_right :: "ham_db \<Rightarrow> ham_offset_t \<Rightarrow> ham_offset_t \<Rightarrow> ham_db" where
  "btree_node_set_right db p v = set_node db p ((get_node db p)\<lparr>node_right := v\<rparr>)"

text \<open>A key pointer (\<open>int_key_t *\<close>) is a page and a slot number; reading and writing go
  through the page store, so two pointers to the same slot see each other's writes.\<close>

definition get_key :: "ham_db \<Rightarrow> keyptr \<Rightarrow> int_key" where
  "get_key db k = node_entries (get_node db (fst k)) (snd k)"

definition set_key :: "ham_db \<Rightarrow> keyptr \<Rightarrow> int_key \<Rightarrow> ham_db" where
  "set_key db k v =
     set_node db (fst k)
       ((get_node db (fst k))\<lparr>node_entries := (node_entries (get_node db (fst k)))(snd k := v)\<rparr>)"

definition key_set_ptr :: "ham_db \<Rightarrow> keyptr \<Rightarrow> ham_offset_t \<Rightarrow> ham_db" where
  "key_set_ptr db k v = set_key db k ((get_key db k)\<lparr>key_ptr := v\<rparr>)"

definition key_get_extended_rid :: "int_key \<Rightarrow> ham_offset_t" where
  "key_get_extended_rid k = key_tail k"

definition key_set_extended_rid :: "ham_db \<Rightarrow> keyptr \<Rightarrow> ham_offset_t \<Rightarrow> ham_db" where
  "key_set_extended_rid db k v = set_key db k ((get_key db k)\<lparr>key_tail := v\<rparr>)"

text \<open>
  \<open>memcpy\<close> and \<open>memmove\<close> of \<open>n\<close> whole slots (\<open>(sizeof(int_key_t)-1+keysize)*n\<close> bytes)
  from slot \<open>s\<close> of one page to slot \<open>d\<close> of another or of the same page. All source slots
  are read before any is written. The counts are at most 16 bits wide, so the lengths the
  code computes in \<open>ham_size_t\<close> do not wrap and are integers here; a length that is not
  positive moves nothing.
\<close>

definition move_keys ::
  "(int \<Rightarrow> int_key) \<Rightarrow> int \<Rightarrow> (int \<Rightarrow> int_key) \<Rightarrow> int \<Rightarrow> int \<Rightarrow> (int \<Rightarrow> int_key)" where
  "move_keys dst d src s n = (\<lambda>i. if d \<le> i \<and> i < d + n then src (s + (i - d)) else dst i)"

definition memmove_keys :: "ham_db \<Rightarrow> keyptr \<Rightarrow> keyptr \<Rightarrow> int \<Rightarrow> ham_db" where
  "memmove_keys db lhs rhs n =
     set_node db (fst lhs)
       ((get_node db (fst lhs))\<lparr>node_entries :=
          move_keys (node_entries (get_node db (fst lhs))) (snd lhs)
                    (node_entries (get_node db (fst rhs))) (snd rhs) n\<rparr>)"

text \<open>The \<open>ham_key_t\<close> that the code fills from a slot before it calls \<open>btree_get_slot\<close>:
  flags, size, and a pointer to the inline key area (its bytes, the blob id part in
  little-endian order).\<close>

definition offset_bytes :: "ham_offset_t \<Rightarrow> byte list" where
  "offset_bytes w = map (\<lambda>i. ucast (drop_bit (8 * i) w)) [0..<8]"

definition key_of_slot :: "ham_db \<Rightarrow> keyptr \<Rightarrow> ham_key" where
  "key_of_slot db bte =
     \<lparr>hk_data = key_prefix (get_key db bte) @ offset_bytes (key_tail (get_key db bte)),
      hk_size = key_size (get_key db bte),
      hk_flags = ucast (key_flags (get_key db bte))\<rparr>"

subsection \<open>Collaborators\<close>

text \<open>
  Modelled from the spec: cursors, the blob store, the extended-key cache and the
  transaction's free list are external collaborators of the erase code. Uncoupling the
  cursors of a page yields a status and leaves the tree as it is. A blob is read by its id
  and is missing after it was freed; \<open>blob_allocate\<close> stores the data under the id the
  allocator hands out; \<open>txn_free_page\<close> records the page as freed.
\<close>

definition db_uncouple_all_cursors :: "extern \<Rightarrow> ham_db \<Rightarrow> ham_offset_t \<Rightarrow> ham_status_t" where
  "db_uncouple_all_cursors env db page = uncouple_status env db page"

definition blob_read :: "ham_db \<Rightarrow> ham_offset_t \<Rightarrow> ham_status_t \<times> byte list" where
  "blob_read db blobid =
     (case db_blobs db blobid of None \<Rightarrow> (HAM_BLOB_NOT_FOUND, []) | Some d \<Rightarrow> (0, d))"

definition blob_allocate ::
  "extern \<Rightarrow> ham_db \<Rightarrow> byte list \<Rightarrow> ham_status_t \<times> ham_db \<times> ham_offset_t" where
  "blob_allocate env db d =
     (let (st, blobid) = blob_alloc env db d
      in if st \<noteq> 0 then (st, db, 0)
         else (0, db\<lparr>db_blobs := (db_blobs db)(blobid \<mapsto> d)\<rparr>, blobid))"

definition blob_free :: "extern \<Rightarrow> ham_db \<Rightarrow> ham_offset_t \<Rightarrow> ham_status_t \<times> ham_db" where
  "blob_free env db blobid =
     (let st = blob_free_status env db blobid
      in if st \<noteq> 0 then (st, db) else (0, db\<lparr>db_blobs := (db_blobs db)(blobid := None)\<rparr>))"

definition extkey_cache_remove :: "ham_db \<Rightarrow> ham_offset_t \<Rightarrow> ham_db" where
  "extkey_cache_remove db blobid =
     (case db_extkey_cache db of
        None \<Rightarrow> db
      | Some c \<Rightarrow> db\<lparr>db_extkey_cache := Some (c(blobid := None))\<rparr>)"

definition txn_free_page :: "extern \<Rightarrow> ham_db \<Rightarrow> ham_offset_t \<Rightarrow> ham_status_t \<times> ham_db" where
  "txn_free_page env db page =
     (let st = txn_free_status env db page
      in if st \<noteq> 0 then (st, db) else (0, db\<lparr>db_freed := page # db_freed db\<rparr>))"

subsection \<open>my_copy_key\<close>

definition my_copy_key :: "extern \<Rightarrow> keyptr \<Rightarrow> keyptr \<Rightarrow> ham_db \<Rightarrow> ham_status_t \<times> ham_db" where
  "my_copy_key env lhs rhs db =
     (let db = set_key db lhs (get_key db rhs)
      in if key_flags (get_key db rhs) AND KEY_IS_EXTENDED \<noteq> 0 then
           let rhsblobid = key_get_extended_rid (get_key db rhs);
               (st, record) = blob_read db rhsblobid
           in if st \<noteq> 0 then (st, db)
              else
                let (st, db, lhsblobid) = blob_allocate env db record
                in if st \<noteq> 0 then (st, db)
                   else (0, key_set_extended_rid db lhs lhsblobid)
         else (0, db))"

subsection \<open>my_replace_key\<close>

text \<open>Lines 1086 to 1136: the key is overwritten, then the extended blob is copied.\<close>

definition my_replace_key_copy ::
  "extern \<Rightarrow> ham_offset_t \<Rightarrow> keyptr \<Rightarrow> keyptr \<Rightarrow> 32 word \<Rightarrow> ham_db \<Rightarrow> ham_status_t \<times> ham_db" where
  "my_replace_key_copy env page lhs rhs flags db =
     (let db = set_key db lhs ((get_key db lhs)\<lparr>key_flags := key_flags (get_key db rhs)\<rparr>);
          db = set_key db lhs ((get_key db lhs)\<lparr>key_prefix := key_prefix (get_key db rhs),
                                                 key_tail := key_tail (get_key db rhs)\<rparr>);
          db = (if flags AND INTERNAL_KEY \<noteq> 0
                then set_key db lhs ((get_key db lhs)\<lparr>key_flags :=
                       key_flags (get_key db lhs)
                         AND NOT (KEY_BLOB_SIZE_TINY OR KEY_BLOB_SIZE_SMALL OR KEY_BLOB_SIZE_EMPTY)\<rparr>)
                else db);
          (st, db) =
            (if key_flags (get_key db rhs) AND KEY_IS_EXTENDED \<noteq> 0 then
               let rhsblobid = key_get_extended_rid (get_key db rhs);
                   (st, record) = blob_read db rhsblobid
               in if st \<noteq> 0 then (st, db)
                  else
                    let (st, db, lhsblobid) = blob_allocate env db record
                    in if st \<noteq> 0 then (st, db)
                       else (0, key_set_extended_rid db lhs lhsblobid)
             else (0, db))
      in if st \<noteq> 0 then (st, db)
         else
           let db = set_key db lhs ((get_key db lhs)\<lparr>key_size := key_size (get_key db rhs)\<rparr>);
               db = page_set_dirty db page
           in (HAM_SUCCESS, db))"

definition my_replace_key ::
  "extern \<Rightarrow> ham_offset_t \<Rightarrow> int \<Rightarrow> keyptr \<Rightarrow> 32 word \<Rightarrow> ham_db \<Rightarrow> ham_status_t \<times> ham_db" where
  "my_replace_key env page slot rhs flags db =
     (let st = db_uncouple_all_cursors env db page
      in if st \<noteq> 0 then (st, db_set_error db st)
         else
           let lhs = (page, slot)
           in if key_flags (get_key db lhs) AND KEY_IS_EXTENDED \<noteq> 0 then
                let blobid = key_get_extended_rid (get_key db lhs);
                    (st, db) = blob_free env db blobid
                in if st \<noteq> 0 then (st, db)
                   else my_replace_key_copy env page lhs rhs flags (extkey_cache_remove db blobid)
              else my_replace_key_copy env page lhs rhs flags db)"

text \<open>
  The database \<open>my_replace_key\<close> has built when it reaches \<open>blob_allocate\<close> (line 1120) for
  an extended \<open>rhs\<close>: an extended blob of the old key is freed and dropped from the cache
  (lines 1068 to 1084), the flags and the key bytes are overwritten (lines 1086 to 1097).
\<close>

definition replace_key_overwritten ::
  "extern \<Rightarrow> ham_offset_t \<Rightarrow> int \<Rightarrow> keyptr \<Rightarrow> 32 word \<Rightarrow> ham_db \<Rightarrow> ham_db" where
  "replace_key_overwritten env page slot rhs flags db =
     (let lhs = (page, slot);
          db = (if key_flags (get_key db lhs) AND KEY_IS_EXTENDED \<noteq> 0 then
                  let blobid = key_get_extended_rid (get_key db lhs)
                  in extkey_cache_remove (snd (blob_free env db blobid)) blobid
                else db);
          db = set_key db lhs ((get_key db lhs)\<lparr>key_flags := key_flags (get_key db rhs)\<rparr>);
          db = set_key db lhs ((get_key db lhs)\<lparr>key_prefix := key_prefix (get_key db rhs),
                                                 key_tail := key_tail (get_key db rhs)\<rparr>);
          db = (if flags AND INTERNAL_KEY \<noteq> 0
                then set_key db lhs ((get_key db lhs)\<lparr>key_flags :=
                       key_flags (get_key db lhs)
                         AND NOT (KEY_BLOB_SIZE_TINY OR KEY_BLOB_SIZE_SMALL OR KEY_BLOB_SIZE_EMPTY)\<rparr>)
                else db)
      in db)"

subsection \<open>my_remove_entry\<close>

definition my_remove_entry ::
  "extern \<Rightarrow> ham_offset_t \<Rightarrow> int \<Rightarrow> erase_scratchpad \<Rightarrow> ham_db \<Rightarrow> ham_status_t \<times> ham_db" where
  "my_remove_entry env page slot scratchpad db =
     (let bte = (page, slot);
          st = db_uncouple_all_cursors env db page
      in if st \<noteq> 0 then (st, db_set_error db st)
         else
           let db = (if key_flags (get_key db bte) AND KEY_IS_EXTENDED \<noteq> 0 then
                       let blobid = key_get_extended_rid (get_key db bte);
                           (st, db) = blob_free env db blobid
                       in extkey_cache_remove db blobid
                     else db);
               db = (if slot \<noteq> btree_node_get_count db page - 1
                     then memmove_keys db (page, slot) (page, slot + 1)
                            (btree_node_get_count db page - slot - 1)
                     else db);
               db = btree_node_set_count db page (btree_node_get_count db page - 1);
               db = page_set_dirty db page
           in (0, db))"

subsection \<open>my_merge_pages\<close>

text \<open>Lines 499 to 526: an internal node first receives the separator key of the anchor.
  The result is the status the code found (0 when nothing failed) and the database.\<close>

definition merge_append_separator ::
  "extern \<Rightarrow> ham_offset_t \<Rightarrow> ham_offset_t \<Rightarrow> ham_offset_t \<Rightarrow> ham_db \<Rightarrow> ham_status_t \<times> ham_db" where
  "merge_append_separator env page sibpage ancpage db =
     (if \<not> btree_node_is_leaf db page then
        let bte = (sibpage, 0);
            key = key_of_slot db bte;
            (st, slot) = get_slot env db ancpage key
        in if st \<noteq> 0 then (st, db)
           else
             let bte_lhs = (page, btree_node_get_count db page);
                 bte_rhs = (ancpage, slot);
                 (st, db) = my_copy_key env bte_lhs bte_rhs db
             in if st \<noteq> 0 then (st, db)
                else
                  let db = key_set_ptr db bte_lhs (btree_node_get_ptr_left db sibpage);
                      db = btree_node_set_count db page (btree_node_get_count db page + 1)
                  in (0, db)
      else (0, db))"

text \<open>Lines 546 to 570: the doubly linked list of siblings.\<close>

definition merge_update_links :: "ham_offset_t \<Rightarrow> ham_offset_t \<Rightarrow> ham_db \<Rightarrow> ham_db" where
  "merge_update_links page sibpage db =
     (if btree_node_get_left db page = sibpage then
        (if btree_node_get_left db sibpage \<noteq> 0 then
           let p = db_fetch_page db (btree_node_get_left db sibpage);
               db = btree_node_set_right db p (btree_node_get_right db sibpage);
               db = btree_node_set_left db page (btree_node_get_left db sibpage);
               db = page_set_dirty db p
           in db
         else btree_node_set_left db page 0)
      else if btree_node_get_right db page = sibpage then
        (if btree_node_get_right db sibpage \<noteq> 0 then
           let p = db_fetch_page db (btree_node_get_right db sibpage);
               db = btree_node_set_right db page (btree_node_get_right db sibpage);
               db = btree_node_set_left db p (btree_node_get_left db sibpage);
               db = page_set_dirty db p
           in db
         else btree_node_set_right db page 0)
      else db)"

definition my_merge_pages ::
  "extern \<Rightarrow> ham_offset_t \<Rightarrow> ham_offset_t \<Rightarrow> ham_offset_t \<Rightarrow> erase_scratchpad \<Rightarrow> ham_db
     \<Rightarrow> ham_offset_t \<times> erase_scratchpad \<times> ham_db" where
  "my_merge_pages env page sibpage anchor scratchpad db =
     (let ancpage = (if anchor \<noteq> 0 then db_fetch_page db anchor else 0)
      in if db_uncouple_all_cursors env db page \<noteq> 0 then (0, scratchpad, db)
         else if db_uncouple_all_cursors env db sibpage \<noteq> 0 then (0, scratchpad, db)
         else if ancpage \<noteq> 0 \<and> db_uncouple_all_cursors env db ancpage \<noteq> 0
           then (0, scratchpad, db)
         else
           let (st, db) = merge_append_separator env page sibpage ancpage db
           in if st \<noteq> 0 then (0, scratchpad, db_set_error db st)
              else
                let c = btree_node_get_count db sibpage;
                    db = memmove_keys db (page, btree_node_get_count db page) (sibpage, 0) c;
                    db = page_set_dirty db page;
                    db = page_set_dirty db sibpage;
                    db = btree_node_set_count db page (btree_node_get_count db page + c);
                    db = btree_node_set_count db sibpage 0;
                    db = merge_update_links page sibpage db;
                    scratchpad =
                      (if mergepage scratchpad \<noteq> 0
                          \<and> (mergepage scratchpad = page \<or> mergepage scratchpad = sibpage)
                       then scratchpad\<lparr>mergepage := 0\<rparr> else scratchpad);
                    (st, db) = txn_free_page env db sibpage
                in if st \<noteq> 0 then (0, scratchpad, db_set_error db st)
                   else (sibpage, scratchpad, db))"

subsection \<open>my_shift_pages\<close>

text \<open>C's integer division truncates towards zero.\<close>

definition c_div :: "int \<Rightarrow> int \<Rightarrow> int" where
  "c_div a b = sgn a * sgn b * (\<bar>a\<bar> div \<bar>b\<bar>)"

text \<open>
  The two loops that move the sibling's slots by one position. The bound of the first is
  \<open>(ham_size_t)btree_node_get_count(sibnode)-1\<close>, computed in 32 bits without sign.
\<close>

definition shift_sibling_left :: "ham_db \<Rightarrow> ham_offset_t \<Rightarrow> ham_db" where
  "shift_sibling_left db sibpage =
     fold (\<lambda>i db. memmove_keys db (sibpage, int i) (sibpage, int i + 1) 1)
       [0..<unat ((word_of_int (btree_node_get_count db sibpage) :: 32 word) - 1)] db"

definition shift_sibling_right :: "ham_db \<Rightarrow> ham_offset_t \<Rightarrow> ham_db" where
  "shift_sibling_right db sibpage =
     fold (\<lambda>i db. memmove_keys db (sibpage, int i) (sibpage, int i - 1) 1)
       (rev [1..<Suc (nat (btree_node_get_count db sibpage))]) db"

text \<open>The label \<open>cleanup\<close> (lines 996 to 1006).\<close>

definition shift_cleanup ::
  "ham_offset_t \<Rightarrow> ham_offset_t \<Rightarrow> ham_offset_t \<Rightarrow> erase_scratchpad \<Rightarrow> ham_db
     \<Rightarrow> ham_offset_t \<times> erase_scratchpad \<times> ham_db" where
  "shift_cleanup page ancpage sibpage scratchpad db =
     (let db = page_set_dirty db page;
          db = page_set_dirty db ancpage;
          db = page_set_dirty db sibpage
      in (0, scratchpad\<lparr>mergepage := 0\<rparr>, db))"

text \<open>
  The blocks of the function between two points where it can return. \<open>Inl db\<close>: the
  function has returned the null page at that point, leaving the database \<open>db\<close>;
  \<open>Inr\<close>: it goes on.

  Shifting from the sibling to the page, internal nodes, lines 633 to 691: one key is
  rotated through the anchor.
\<close>

definition from_sibling_rotate ::
  "extern \<Rightarrow> ham_offset_t \<Rightarrow> ham_offset_t \<Rightarrow> ham_offset_t \<Rightarrow> ham_db \<Rightarrow> ham_db + int \<times> ham_db" where
  "from_sibling_rotate env page sibpage ancpage db =
     (let bte = (sibpage, 0);
          key = key_of_slot db bte;
          (st, slot) = get_slot env db ancpage key
      in if st \<noteq> 0 then Inl (db_set_error db st)
         else
           let bte_rhs = (ancpage, slot);
               bte_lhs = (page, btree_node_get_count db page);
               (st, db) = my_copy_key env bte_lhs bte_rhs db
           in if st \<noteq> 0 then Inl (db_set_error db st)
              else
                let db = key_set_ptr db bte_lhs (btree_node_get_ptr_left db sibpage);
                    db = btree_node_set_ptr_left db sibpage (key_ptr (get_key db bte));
                    db = snd (my_replace_key env ancpage slot bte INTERNAL_KEY db);
                    db = shift_sibling_left db sibpage;
                    db = btree_node_set_count db page (btree_node_get_count db page + 1);
                    db = btree_node_set_count db sibpage (btree_node_get_count db sibpage - 1)
                in Inr (slot, db))"

text \<open>Lines 702 to 715: the anchor key is appended to the page.\<close>

definition from_sibling_append_anchor ::
  "extern \<Rightarrow> ham_offset_t \<Rightarrow> ham_offset_t \<Rightarrow> ham_offset_t \<Rightarrow> int \<Rightarrow> ham_db \<Rightarrow> ham_db + ham_db" where
  "from_sibling_append_anchor env page sibpage ancpage slot db =
     (let bte_lhs = (page, btree_node_get_count db page);
          bte_rhs = (ancpage, slot);
          (st, db) = my_copy_key env bte_lhs bte_rhs db
      in if st \<noteq> 0 then Inl (db_set_error db st)
         else
           let db = key_set_ptr db bte_lhs (btree_node_get_ptr_left db sibpage);
               db = btree_node_set_count db page (btree_node_get_count db page + 1)
           in Inr db)"

text \<open>Lines 721 to 730: \<open>c\<close> slots go from the head of the sibling to the tail of the page,
  and the rest of the sibling moves down.\<close>

definition from_sibling_move :: "ham_offset_t \<Rightarrow> ham_offset_t \<Rightarrow> int \<Rightarrow> ham_db \<Rightarrow> ham_db" where
  "from_sibling_move page sibpage c db =
     (let db = memmove_keys db (page, btree_node_get_count db page) (sibpage, 0) c;
          db = memmove_keys db (sibpage, 0) (sibpage, c) (btree_node_get_count db sibpage - c)
      in db)"

text \<open>Lines 736 to 796: the anchor key is replaced by the new first key of the sibling.\<close>

definition from_sibling_update_anchor ::
  "extern \<Rightarrow> bool \<Rightarrow> ham_offset_t \<Rightarrow> ham_offset_t \<Rightarrow> ham_offset_t \<Rightarrow> ham_db \<Rightarrow> ham_db + ham_db" where
  "from_sibling_update_anchor env intern sibpage anchor ancpage db =
     (if intern then
        let bte = (sibpage, 0);
            db = btree_node_set_ptr_left db sibpage (key_ptr (get_key db bte));
            r = (if anchor \<noteq> 0 then
                   let key = key_of_slot db bte;
                       (st, slot) = get_slot env db ancpage key
                   in if st \<noteq> 0 then Inl (db_set_error db st)
                      else
                        let (st, db) = my_replace_key env ancpage slot bte INTERNAL_KEY db
                        in if st \<noteq> 0 then Inl (db_set_error db st) else Inr db
                 else Inr db)
        in case r of
             Inl db \<Rightarrow> Inl db
           | Inr db \<Rightarrow>
               Inr (memmove_keys db (sibpage, 0) (sibpage, 1) (btree_node_get_count db sibpage - 1))
      else
        let bte = (sibpage, 0);
            key = key_of_slot db bte;
            (st, slot) = get_slot env db ancpage key
        in if st \<noteq> 0 then Inl (db_set_error db st)
           else
             let (st, db) = my_replace_key env ancpage slot bte INTERNAL_KEY db
             in if st \<noteq> 0 then Inl (db_set_error db st) else Inr db)"

definition shift_from_sibling ::
  "extern \<Rightarrow> bool \<Rightarrow> ham_offset_t \<Rightarrow> ham_offset_t \<Rightarrow> ham_offset_t \<Rightarrow> ham_offset_t
     \<Rightarrow> erase_scratchpad \<Rightarrow> ham_db \<Rightarrow> ham_offset_t \<times> erase_scratchpad \<times> ham_db" where
  "shift_from_sibling env intern page sibpage anchor ancpage scratchpad db =
     (case (if intern then from_sibling_rotate env page sibpage ancpage db else Inr (0, db)) of
        Inl db \<Rightarrow> (0, scratchpad, db)
      | Inr (slot, db) \<Rightarrow>
          let c = c_div (btree_node_get_count db sibpage - btree_node_get_count db page) 2
          in if c = 0 then shift_cleanup page ancpage sibpage scratchpad db
             else
               let c = (if intern then c - 1 else c)
               in case (if intern then from_sibling_append_anchor env page sibpage ancpage slot db
                        else Inr db) of
                    Inl db \<Rightarrow> (0, scratchpad, db)
                  | Inr db \<Rightarrow>
                     (case from_sibling_update_anchor env intern sibpage anchor ancpage
                             (from_sibling_move page sibpage c db) of
                        Inl db \<Rightarrow> (0, scratchpad, db)
                      | Inr db \<Rightarrow>
                          let db = btree_node_set_count db page (btree_node_get_count db page + c);
                              db = btree_node_set_count db sibpage
                                     (btree_node_get_count db sibpage - c - (if intern then 1 else 0))
                          in shift_cleanup page ancpage sibpage scratchpad db))"

text \<open>Shifting from the page to the sibling, internal nodes, lines 814 to 878.\<close>

definition to_sibling_rotate ::
  "extern \<Rightarrow> ham_offset_t \<Rightarrow> ham_offset_t \<Rightarrow> ham_offset_t \<Rightarrow> ham_db \<Rightarrow> ham_db + int \<times> ham_db" where
  "to_sibling_rotate env page sibpage ancpage db =
     (let bte = (sibpage, 0);
          key = key_of_slot db bte;
          (st, slot) = get_slot env db ancpage key
      in if st \<noteq> 0 then Inl (db_set_error db st)
         else
           let db = shift_sibling_right db sibpage;
               bte_lhs = (sibpage, 0);
               bte_rhs = (ancpage, slot);
               (st, db) = my_copy_key env bte_lhs bte_rhs db
           in if st \<noteq> 0 then Inl (db_set_error db st)
              else
                let db = key_set_ptr db bte_lhs (btree_node_get_ptr_left db sibpage);
                    bte_lhs = (page, btree_node_get_count db page - 1);
                    db = btree_node_set_ptr_left db sibpage (key_ptr (get_key db bte_lhs));
                    (st, db) = my_replace_key env ancpage slot bte_lhs (NOFLUSH OR INTERNAL_KEY) db
                in if st \<noteq> 0 then Inl (db_set_error db st)
                   else
                     let db = btree_node_set_count db page (btree_node_get_count db page - 1);
                         db = btree_node_set_count db sibpage (btree_node_get_count db sibpage + 1)
                     in Inr (slot, db))"

text \<open>Lines 889 to 913: the anchor element is inserted at the head of the sibling.\<close>

definition to_sibling_insert_anchor ::
  "extern \<Rightarrow> ham_offset_t \<Rightarrow> ham_offset_t \<Rightarrow> ham_offset_t \<Rightarrow> int \<Rightarrow> ham_db \<Rightarrow> ham_db + ham_db" where
  "to_sibling_insert_anchor env page sibpage ancpage slot db =
     (let db = shift_sibling_right db sibpage;
          bte_lhs = (sibpage, 0);
          bte_rhs = (ancpage, slot);
          (st, db) = my_replace_key env sibpage 0 bte_rhs
                       (NOFLUSH OR (if btree_node_is_leaf db page then 0 else INTERNAL_KEY)) db
      in if st \<noteq> 0 then Inl (db_set_error db st)
         else
           let db = key_set_ptr db bte_lhs (btree_node_get_ptr_left db sibpage);
               db = btree_node_set_count db sibpage (btree_node_get_count db sibpage + 1)
           in Inr db)"

text \<open>Lines 921 to 933: the sibling makes room for \<open>c\<close> slots, which come from the page
  starting at slot \<open>s + 1\<close>.\<close>

definition to_sibling_move :: "ham_offset_t \<Rightarrow> ham_offset_t \<Rightarrow> int \<Rightarrow> int \<Rightarrow> ham_db \<Rightarrow> ham_db" where
  "to_sibling_move page sibpage c s db =
     (let db = memmove_keys db (sibpage, c) (sibpage, 0) (btree_node_get_count db sibpage);
          db = memmove_keys db (sibpage, 0) (page, s + 1) c;
          db = btree_node_set_count db page (btree_node_get_count db page - c);
          db = btree_node_set_count db sibpage (btree_node_get_count db sibpage + c)
      in db)"

text \<open>Lines 939 to 963: the highest key of the page becomes \<open>ptr_left\<close> of the sibling.\<close>

definition to_sibling_drop_highest ::
  "extern \<Rightarrow> ham_offset_t \<Rightarrow> ham_offset_t \<Rightarrow> ham_db \<Rightarrow> ham_db + ham_db" where
  "to_sibling_drop_highest env page sibpage db =
     (let bte_lhs = (page, btree_node_get_count db page - 1);
          db = btree_node_set_ptr_left db sibpage (key_ptr (get_key db bte_lhs));
          r = (if key_flags (get_key db bte_lhs) AND KEY_IS_EXTENDED \<noteq> 0 then
                 let blobid = key_get_extended_rid (get_key db bte_lhs);
                     db = extkey_cache_remove db blobid;
                     (st, db) = blob_free env db blobid
                 in if st \<noteq> 0 then Inl db else Inr db
               else Inr db)
      in case r of
           Inl db \<Rightarrow> Inl db
         | Inr db \<Rightarrow> Inr (btree_node_set_count db page (btree_node_get_count db page - 1)))"

text \<open>Lines 968 to 993: the old anchor key is replaced by the new one.\<close>

definition to_sibling_update_anchor ::
  "extern \<Rightarrow> bool \<Rightarrow> ham_offset_t \<Rightarrow> ham_offset_t \<Rightarrow> ham_offset_t \<Rightarrow> ham_offset_t \<Rightarrow> int
     \<Rightarrow> ham_db \<Rightarrow> ham_db + ham_db" where
  "to_sibling_update_anchor env intern page sibpage anchor ancpage s db =
     (if anchor \<noteq> 0 then
        let bte = (if intern then (page, s) else (sibpage, 0));
            key = key_of_slot db bte;
            (st, slot) = get_slot env db ancpage key
        in if st \<noteq> 0 then Inl (db_set_error db st)
           else
             let (st, db) = my_replace_key env ancpage (slot + 1) bte INTERNAL_KEY db
             in if st \<noteq> 0 then Inl (db_set_error db st) else Inr db
      else Inr db)"

definition shift_to_sibling ::
  "extern \<Rightarrow> bool \<Rightarrow> ham_offset_t \<Rightarrow> ham_offset_t \<Rightarrow> ham_offset_t \<Rightarrow> ham_offset_t
     \<Rightarrow> erase_scratchpad \<Rightarrow> ham_db \<Rightarrow> ham_offset_t \<times> erase_scratchpad \<times> ham_db" where
  "shift_to_sibling env intern page sibpage anchor ancpage scratchpad db =
     (case (if intern then to_sibling_rotate env page sibpage ancpage db else Inr (0, db)) of
        Inl db \<Rightarrow> (0, scratchpad, db)
      | Inr (slot, db) \<Rightarrow>
          let c = c_div (btree_node_get_count db page - btree_node_get_count db sibpage) 2
          in if c = 0 then shift_cleanup page ancpage sibpage scratchpad db
             else
               let c = (if intern then c - 1 else c)
               in case (if intern then to_sibling_insert_anchor env page sibpage ancpage slot db
                        else Inr db) of
                    Inl db \<Rightarrow> (0, scratchpad, db)
                  | Inr db \<Rightarrow>
                      let s = btree_node_get_count db page - c - 1;
                          db = to_sibling_move page sibpage c s db
                      in case (if intern then to_sibling_drop_highest env page sibpage db
                               else Inr db) of
                           Inl db \<Rightarrow> (0, scratchpad, db)
                         | Inr db \<Rightarrow>
                            (case to_sibling_update_anchor env intern page sibpage anchor ancpage s db of
                               Inl db \<Rightarrow> (0, scratchpad, db)
                             | Inr db \<Rightarrow> shift_cleanup page ancpage sibpage scratchpad db))"

definition my_shift_pages ::
  "extern \<Rightarrow> ham_offset_t \<Rightarrow> ham_offset_t \<Rightarrow> ham_offset_t \<Rightarrow> erase_scratchpad \<Rightarrow> ham_db
     \<Rightarrow> ham_offset_t \<times> erase_scratchpad \<times> ham_db" where
  "my_shift_pages env page sibpage anchor scratchpad db =
     (if btree_node_get_count db page = btree_node_get_count db sibpage then (0, scratchpad, db)
      else
        let intern = \<not> btree_node_is_leaf db page;
            ancpage = db_fetch_page db anchor
        in if db_uncouple_all_cursors env db page \<noteq> 0 then (0, scratchpad, db)
           else if db_uncouple_all_cursors env db sibpage \<noteq> 0 then (0, scratchpad, db)
           else if ancpage \<noteq> 0 \<and> db_uncouple_all_cursors env db ancpage \<noteq> 0
             then (0, scratchpad, db)
           else if btree_node_get_count db sibpage \<ge> btree_node_get_count db page
             then shift_from_sibling env intern page sibpage anchor ancpage scratchpad db
           else shift_to_sibling env intern page sibpage anchor ancpage scratchpad db)"

subsection \<open>my_rebalance\<close>

definition my_rebalance ::
  "extern \<Rightarrow> ham_offset_t \<Rightarrow> ham_offset_t \<Rightarrow> ham_offset_t \<Rightarrow> ham_offset_t \<Rightarrow> ham_offset_t
     \<Rightarrow> ham_offset_t \<Rightarrow> erase_scratchpad \<Rightarrow> ham_db \<Rightarrow> ham_offset_t \<times> erase_scratchpad \<times> ham_db" where
  "my_rebalance env page left right lanchor ranchor parent scratchpad db =
     (let maxkeys = be_maxkeys (db_backend db);
          minkeys = minkeys env maxkeys
      in if mergepage scratchpad = 0 then (0, scratchpad, db)
         else
           let leftpage = (if left \<noteq> 0 then db_fetch_page db (btree_node_get_left db page) else 0);
               fewleft = (leftpage \<noteq> 0 \<and> btree_node_get_count db leftpage \<le> int minkeys);
               rightpage = (if right \<noteq> 0 then db_fetch_page db (btree_node_get_right db page) else 0);
               fewright = (rightpage \<noteq> 0 \<and> btree_node_get_count db rightpage \<le> int minkeys)
           in if leftpage = 0 \<and> rightpage = 0 then
                (if btree_node_is_leaf db page then (0, scratchpad, db)
                 else (db_fetch_page db (btree_node_get_ptr_left db page), scratchpad, db))
              else if (leftpage = 0 \<or> fewleft) \<and> (rightpage = 0 \<or> fewright) then
                (if lanchor \<noteq> parent
                 then my_merge_pages env page rightpage ranchor scratchpad db
                 else my_merge_pages env leftpage page lanchor scratchpad db)
              else if leftpage \<noteq> 0 \<and> fewleft \<and> rightpage \<noteq> 0 \<and> \<not> fewright then
                (if \<not> (ranchor = parent) \<and> page = mergepage scratchpad
                 then my_merge_pages env leftpage page lanchor scratchpad db
                 else my_shift_pages env page rightpage ranchor scratchpad db)
              else if leftpage \<noteq> 0 \<and> \<not> fewleft \<and> rightpage \<noteq> 0 \<and> fewright then
                (if \<not> (lanchor = parent) \<and> page = mergepage scratchpad
                 then my_merge_pages env page rightpage ranchor scratchpad db
                 else my_shift_pages env leftpage page lanchor scratchpad db)
              else if lanchor = ranchor then
                (if btree_node_get_count db leftpage \<le> btree_node_get_count db rightpage
                 then my_shift_pages env page rightpage ranchor scratchpad db
                 else my_shift_pages env leftpage page lanchor scratchpad db)
              else if lanchor = parent
                then my_shift_pages env leftpage page lanchor scratchpad db
              else my_shift_pages env page rightpage ranchor scratchpad db)"

subsection \<open>my_erase_recursive, my_collapse_root and btree_erase\<close>

text \<open>Lines 321 to 336: on the way back up the entry is removed and the page rebalanced.\<close>

definition erase_unwind ::
  "extern \<Rightarrow> ham_offset_t \<Rightarrow> int \<Rightarrow> ham_offset_t \<Rightarrow> ham_offset_t \<Rightarrow> ham_offset_t
     \<Rightarrow> ham_offset_t \<Rightarrow> ham_offset_t \<Rightarrow> ham_offset_t \<Rightarrow> erase_scratchpad \<Rightarrow> ham_db
     \<Rightarrow> ham_offset_t \<times> erase_scratchpad \<times> ham_db" where
  "erase_unwind env page slot newme left right lanchor ranchor parent scratchpad db =
     (let (st, db) =
            (if newme \<noteq> 0
             then my_remove_entry env page (if slot = - 1 then 0 else slot) scratchpad db
             else (0, db))
      in if st \<noteq> 0 then (0, scratchpad, db)
         else if db_error db = 0
           then my_rebalance env page left right lanchor ranchor parent scratchpad db
         else (0, scratchpad, db))"

text \<open>Lines 233 to 275: the neighbours and anchors of the child that is descended into.\<close>

definition next_left_of :: "ham_db \<Rightarrow> ham_offset_t \<Rightarrow> int \<Rightarrow> ham_offset_t \<Rightarrow> ham_offset_t" where
  "next_left_of db page slot left =
     (if slot = - 1 then
        (if left = 0 then 0
         else
           let tempp = db_fetch_page db left
           in key_ptr (get_key db (tempp, btree_node_get_count db tempp - 1)))
      else if slot = 0 then btree_node_get_ptr_left db page
      else key_ptr (get_key db (page, slot - 1)))"

definition next_right_of :: "ham_db \<Rightarrow> ham_offset_t \<Rightarrow> int \<Rightarrow> ham_offset_t \<Rightarrow> ham_offset_t" where
  "next_right_of db page slot right =
     (if slot = btree_node_get_count db page - 1 then
        (if right = 0 then 0
         else
           let tempp = db_fetch_page db right
           in key_ptr (get_key db (tempp, 0)))
      else key_ptr (get_key db (page, slot + 1)))"

text \<open>
  The recursion descends one level per call. Nothing in the code bounds the depth (it
  follows the child pointers the pages hold), so the function takes the number of levels
  it may still descend; \<open>None\<close> means that this number was used up.
\<close>

fun my_erase_recursive ::
  "nat \<Rightarrow> extern \<Rightarrow> ham_offset_t \<Rightarrow> ham_offset_t \<Rightarrow> ham_offset_t \<Rightarrow> ham_offset_t \<Rightarrow> ham_offset_t
     \<Rightarrow> ham_offset_t \<Rightarrow> erase_scratchpad \<Rightarrow> ham_db
     \<Rightarrow> (ham_offset_t \<times> erase_scratchpad \<times> ham_db) option" where
  "my_erase_recursive 0 env page left right lanchor ranchor parent scratchpad db = None"
| "my_erase_recursive (Suc fuel) env page left right lanchor ranchor parent scratchpad db =
     (let maxkeys = be_maxkeys (db_backend db)
      in if btree_node_get_count db page = 0
         then Some (0, scratchpad, db_set_error db HAM_KEY_NOT_FOUND)
         else
           let isfew = (if be_rootpage (db_backend db) = page
                        then btree_node_get_count db page > 1
                        else btree_node_get_count db page > int (minkeys env maxkeys));
               scratchpad = (if isfew then scratchpad\<lparr>mergepage := 0\<rparr>
                             else if mergepage scratchpad = 0 then scratchpad\<lparr>mergepage := page\<rparr>
                             else scratchpad)
           in if \<not> btree_node_is_leaf db page then
                let (child, slot) = traverse_tree env db page (sp_key scratchpad);
                    next_left = next_left_of db page slot left;
                    next_lanchor = (if slot = - 1 then lanchor else page);
                    next_right = next_right_of db page slot right;
                    next_ranchor = (if slot = btree_node_get_count db page - 1 then ranchor else page)
                in case my_erase_recursive fuel env child next_left next_right next_lanchor
                          next_ranchor page scratchpad db of
                     None \<Rightarrow> None
                   | Some (newme, scratchpad, db) \<Rightarrow>
                       Some (erase_unwind env page slot newme left right lanchor ranchor parent
                               scratchpad db)
              else
                let (st, slot) = get_slot env db page (sp_key scratchpad)
                in if st \<noteq> 0 then Some (0, scratchpad, db_set_error db st)
                   else if slot \<noteq> - 1 then
                     let bte = (page, slot);
                         (cmp, err) = compare_keys env db page (sp_key scratchpad) slot;
                         db = (if err \<noteq> 0 then db_set_error db err else db)
                     in if db_error db \<noteq> 0 then Some (0, scratchpad, db)
                        else if cmp = 0 then
                          Some (erase_unwind env page slot page left right lanchor ranchor parent
                                  (scratchpad\<lparr>sp_rid := key_ptr (get_key db bte),
                                              sp_intflags := ucast (key_flags (get_key db bte))\<rparr>)
                                  db)
                        else Some (0, scratchpad, db_set_error db HAM_KEY_NOT_FOUND)
                   else Some (0, scratchpad\<lparr>mergepage := 0\<rparr>, db_set_error db HAM_KEY_NOT_FOUND))"

definition my_collapse_root ::
  "ham_offset_t \<Rightarrow> erase_scratchpad \<Rightarrow> ham_db \<Rightarrow> ham_status_t \<times> ham_db" where
  "my_collapse_root newroot scratchpad db =
     (let db = db\<lparr>db_backend := (db_backend db)\<lparr>be_rootpage := newroot\<rparr>\<rparr>;
          db = db\<lparr>db_backend := (db_backend db)\<lparr>be_dirty := True\<rparr>\<rparr>;
          db = db\<lparr>db_dirty := True\<rparr>;
          db = page_set_type db newroot PAGE_TYPE_B_ROOT
      in (0, db))"

text \<open>\<open>rid\<close> and \<open>intflags\<close> are the values of the caller's variables before the call; the
  result carries the status, the scratchpad (with the two values after the call) and the
  database.\<close>

definition btree_erase ::
  "nat \<Rightarrow> extern \<Rightarrow> ham_key \<Rightarrow> ham_offset_t \<Rightarrow> 32 word \<Rightarrow> 32 word \<Rightarrow> ham_db
     \<Rightarrow> (ham_status_t \<times> erase_scratchpad \<times> ham_db) option" where
  "btree_erase fuel env key rid intflags flags db =
     (let scratchpad = \<lparr>sp_flags = flags, sp_key = key, sp_rid = rid, sp_intflags = intflags,
                        mergepage = 0\<rparr>;
          rootaddr = be_rootpage (db_backend db)
      in if rootaddr = 0
         then Some (HAM_KEY_NOT_FOUND, scratchpad, db_set_error db HAM_KEY_NOT_FOUND)
         else
           let root = db_fetch_page db rootaddr;
               db = db_set_error db 0
           in case my_erase_recursive fuel env root 0 0 0 0 0 scratchpad db of
                None \<Rightarrow> None
              | Some (p, scratchpad, db) \<Rightarrow>
                  Some (if db_error db \<noteq> 0 then (db_error db, scratchpad, db)
                        else if p \<noteq> 0 then
                          let (st, db) = my_collapse_root p scratchpad db
                          in if st \<noteq> 0 then (st, scratchpad, db)
                             else
                               let (st, db) = txn_free_page env db root
                               in (st, scratchpad, db)
                        else (0, scratchpad, db)))"

subsection \<open>Contract of the blob allocator\<close>

text \<open>A successful \<open>blob_allocate\<close> hands out an id under which no blob is stored.\<close>

definition allocator_fresh :: "extern \<Rightarrow> bool" where
  "allocator_fresh env =
     (\<forall>db d. fst (blob_alloc env db d) = 0 \<longrightarrow> snd (blob_alloc env db d) \<notin> dom (db_blobs db))"

section \<open>Concrete states used to instantiate the theorems\<close>

definition example_raw :: PPageData where
  "example_raw = \<lparr>header_crc32 = 0, header_other = replicate 12 0, payload = [1, 2, 3, 4, 5, 6, 7]\<rparr>"

definition example_pd :: PersistedData where
  "example_pd = \<lparr>address = 4096, size_pd = 23, is_dirty = True, is_without_header = False,
                  raw_data = Some 0\<rparr>"

definition example_mem :: memory where
  "example_mem = \<lparr>buffers = [Some example_raw], descriptors = [], ms_page_count_flushed = 0\<rparr>"

definition example_dev :: Device where
  "example_dev = \<lparr>config_flags = HAM_ENABLE_CRC32, write_status = (\<lambda>a. 0), storage = Map.empty\<rparr>"

definition example_page :: Page where
  "example_page = \<lparr>m_is_allocated = True, m_is_without_header = False, m_cursor_list = None,
                    m_node_proxy = Some 0, m_datap = Inline, m_data_inline = example_pd\<rparr>"

text \<open>
  Modelled from the spec: the comparator and the slot search are collaborators of the erase
  code (\<open>get_slot\<close> returns the slot whose key is the largest one not above the search key,
  or -1; \<open>traverse_tree\<close> returns the child to descend into and the slot chosen). The
  instances below compare the key bytes as \<open>memcmp\<close> does; the allocator hands out the
  first unused of four blob ids and fails when none is left.
\<close>

fun memcmp :: "byte list \<Rightarrow> byte list \<Rightarrow> int" where
  "memcmp [] [] = 0"
| "memcmp [] (y # ys) = - 1"
| "memcmp (x # xs) [] = 1"
| "memcmp (x # xs) (y # ys) = (if x < y then - 1 else if y < x then 1 else memcmp xs ys)"

definition ex_get_slot :: "ham_db \<Rightarrow> ham_offset_t \<Rightarrow> ham_key \<Rightarrow> ham_status_t \<times> int" where
  "ex_get_slot db page key =
     (0, int (length (filter (\<lambda>i. memcmp (hk_data (key_of_slot db (page, int i))) (hk_data key) \<le> 0)
                        [0..<nat (btree_node_get_count db page)])) - 1)"

definition ex_traverse :: "ham_db \<Rightarrow> ham_offset_t \<Rightarrow> ham_key \<Rightarrow> ham_offset_t \<times> int" where
  "ex_traverse db page key =
     (let slot = snd (ex_get_slot db page key)
      in (if slot = - 1 then btree_node_get_ptr_left db page else key_ptr (get_key db (page, slot)),
          slot))"

definition ex_compare :: "ham_db \<Rightarrow> ham_offset_t \<Rightarrow> ham_key \<Rightarrow> int \<Rightarrow> int \<times> ham_status_t" where
  "ex_compare db page key slot = (memcmp (hk_data key) (hk_data (key_of_slot db (page, slot))), 0)"

definition ex_alloc :: "ham_db \<Rightarrow> byte list \<Rightarrow> ham_status_t \<times> ham_offset_t" where
  "ex_alloc db d =
     (case filter (\<lambda>i. db_blobs db i = None) [101, 102, 103, 104] of
        [] \<Rightarrow> (- 6, 0)
      | i # _ \<Rightarrow> (0, i))"

definition ex_env :: extern where
  "ex_env = \<lparr>uncouple_status = (\<lambda>db p. 0), get_slot = ex_get_slot, traverse_tree = ex_traverse,
             compare_keys = ex_compare, blob_alloc = ex_alloc, blob_free_status = (\<lambda>db b. 0),
             txn_free_status = (\<lambda>db p. 0), minkeys = (\<lambda>m. m div 2)\<rparr>"

definition ex_key :: "byte \<Rightarrow> ham_offset_t \<Rightarrow> int_key" where
  "ex_key b p = \<lparr>key_ptr = p, key_size = 1, key_flags = 0, key_prefix = [b], key_tail = 0\<rparr>"

definition ex_slots :: "int_key list \<Rightarrow> int \<Rightarrow> int_key" where
  "ex_slots ks i = (if 0 \<le> i \<and> i < int (length ks) then ks ! nat i else ex_key 0 0)"

definition ex_page :: "bool \<Rightarrow> ham_offset_t \<Rightarrow> ham_offset_t \<Rightarrow> ham_offset_t \<Rightarrow> int_key list \<Rightarrow> ham_page" where
  "ex_page leaf pl l r ks =
     \<lparr>page_dirty = False, page_type = 0,
      page_node = \<lparr>node_count = of_nat (length ks), node_is_leaf = leaf, node_ptr_left = pl,
                   node_left = l, node_right = r, node_entries = ex_slots ks\<rparr>\<rparr>"

definition ex_db :: ham_db where
  "ex_db =
     \<lparr>db_error = 0, db_dirty = False,
      db_backend = \<lparr>be_rootpage = 0x100, be_maxkeys = 4, be_dirty = False\<rparr>,
      db_pages = (\<lambda>a. if a = 0x100 then ex_page False 0x200 0 0 [ex_key 30 0x300, ex_key 50 0x400]
                      else if a = 0x200 then ex_page True 0 0 0x300
                             [ex_key 10 0x9010, ex_key 15 0x9015, ex_key 20 0x9020]
                      else if a = 0x300 then ex_page True 0 0x200 0x400
                             [ex_key 30 0x9030, ex_key 35 0x9035]
                      else if a = 0x400 then ex_page True 0 0x300 0
                             [ex_key 50 0x9050, ex_key 60 0x9060, ex_key 70 0x9070, ex_key 80 0x9080]
                      else ex_page True 0 0 0 []),
      db_blobs = Map.empty, db_extkey_cache = None, db_freed = []\<rparr>"

definition ex_sp :: erase_scratchpad where
  "ex_sp = \<lparr>sp_flags = 0,
            sp_key = \<lparr>hk_data = [35, 0, 0, 0, 0, 0, 0, 0, 0], hk_size = 1, hk_flags = 0\<rparr>,
            sp_rid = 0, sp_intflags = 0, mergepage = 0x300\<rparr>"

text \<open>The same tree with the last leaf holding as many keys as its left neighbour.\<close>

definition ex_db_equal :: ham_db where
  "ex_db_equal =
     ex_db\<lparr>db_pages := (db_pages ex_db)
              (0x400 := ex_page True 0 0x300 0 [ex_key 50 0x9050, ex_key 60 0x9060])\<rparr>"

text \<open>A tree of internal nodes: two siblings under the anchor \<open>0x700\<close>.\<close>

definition ex_db_internal :: ham_db where
  "ex_db_internal =
     \<lparr>db_error = 0, db_dirty = False,
      db_backend = \<lparr>be_rootpage = 0x700, be_maxkeys = 4, be_dirty = False\<rparr>,
      db_pages = (\<lambda>a. if a = 0x700 then ex_page False 0x500 0 0 [ex_key 40 0x600]
                      else if a = 0x500 then ex_page False 0x510 0 0x600 [ex_key 20 0x520]
                      else if a = 0x600 then ex_page False 0x610 0x500 0 [ex_key 60 0x620]
                      else ex_page True 0 0 0 []),
      db_blobs = Map.empty, db_extkey_cache = None, db_freed = []\<rparr>"

text \<open>The tree with two extended keys: the first key of the root owns blob 9, the first
  key of the leaf \<open>0x300\<close> owns blob 7.\<close>

definition ex_db_extended :: ham_db where
  "ex_db_extended =
     (set_key
        (set_key ex_db (0x100, 0) ((ex_key 30 0x300)\<lparr>key_flags := 8, key_size := 12, key_tail := 9\<rparr>))
        (0x300, 0) ((ex_key 31 0x9030)\<lparr>key_flags := 8, key_size := 11, key_tail := 7\<rparr>))
     \<lparr>db_blobs := [7 \<mapsto> [1, 2, 3], 9 \<mapsto> [4, 5]]\<rparr>"

text \<open>An allocator that is out of memory; cursors that cannot be uncoupled from the leaves
  \<open>0x200\<close> and \<open>0x400\<close>; and the same with a transaction that cannot free a page.\<close>

definition ex_env_nomem :: extern where
  "ex_env_nomem = ex_env\<lparr>blob_alloc := (\<lambda>db d. (- 6, 0))\<rparr>"

definition ex_env_fail :: extern where
  "ex_env_fail =
     ex_env\<lparr>uncouple_status := (\<lambda>db p. if p = 0x200 \<or> p = 0x400 then - 6 else 0)\<rparr>"

definition ex_env_stuck :: extern where
  "ex_env_stuck = ex_env_fail\<lparr>txn_free_status := (\<lambda>db p. - 18)\<rparr>"

definition ex_sp0 :: erase_scratchpad where
  "ex_sp0 = \<lparr>sp_flags = 0, sp_key = sp_key ex_sp, sp_rid = 0, sp_intflags = 0, mergepage = 0\<rparr>"

text \<open>The tree with two extended keys and a blob store in which the four ids of the
  allocator are taken.\<close>

definition ex_db_full :: ham_db where
  "ex_db_full =
     ex_db_extended\<lparr>db_blobs := [7 \<mapsto> [1, 2, 3], 9 \<mapsto> [4, 5], 101 \<mapsto> [6], 102 \<mapsto> [7],
                                  103 \<mapsto> [8], 104 \<mapsto> [9]]\<rparr>"

text \<open>A tree with room for eight keys per page: the leaf \<open>0x300\<close> holds eight keys, its
  left neighbour six and its right neighbour five.\<close>

definition ex_db_wide :: ham_db where
  "ex_db_wide =
     ex_db\<lparr>db_backend := \<lparr>be_rootpage = 0x100, be_maxkeys = 8, be_dirty = False\<rparr>,
           db_pages := (\<lambda>a. if a = 0x200 then ex_page True 0 0 0x300
                                 [ex_key 10 0x9010, ex_key 11 0x9011, ex_key 12 0x9012,
                                  ex_key 13 0x9013, ex_key 14 0x9014, ex_key 15 0x9015]
                          else if a = 0x300 then ex_page True 0 0x200 0x400
                                 [ex_key 30 0x9030, ex_key 31 0x9031, ex_key 32 0x9032,
                                  ex_key 33 0x9033, ex_key 34 0x9034, ex_key 35 0x9035,
                                  ex_key 36 0x9036, ex_key 37 0x9037]
                          else if a = 0x400 then ex_page True 0 0x300 0
                                 [ex_key 50 0x9050, ex_key 51 0x9051, ex_key 52 0x9052,
                                  ex_key 53 0x9053, ex_key 54 0x9054]
                          else db_pages ex_db a)\<rparr>"
section \<open>Properties of the page buffer\<close>

lemma ROTL32_13_back: "push_bit 19 (ROTL32 z 13) OR drop_bit 13 (ROTL32 z 13) = z"
  unfolding ROTL32_def
  by (rule bit_word_eqI) (auto simp add: bit_simps)

lemma ROTL32_13_inj:
  assumes "ROTL32 x 13 = ROTL32 y 13"
  shows "x = y"
proof -
  have "x = push_bit 19 (ROTL32 x 13) OR drop_bit 13 (ROTL32 x 13)"
    by (rule ROTL32_13_back [symmetric])
  also have "\<dots> = push_bit 19 (ROTL32 y 13) OR drop_bit 13 (ROTL32 y 13)"
    by (simp only: assms)
  also have "\<dots> = y"
    by (rule ROTL32_13_back)
  finally show ?thesis .
qed

lemma mult_unit_inj:
  fixes x y c d :: "32 word"
  assumes unit: "c * d = 1" and eq: "x * c = y * c"
  shows "x = y"
proof -
  have "x = x * (c * d)" by (simp only: unit mult_1_right)
  also have "\<dots> = (x * c) * d" by (simp only: mult.assoc)
  also have "\<dots> = (y * c) * d" by (simp only: eq)
  also have "\<dots> = y * (c * d)" by (simp only: mult.assoc)
  also have "\<dots> = y" by (simp only: unit mult_1_right)
  finally show ?thesis .
qed

lemma xorshift16_inj:
  fixes x y :: "32 word"
  assumes "x XOR drop_bit 16 x = y XOR drop_bit 16 y"
  shows "x = y"
proof -
  have undo: "(h XOR drop_bit 16 h) XOR drop_bit 16 (h XOR drop_bit 16 h) = h"
    for h :: "32 word"
    by (simp add: drop_bit_xor drop_bit_drop_bit xor.assoc)
  have "x = (x XOR drop_bit 16 x) XOR drop_bit 16 (x XOR drop_bit 16 x)"
    by (rule undo [symmetric])
  also have "\<dots> = (y XOR drop_bit 16 y) XOR drop_bit 16 (y XOR drop_bit 16 y)"
    by (simp only: assms)
  also have "\<dots> = y" by (rule undo)
  finally show ?thesis .
qed

lemma xorshift13_inj:
  fixes x y :: "32 word"
  assumes "x XOR drop_bit 13 x = y XOR drop_bit 13 y"
  shows "x = y"
proof -
  have undo: "(h XOR drop_bit 13 h) XOR drop_bit 13 (h XOR drop_bit 13 h)
        XOR drop_bit 26 (h XOR drop_bit 13 h) = h"
    for h :: "32 word"
    by (simp add: drop_bit_xor drop_bit_drop_bit xor.assoc xor.left_commute)
  have "x = (x XOR drop_bit 13 x) XOR drop_bit 13 (x XOR drop_bit 13 x)
              XOR drop_bit 26 (x XOR drop_bit 13 x)"
    by (rule undo [symmetric])
  also have "\<dots> = (y XOR drop_bit 13 y) XOR drop_bit 13 (y XOR drop_bit 13 y)
              XOR drop_bit 26 (y XOR drop_bit 13 y)"
    by (simp only: assms)
  also have "\<dots> = y" by (rule undo)
  finally show ?thesis .
qed

lemma xor_right_inj:
  fixes x y k :: "32 word"
  assumes "x XOR k = y XOR k"
  shows "x = y"
proof -
  have "x = (x XOR k) XOR k" by (simp add: xor.assoc)
  also have "\<dots> = (y XOR k) XOR k" by (simp only: assms)
  also have "\<dots> = y" by (simp add: xor.assoc)
  finally show ?thesis .
qed

lemma fmix32_inj:
  assumes "fmix32 x = fmix32 y"
  shows "x = y"
proof -
  let ?a = "\<lambda>h :: 32 word. h XOR drop_bit 16 h"
  let ?b = "\<lambda>h :: 32 word. ?a h * 0x85ebca6b"
  let ?c = "\<lambda>h :: 32 word. ?b h XOR drop_bit 13 (?b h)"
  let ?d = "\<lambda>h :: 32 word. ?c h * 0xc2b2ae35"
  have u1: "(0x85ebca6b :: 32 word) * 0xa5cb9243 = 1" by simp
  have u2: "(0xc2b2ae35 :: 32 word) * 0x7ed1b41d = 1" by simp
  from assms have "?d x XOR drop_bit 16 (?d x) = ?d y XOR drop_bit 16 (?d y)"
    by (simp add: fmix32_def Let_def)
  then have "?d x = ?d y" by (rule xorshift16_inj)
  then have "?c x = ?c y" by (rule mult_unit_inj [OF u2])
  then have "?b x = ?b y" by (rule xorshift13_inj)
  then have "?a x = ?a y" by (rule mult_unit_inj [OF u1])
  then show ?thesis by (rule xorshift16_inj)
qed

lemma murmur_block_inj:
  assumes "murmur_block x k = murmur_block y k"
  shows "x = y"
proof -
  have u: "(5 :: 32 word) * 0xCCCCCCCD = 1" by simp
  from assms have "ROTL32 (x XOR murmur_k1 k) 13 * 5 = ROTL32 (y XOR murmur_k1 k) 13 * 5"
    by (simp add: murmur_block_def)
  then have "ROTL32 (x XOR murmur_k1 k) 13 = ROTL32 (y XOR murmur_k1 k) 13"
    by (rule mult_unit_inj [OF u])
  then have "x XOR murmur_k1 k = y XOR murmur_k1 k"
    by (rule ROTL32_13_inj)
  then show ?thesis by (rule xor_right_inj)
qed

lemma murmur_body_inj: "murmur_body x bs = murmur_body y bs \<Longrightarrow> x = y"
proof (induction x bs arbitrary: y rule: murmur_body.induct)
  case (1 h1 b0 b1 b2 b3 rest)
  from "1.prems" have "murmur_body (murmur_block h1 (getblock32 b0 b1 b2 b3)) rest
      = murmur_body (murmur_block y (getblock32 b0 b1 b2 b3)) rest"
    by simp
  then have "murmur_block h1 (getblock32 b0 b1 b2 b3) = murmur_block y (getblock32 b0 b1 b2 b3)"
    by (rule "1.IH")
  then show ?case by (rule murmur_block_inj)
next
  case (2 h1 b0 b1 b2)
  then show ?case by (auto dest: xor_right_inj)
next
  case (3 h1 b0 b1)
  then show ?case by (auto dest: xor_right_inj)
next
  case (4 h1 b0)
  then show ?case by (auto dest: xor_right_inj)
next
  case (5 h1)
  then show ?case by simp
qed

lemma MurmurHash3_seed_inj:
  assumes "MurmurHash3_x86_32 key len s = MurmurHash3_x86_32 key len t"
  shows "s = t"
proof -
  from assms have "murmur_body s (take (nat len) key) XOR word_of_int len
      = murmur_body t (take (nat len) key) XOR word_of_int len"
    unfolding MurmurHash3_x86_32_def by (rule fmix32_inj)
  then have "murmur_body s (take (nat len) key) = murmur_body t (take (nat len) key)"
    by (rule xor_right_inj)
  then show ?thesis by (rule murmur_body_inj)
qed


lemma crc_len_in_range:
  assumes "int hsz - 1 \<le> uint sz" and "uint sz - (int hsz - 1) < 2 ^ 31"
  shows "crc_len hsz sz = uint sz - int hsz + 1"
proof -
  have "crc_len hsz sz = signed_take_bit 31 (uint sz - (int hsz - 1))"
    unfolding crc_len_def sint_sbintrunc' by simp
  also have "\<dots> = uint sz - (int hsz - 1)"
    using assms by (intro signed_take_bit_int_eq_self) simp_all
  finally show ?thesis by simp
qed

lemma deref_update_same:
  "deref h p = Some v \<Longrightarrow> deref (h[p := w]) p = w"
  by (simp add: deref_def split: if_splits)

lemma flushed_crc_eq:
  assumes "is_dirty pd" and "config_flags dev AND HAM_ENABLE_CRC32 \<noteq> 0"
    and "\<not> is_without_header pd" and "raw_data pd = Some p"
    and "deref (buffers mem) p = Some raw"
  shows "flushed_crc hsz dev (pd\<lparr>address := a\<rparr>) mem
    = Some (MurmurHash3_x86_32 (payload raw) (crc_len hsz (size_pd pd)) (ucast a))"
  using assms
  by (simp add: flushed_crc_def flush_def Let_def deref_update_same
      split: prod.splits)

section \<open>Claims about the page buffer\<close>

text \<open>
  Claim C5. \<open>flush\<close> does nothing when the descriptor is not dirty. When it is dirty, CRC32
  is enabled in the device configuration and the page has a header, the
  \<open>MurmurHash3_x86_32\<close> digest of the payload, seeded with the page's address cast to 32
  bits, is stored in the header's CRC field; the page that is written to the device at the
  page's address carries that digest; the dirty bit is cleared afterwards, and flushing
  again changes nothing. The length passed to the hash is \<open>size - sizeof(header) + 1\<close>
  whenever that difference is a non-negative 32-bit signed value. The successful write is a
  hypothesis: a failing write is thrown and leaves the dirty bit set.
\<close>

theorem flush_stamps_crc_then_writes_then_cleans:
  "(\<not> is_dirty pd \<longrightarrow> flush hsz dev pd mem = (Returned, dev, pd, mem))
   \<and> (is_dirty pd \<and> config_flags dev AND HAM_ENABLE_CRC32 \<noteq> 0 \<and> \<not> is_without_header pd
        \<and> raw_data pd = Some p \<and> deref (buffers mem) p = Some raw
        \<and> write_status dev (address pd) = 0
      \<longrightarrow> (let crc = MurmurHash3_x86_32 (payload raw) (crc_len hsz (size_pd pd))
                         (ucast (address pd));
               raw' = raw\<lparr>header_crc32 := crc\<rparr>;
               dev' = dev\<lparr>storage := (storage dev)(address pd \<mapsto> (raw', size_pd pd))\<rparr>;
               pd' = pd\<lparr>is_dirty := False\<rparr>;
               mem' = mem\<lparr>buffers := (buffers mem)[p := Some raw'],
                          ms_page_count_flushed := ms_page_count_flushed mem + 1\<rparr>
            in flush hsz dev pd mem = (Returned, dev', pd', mem')
               \<and> flush hsz dev' pd' mem' = (Returned, dev', pd', mem')))
   \<and> (int hsz - 1 \<le> uint (size_pd pd) \<and> uint (size_pd pd) - (int hsz - 1) < 2 ^ 31
      \<longrightarrow> crc_len hsz (size_pd pd) = uint (size_pd pd) - int hsz + 1)"
proof (intro conjI impI)
  assume "\<not> is_dirty pd"
  then show "flush hsz dev pd mem = (Returned, dev, pd, mem)"
    by (simp add: flush_def)
next
  assume a: "is_dirty pd \<and> config_flags dev AND HAM_ENABLE_CRC32 \<noteq> 0 \<and> \<not> is_without_header pd
        \<and> raw_data pd = Some p \<and> deref (buffers mem) p = Some raw
        \<and> write_status dev (address pd) = 0"
  then have first: "flush hsz dev pd mem =
      (Returned,
       dev\<lparr>storage := (storage dev)(address pd \<mapsto>
          (raw\<lparr>header_crc32 := MurmurHash3_x86_32 (payload raw) (crc_len hsz (size_pd pd))
                         (ucast (address pd))\<rparr>, size_pd pd))\<rparr>,
       pd\<lparr>is_dirty := False\<rparr>,
       mem\<lparr>buffers := (buffers mem)[p := Some (raw\<lparr>header_crc32 :=
                  MurmurHash3_x86_32 (payload raw) (crc_len hsz (size_pd pd))
                         (ucast (address pd))\<rparr>)],
           ms_page_count_flushed := ms_page_count_flushed mem + 1\<rparr>)"
    by (simp add: flush_def device_write_def Let_def)
  show "let crc = MurmurHash3_x86_32 (payload raw) (crc_len hsz (size_pd pd))
                         (ucast (address pd));
               raw' = raw\<lparr>header_crc32 := crc\<rparr>;
               dev' = dev\<lparr>storage := (storage dev)(address pd \<mapsto> (raw', size_pd pd))\<rparr>;
               pd' = pd\<lparr>is_dirty := False\<rparr>;
               mem' = mem\<lparr>buffers := (buffers mem)[p := Some raw'],
                          ms_page_count_flushed := ms_page_count_flushed mem + 1\<rparr>
            in flush hsz dev pd mem = (Returned, dev', pd', mem')
               \<and> flush hsz dev' pd' mem' = (Returned, dev', pd', mem')"
    unfolding Let_def
  proof
    show "flush hsz dev pd mem =
      (Returned,
       dev\<lparr>storage := (storage dev)(address pd \<mapsto>
          (raw\<lparr>header_crc32 := MurmurHash3_x86_32 (payload raw) (crc_len hsz (size_pd pd))
                         (ucast (address pd))\<rparr>, size_pd pd))\<rparr>,
       pd\<lparr>is_dirty := False\<rparr>,
       mem\<lparr>buffers := (buffers mem)[p := Some (raw\<lparr>header_crc32 :=
                  MurmurHash3_x86_32 (payload raw) (crc_len hsz (size_pd pd))
                         (ucast (address pd))\<rparr>)],
           ms_page_count_flushed := ms_page_count_flushed mem + 1\<rparr>)"
      by (rule first)
  next
    show "flush hsz
       (dev\<lparr>storage := (storage dev)(address pd \<mapsto>
          (raw\<lparr>header_crc32 := MurmurHash3_x86_32 (payload raw) (crc_len hsz (size_pd pd))
                         (ucast (address pd))\<rparr>, size_pd pd))\<rparr>)
       (pd\<lparr>is_dirty := False\<rparr>)
       (mem\<lparr>buffers := (buffers mem)[p := Some (raw\<lparr>header_crc32 :=
                  MurmurHash3_x86_32 (payload raw) (crc_len hsz (size_pd pd))
                         (ucast (address pd))\<rparr>)],
           ms_page_count_flushed := ms_page_count_flushed mem + 1\<rparr>) =
      (Returned,
       dev\<lparr>storage := (storage dev)(address pd \<mapsto>
          (raw\<lparr>header_crc32 := MurmurHash3_x86_32 (payload raw) (crc_len hsz (size_pd pd))
                         (ucast (address pd))\<rparr>, size_pd pd))\<rparr>,
       pd\<lparr>is_dirty := False\<rparr>,
       mem\<lparr>buffers := (buffers mem)[p := Some (raw\<lparr>header_crc32 :=
                  MurmurHash3_x86_32 (payload raw) (crc_len hsz (size_pd pd))
                         (ucast (address pd))\<rparr>)],
           ms_page_count_flushed := ms_page_count_flushed mem + 1\<rparr>)"
      by (simp add: flush_def)
  qed
next
  assume "int hsz - 1 \<le> uint (size_pd pd) \<and> uint (size_pd pd) - (int hsz - 1) < 2 ^ 31"
  then show "crc_len hsz (size_pd pd) = uint (size_pd pd) - int hsz + 1"
    by (simp add: crc_len_in_range)
qed

theorem flush_stamps_crc_then_writes_then_cleans_witness:
  "is_dirty example_pd \<and> config_flags example_dev AND HAM_ENABLE_CRC32 \<noteq> 0
   \<and> \<not> is_without_header example_pd \<and> raw_data example_pd = Some 0
   \<and> deref (buffers example_mem) 0 = Some example_raw
   \<and> write_status example_dev (address example_pd) = 0
   \<and> int 17 - 1 \<le> uint (size_pd example_pd)
   \<and> uint (size_pd example_pd) - (int 17 - 1) < 2 ^ 31
   \<and> crc_len 17 (size_pd example_pd) = 7
   \<and> flush 17 example_dev example_pd example_mem =
       (Returned,
        example_dev\<lparr>storage := [4096 \<mapsto>
           (example_raw\<lparr>header_crc32 := MurmurHash3_x86_32 [1, 2, 3, 4, 5, 6, 7] 7 4096\<rparr>, 23)]\<rparr>,
        example_pd\<lparr>is_dirty := False\<rparr>,
        \<lparr>buffers = [Some
           (example_raw\<lparr>header_crc32 := MurmurHash3_x86_32 [1, 2, 3, 4, 5, 6, 7] 7 4096\<rparr>)],
         descriptors = [], ms_page_count_flushed = 1\<rparr>)
   \<and> \<not> is_dirty (example_pd\<lparr>is_dirty := False\<rparr>)
   \<and> flush 17 example_dev (example_pd\<lparr>is_dirty := False\<rparr>) example_mem
       = (Returned, example_dev, example_pd\<lparr>is_dirty := False\<rparr>, example_mem)"
  using flush_stamps_crc_then_writes_then_cleans
          [of example_pd 17 example_dev example_mem 0 example_raw]
        flush_stamps_crc_then_writes_then_cleans
          [of "example_pd\<lparr>is_dirty := False\<rparr>" 17 example_dev example_mem 0 example_raw]
  by (simp add: example_pd_def example_dev_def example_mem_def example_raw_def deref_def
      HAM_ENABLE_CRC32_def Let_def)
text \<open>
  Claim C8 states that the stamped digest differs for every two distinct page addresses.
  The seed is the address cast to \<open>uint32_t\<close>, so two addresses that are a multiple of
  \<open>2^32\<close> apart get the same digest for the same payload: here 4096 and
  \<open>4096 + 2^32\<close>.
\<close>

theorem flush_crc_same_for_addresses_4GiB_apart:
  "(4096 :: 64 word) \<noteq> 4294971392
   \<and> flushed_crc 17 example_dev (example_pd\<lparr>address := 4096\<rparr>) example_mem
     = Some (MurmurHash3_x86_32 [1, 2, 3, 4, 5, 6, 7] 7 4096)
   \<and> flushed_crc 17 example_dev (example_pd\<lparr>address := 4294971392\<rparr>) example_mem
     = Some (MurmurHash3_x86_32 [1, 2, 3, 4, 5, 6, 7] 7 4096)"
proof -
  have low: "(4294971392 :: 32 word) = 4096"
    by simp
  show ?thesis
    by (simp add: flushed_crc_def flush_def device_write_def Let_def deref_def crc_len_def
        example_pd_def example_dev_def example_mem_def example_raw_def HAM_ENABLE_CRC32_def low)
qed

text \<open>
  Claim C8, as amended: for the same payload, the digests stamped by \<open>flush\<close> under two page
  addresses are equal exactly when the two addresses agree in their low 32 bits; addresses
  that differ in their low 32 bits get different digests.
\<close>

theorem flush_crc_keyed_by_low_32_address_bits:
  assumes "is_dirty pd" and "config_flags dev AND HAM_ENABLE_CRC32 \<noteq> 0"
    and "\<not> is_without_header pd" and "raw_data pd = Some p"
    and "deref (buffers mem) p = Some raw"
  shows "(flushed_crc hsz dev (pd\<lparr>address := a\<rparr>) mem
            = flushed_crc hsz dev (pd\<lparr>address := b\<rparr>) mem)
         \<longleftrightarrow> (ucast a :: 32 word) = ucast b"
proof
  assume "flushed_crc hsz dev (pd\<lparr>address := a\<rparr>) mem
            = flushed_crc hsz dev (pd\<lparr>address := b\<rparr>) mem"
  then have "MurmurHash3_x86_32 (payload raw) (crc_len hsz (size_pd pd)) (ucast a)
      = MurmurHash3_x86_32 (payload raw) (crc_len hsz (size_pd pd)) (ucast b)"
    by (simp add: flushed_crc_eq [OF assms])
  then show "(ucast a :: 32 word) = ucast b"
    by (rule MurmurHash3_seed_inj)
next
  assume "(ucast a :: 32 word) = ucast b"
  then show "flushed_crc hsz dev (pd\<lparr>address := a\<rparr>) mem
            = flushed_crc hsz dev (pd\<lparr>address := b\<rparr>) mem"
    by (simp add: flushed_crc_eq [OF assms])
qed

theorem flush_crc_keyed_by_low_32_address_bits_witness:
  "is_dirty example_pd \<and> config_flags example_dev AND HAM_ENABLE_CRC32 \<noteq> 0
   \<and> \<not> is_without_header example_pd \<and> raw_data example_pd = Some 0
   \<and> deref (buffers example_mem) 0 = Some example_raw
   \<and> flushed_crc 17 example_dev (example_pd\<lparr>address := 4096\<rparr>) example_mem
       \<noteq> flushed_crc 17 example_dev (example_pd\<lparr>address := 8192\<rparr>) example_mem"
  using flush_crc_keyed_by_low_32_address_bits
          [of example_pd example_dev 0 example_mem example_raw 17 4096 8192]
  by (simp add: example_pd_def example_dev_def example_mem_def example_raw_def deref_def
      HAM_ENABLE_CRC32_def)
text \<open>
  Claim C9. On a page whose primary descriptor has a buffer, \<open>deep_copy_data\<close> returns the
  previously primary descriptor when that was a heap descriptor and the null pointer when
  it was the inline one; the new primary descriptor owns a new buffer, distinct from the
  old one, whose bytes are those of the page before the call, and they stay so whatever
  happens afterwards to the old descriptor and the old buffer (the shadow being discarded);
  the cached node proxy is gone after the call.
\<close>

theorem deep_copy_data_installs_identical_copy:
  assumes "get_datap page mem = Some old" and "raw_data old = Some src"
    and "deref (buffers mem) src = Some bytes"
  shows "let b = length (buffers mem);
             d = length (descriptors mem);
             page' = page\<lparr>m_datap := OnHeap d, m_node_proxy := None\<rparr>;
             mem' = mem\<lparr>buffers := buffers mem @ [Some bytes],
                        descriptors := descriptors mem @ [Some (old\<lparr>raw_data := Some b\<rparr>)]\<rparr>
         in deep_copy_data page mem =
              (Returned, (case m_datap page of Inline \<Rightarrow> None | OnHeap q \<Rightarrow> Some q), page', mem')
            \<and> page_bytes page mem = Some bytes
            \<and> page_bytes page' mem' = Some bytes
            \<and> b \<noteq> src
            \<and> m_node_proxy page' = None
            \<and> (\<forall>mem''. deref (buffers mem'') b = Some bytes
                  \<and> deref (descriptors mem'') d = Some (old\<lparr>raw_data := Some b\<rparr>)
                  \<longrightarrow> page_bytes page' mem'' = Some bytes)"
proof -
  from assms(3) have lt: "src < length (buffers mem)"
    by (simp add: deref_def split: if_splits)
  show ?thesis
    using assms lt
    by (simp add: Let_def deep_copy_data_def alloc_def page_bytes_def get_datap_def deref_def
        nth_append split: pd_ref.splits)
qed

theorem deep_copy_data_installs_identical_copy_witness:
  "get_datap example_page example_mem = Some example_pd
   \<and> raw_data example_pd = Some 0
   \<and> deref (buffers example_mem) 0 = Some example_raw
   \<and> deep_copy_data example_page example_mem =
       (Returned, None,
        example_page\<lparr>m_datap := OnHeap 0, m_node_proxy := None\<rparr>,
        \<lparr>buffers = [Some example_raw, Some example_raw],
         descriptors = [Some (example_pd\<lparr>raw_data := Some 1\<rparr>)],
         ms_page_count_flushed = 0\<rparr>)
   \<and> page_bytes (example_page\<lparr>m_datap := OnHeap 0, m_node_proxy := None\<rparr>)
        \<lparr>buffers = [None, Some example_raw],
         descriptors = [Some (example_pd\<lparr>raw_data := Some 1\<rparr>)],
         ms_page_count_flushed = 0\<rparr> = Some example_raw"
  using deep_copy_data_installs_identical_copy
          [of example_page example_mem example_pd 0 example_raw]
  by (simp add: example_page_def example_pd_def example_mem_def get_datap_def deref_def
      page_bytes_def Let_def)
section \<open>Properties of the erase code\<close>

subsection \<open>Reading the page store after a write\<close>

lemma get_node_set_node [simp]:
  "get_node (set_node db p n) q = (if q = p then n else get_node db q)"
  by (simp add: get_node_def set_node_def)

lemma get_key_set_key [simp]:
  "get_key (set_key db k v) k' = (if k' = k then v else get_key db k')"
  by (cases k; cases k') (auto simp add: get_key_def set_key_def)

lemma db_blobs_set_key [simp]: "db_blobs (set_key db k v) = db_blobs db"
  by (simp add: set_key_def set_node_def)

lemma db_blobs_set_node [simp]: "db_blobs (set_node db p n) = db_blobs db"
  by (simp add: set_node_def)

lemma db_pages_set_key_dirty [simp]:
  "page_dirty (db_pages (set_key db k v) p) = page_dirty (db_pages db p)"
  by (simp add: set_key_def set_node_def)

lemma db_error_set_key [simp]: "db_error (set_key db k v) = db_error db"
  by (simp add: set_key_def set_node_def)

lemma db_blobs_extkey_cache_remove [simp]: "db_blobs (extkey_cache_remove db b) = db_blobs db"
  by (simp add: extkey_cache_remove_def split: option.splits)

lemma db_error_extkey_cache_remove [simp]: "db_error (extkey_cache_remove db b) = db_error db"
  by (simp add: extkey_cache_remove_def split: option.splits)

lemma db_pages_extkey_cache_remove [simp]: "db_pages (extkey_cache_remove db b) = db_pages db"
  by (simp add: extkey_cache_remove_def split: option.splits)

lemma get_key_extkey_cache_remove [simp]: "get_key (extkey_cache_remove db b) k = get_key db k"
  by (simp add: get_key_def get_node_def)

lemma get_key_blobs_update [simp]: "get_key (db\<lparr>db_blobs := m\<rparr>) k = get_key db k"
  by (simp add: get_key_def get_node_def)

lemma get_node_page_set_dirty [simp]: "get_node (page_set_dirty db p) q = get_node db q"
  by (simp add: get_node_def page_set_dirty_def)

lemma get_node_page_set_type [simp]: "get_node (page_set_type db p t) q = get_node db q"
  by (simp add: get_node_def page_set_type_def)

lemma get_node_db_set_error [simp]: "get_node (db_set_error db e) q = get_node db q"
  by (simp add: get_node_def db_set_error_def)

lemma get_node_blobs_update [simp]: "get_node (db\<lparr>db_blobs := m\<rparr>) q = get_node db q"
  by (simp add: get_node_def)

lemma get_node_freed_update [simp]: "get_node (db\<lparr>db_freed := m\<rparr>) q = get_node db q"
  by (simp add: get_node_def)

lemma get_node_extkey_cache_remove [simp]: "get_node (extkey_cache_remove db b) q = get_node db q"
  by (simp add: get_node_def)

lemma get_node_snd_txn_free_page [simp]: "get_node (snd (txn_free_page env db p)) q = get_node db q"
  by (simp add: txn_free_page_def Let_def)

lemma get_node_snd_blob_free [simp]: "get_node (snd (blob_free env db b)) q = get_node db q"
  by (simp add: blob_free_def Let_def)

lemma get_node_blob_allocate [simp]:
  "get_node (fst (snd (blob_allocate env db d))) q = get_node db q"
  by (simp add: blob_allocate_def Let_def split: prod.splits)

text \<open>What \<open>my_copy_key\<close> leaves in the destination slot: the source key, with a new blob id
  in its tail when the source is extended and the blob could be copied.\<close>

lemma my_copy_key_node:
  "\<exists>t. \<forall>q. get_node (snd (my_copy_key env lhs rhs db)) q =
      (if q = fst lhs
       then (get_node db q)\<lparr>node_entries :=
               (node_entries (get_node db q))(snd lhs := (get_key db rhs)\<lparr>key_tail := t\<rparr>)\<rparr>
       else get_node db q)"
proof (cases "key_flags (get_key (set_key db lhs (get_key db rhs)) rhs) AND KEY_IS_EXTENDED \<noteq> 0
    \<and> fst (blob_read (set_key db lhs (get_key db rhs))
             (key_get_extended_rid (get_key (set_key db lhs (get_key db rhs)) rhs))) = 0
    \<and> fst (blob_allocate env (set_key db lhs (get_key db rhs))
             (snd (blob_read (set_key db lhs (get_key db rhs))
                (key_get_extended_rid (get_key (set_key db lhs (get_key db rhs)) rhs))))) = 0")
  case True
  then show ?thesis
    apply (intro exI [of _ "snd (snd (blob_allocate env (set_key db lhs (get_key db rhs))
             (snd (blob_read (set_key db lhs (get_key db rhs))
                (key_get_extended_rid (get_key (set_key db lhs (get_key db rhs)) rhs))))))"])
    apply (simp add: my_copy_key_def Let_def split_beta)
    apply (auto simp add: key_set_extended_rid_def set_key_def get_key_def fun_eq_iff)
    done
next
  case False
  then show ?thesis
    apply (intro exI [of _ "key_tail (get_key db rhs)"])
    apply (simp add: my_copy_key_def Let_def split_beta)
    apply (auto simp add: key_set_extended_rid_def set_key_def get_key_def fun_eq_iff)
    done
qed

lemma merge_append_separator_node:
  assumes "fst (merge_append_separator env page sibpage ancpage db) = 0"
  shows "\<exists>t. \<forall>q. get_node (snd (merge_append_separator env page sibpage ancpage db)) q =
      (if q = page \<and> \<not> btree_node_is_leaf db page
       then (get_node db page)\<lparr>
              node_count := word_of_int (btree_node_get_count db page + 1),
              node_entries := (node_entries (get_node db page))
                (btree_node_get_count db page :=
                   (get_key db (ancpage, snd (get_slot env db ancpage (key_of_slot db (sibpage, 0)))))
                     \<lparr>key_tail := t, key_ptr := btree_node_get_ptr_left db sibpage\<rparr>)\<rparr>
       else get_node db q)"
proof (cases "btree_node_is_leaf db page")
  case True
  then show ?thesis
    by (simp add: merge_append_separator_def)
next
  case False
  let ?slot = "snd (get_slot env db ancpage (key_of_slot db (sibpage, 0)))"
  let ?lhs = "(page, btree_node_get_count db page)"
  obtain t where t: "\<forall>q. get_node (snd (my_copy_key env ?lhs (ancpage, ?slot) db)) q =
      (if q = fst ?lhs
       then (get_node db q)\<lparr>node_entries :=
               (node_entries (get_node db q))(snd ?lhs := (get_key db (ancpage, ?slot))\<lparr>key_tail := t\<rparr>)\<rparr>
       else get_node db q)"
    using my_copy_key_node [of env ?lhs "(ancpage, ?slot)" db] by blast
  from assms False have g: "fst (get_slot env db ancpage (key_of_slot db (sibpage, 0))) = 0"
    by (simp add: merge_append_separator_def Let_def split_beta split: if_splits)
  from assms False g have c: "fst (my_copy_key env ?lhs (ancpage, ?slot) db) = 0"
    by (simp add: merge_append_separator_def Let_def split_beta split: if_splits)
  show ?thesis
    apply (rule exI [of _ t])
    using False g c t
    apply (simp add: merge_append_separator_def Let_def split_beta)
    apply (simp add: key_set_ptr_def btree_node_set_count_def btree_node_get_count_def
        btree_node_get_ptr_left_def set_key_def get_key_def)
    done
qed

lemma merge_update_links_node:
  "node_count (get_node (merge_update_links page sibpage db) q) = node_count (get_node db q)
   \<and> node_entries (get_node (merge_update_links page sibpage db) q) = node_entries (get_node db q)
   \<and> node_is_leaf (get_node (merge_update_links page sibpage db) q) = node_is_leaf (get_node db q)"
  by (simp add: merge_update_links_def Let_def btree_node_set_left_def btree_node_set_right_def
      db_fetch_page_def)

lemma uint_count_of_int:
  "0 \<le> x \<Longrightarrow> x < 65536 \<Longrightarrow> uint (word_of_int x :: 16 word) = x"
  by (simp add: uint_word_of_int take_bit_int_eq_self)

lemma count_nonneg [simp]: "0 \<le> btree_node_get_count db p"
  by (simp add: btree_node_get_count_def)

subsection \<open>The blocks of my_shift_pages\<close>

lemma get_node_set_key:
  "get_node (set_key db k v) q =
     (if q = fst k then (get_node db q)\<lparr>node_entries := (node_entries (get_node db q))(snd k := v)\<rparr>
      else get_node db q)"
  by (simp add: set_key_def)

lemma Let_frame: "R a \<Longrightarrow> (\<And>x. R x \<Longrightarrow> Q (f x)) \<Longrightarrow> Q (Let a f)"
  by simp

lemma get_node_my_replace_key_copy_other:
  assumes other: "q \<noteq> fst lhs"
  shows "get_node (snd (my_replace_key_copy env page lhs rhs flags db)) q = get_node db q"
proof -
  let ?R = "\<lambda>d. get_node d q = get_node db q"
  let ?Q = "\<lambda>r. get_node (snd r) q = get_node db q"
  have sk: "?R (set_key d lhs v)" if "?R d" for d v
    using other that by (simp add: get_node_set_key)
  have blob: "?Q (if key_flags (get_key d rhs) AND KEY_IS_EXTENDED \<noteq> 0 then
               let rhsblobid = key_get_extended_rid (get_key d rhs);
                   (st, record) = blob_read d rhsblobid
               in if st \<noteq> 0 then (st, d)
                  else
                    let (st, d, lhsblobid) = blob_allocate env d record
                    in if st \<noteq> 0 then (st, d)
                       else (0, key_set_extended_rid d lhs lhsblobid)
             else (0, d))" if "?R d" for d
    using other that
    by (simp add: Let_def split_beta key_set_extended_rid_def get_node_set_key)
  show ?thesis
    unfolding my_replace_key_copy_def
    apply (rule Let_frame [where R = ?R and Q = ?Q])
     apply (simp add: sk)
    apply (rule Let_frame [where R = ?R and Q = ?Q])
     apply (simp add: sk)
    apply (rule Let_frame [where R = ?R and Q = ?Q])
     apply (simp add: sk)
    apply (rule Let_frame [where R = ?Q and Q = ?Q])
     apply (erule blob)
    apply (simp add: split_beta Let_def sk)
    done
qed

lemma get_node_my_replace_key_other:
  "q \<noteq> page \<Longrightarrow> get_node (snd (my_replace_key env page slot rhs flags db)) q = get_node db q"
  by (simp add: my_replace_key_def Let_def split_beta get_node_my_replace_key_copy_other)

lemma move_keys_nothing: "n \<le> 0 \<Longrightarrow> move_keys dst d src s n = dst"
  by (auto simp add: move_keys_def fun_eq_iff)

lemma get_node_memmove_keys:
  "get_node (memmove_keys db lhs rhs n) q =
     (if q = fst lhs
      then (get_node db q)\<lparr>node_entries :=
             move_keys (node_entries (get_node db (fst lhs))) (snd lhs)
                       (node_entries (get_node db (fst rhs))) (snd rhs) n\<rparr>
      else get_node db q)"
  by (simp add: memmove_keys_def)

lemma move_keys_left_step:
  "move_keys (move_keys e 0 e 1 (int m)) (int m) (move_keys e 0 e 1 (int m)) (int m + 1) 1
     = move_keys e 0 e 1 (int (Suc m))"
  by (auto simp add: move_keys_def fun_eq_iff)

lemma fold_shift_left_node:
  "get_node (fold (\<lambda>i db. memmove_keys db (sib, int i) (sib, int i + 1) 1) [0..<m] db) q =
     (if q = sib
      then (get_node db sib)\<lparr>node_entries :=
             move_keys (node_entries (get_node db sib)) 0 (node_entries (get_node db sib)) 1 (int m)\<rparr>
      else get_node db q)"
proof (induction m arbitrary: q)
  case 0
  then show ?case by (simp add: move_keys_nothing)
next
  case (Suc m)
  show ?case
    by (simp only: upt_Suc_append [OF le0] fold_append fold_simps comp_apply
          get_node_memmove_keys Suc.IH fst_conv snd_conv)
       (simp add: move_keys_left_step)
qed

lemma move_keys_right_step:
  "move_keys (e(1 + int m := e (int m))) 1 (e(1 + int m := e (int m))) 0 (int m)
     = move_keys e 1 e 0 (1 + int m)"
  by (auto simp add: move_keys_def fun_eq_iff)

lemma move_keys_one: "move_keys e d e s 1 = e(d := e s)"
  by (auto simp add: move_keys_def fun_eq_iff)

lemma fold_shift_right_node:
  "get_node (fold (\<lambda>i db. memmove_keys db (sib, int i) (sib, int i - 1) 1) (rev [1..<Suc m]) db) q =
     (if q = sib
      then (get_node db sib)\<lparr>node_entries :=
             move_keys (node_entries (get_node db sib)) 1 (node_entries (get_node db sib)) 0 (int m)\<rparr>
      else get_node db q)"
proof (induction m arbitrary: db q)
  case 0
  then show ?case by (simp add: move_keys_nothing)
next
  case (Suc m)
  have r: "rev [1..<Suc (Suc m)] = Suc m # rev [1..<Suc m]"
    by simp
  show ?case
    by (simp only: r fold_simps Suc.IH get_node_memmove_keys fst_conv snd_conv)
       (simp add: move_keys_one move_keys_right_step)
qed

lemma count_bound [simp]: "btree_node_get_count db p < 65536"
  using uint_bounded [of "node_count (get_node db p)"]
  by (simp add: btree_node_get_count_def)

lemma loop_bound:
  assumes "1 \<le> s" and "s < 65536"
  shows "unat ((word_of_int s :: 32 word) - 1) = nat (s - 1)"
proof -
  have "(word_of_int s :: 32 word) - 1 = word_of_int (s - 1)"
    by simp
  moreover have "uint (word_of_int (s - 1) :: 32 word) = s - 1"
    unfolding uint_word_of_int_eq
    by (rule take_bit_int_eq_self) (use assms in simp_all)
  ultimately show ?thesis
    by (simp only: unat_eq_nat_uint)
qed

lemma get_node_shift_sibling_left:
  assumes "1 \<le> btree_node_get_count db sib"
  shows "get_node (shift_sibling_left db sib) q =
     (if q = sib
      then (get_node db sib)\<lparr>node_entries :=
             move_keys (node_entries (get_node db sib)) 0 (node_entries (get_node db sib)) 1
               (btree_node_get_count db sib - 1)\<rparr>
      else get_node db q)"
  using assms
  by (simp add: shift_sibling_left_def fold_shift_left_node loop_bound)

lemma get_node_shift_sibling_right:
  "get_node (shift_sibling_right db sib) q =
     (if q = sib
      then (get_node db sib)\<lparr>node_entries :=
             move_keys (node_entries (get_node db sib)) 1 (node_entries (get_node db sib)) 0
               (btree_node_get_count db sib)\<rparr>
      else get_node db q)"
  by (simp only: shift_sibling_right_def fold_shift_right_node) simp

lemma my_replace_key_copy_node:
  "\<exists>k. \<forall>q. get_node (snd (my_replace_key_copy env page lhs rhs flags db)) q =
     (if q = fst lhs
      then (get_node db q)\<lparr>node_entries := (node_entries (get_node db q))(snd lhs := k)\<rparr>
      else get_node db q)"
proof -
  let ?R = "\<lambda>d. \<exists>k. \<forall>q. get_node d q =
     (if q = fst lhs
      then (get_node db q)\<lparr>node_entries := (node_entries (get_node db q))(snd lhs := k)\<rparr>
      else get_node db q)"
  let ?Q = "\<lambda>r. ?R (snd r)"
  have start: "?R db"
    by (rule exI [of _ "node_entries (get_node db (fst lhs)) (snd lhs)"]) simp
  have sk: "?R (set_key d lhs v)" if "?R d" for d v
  proof -
    from that obtain k where "\<forall>q. get_node d q =
     (if q = fst lhs
      then (get_node db q)\<lparr>node_entries := (node_entries (get_node db q))(snd lhs := k)\<rparr>
      else get_node db q)" by blast
    then show ?thesis
      by (intro exI [of _ v]) (simp add: get_node_set_key)
  qed
  have same: "?R d'" if "?R d" and "\<forall>q. get_node d' q = get_node d q" for d d'
    using that by simp
  have blob: "?Q (if key_flags (get_key d rhs) AND KEY_IS_EXTENDED \<noteq> 0 then
               let rhsblobid = key_get_extended_rid (get_key d rhs);
                   (st, record) = blob_read d rhsblobid
               in if st \<noteq> 0 then (st, d)
                  else
                    let (st, d, lhsblobid) = blob_allocate env d record
                    in if st \<noteq> 0 then (st, d)
                       else (0, key_set_extended_rid d lhs lhsblobid)
             else (0, d))" if r: "?R d" for d
  proof -
    have a: "?R (fst (snd (blob_allocate env d x)))" for x
      by (rule same [OF r]) simp
    show ?thesis
      using r a
      by (simp add: Let_def split_beta key_set_extended_rid_def sk)
  qed
  have dirty: "?R (page_set_dirty d p)" if "?R d" for d p
    by (rule same [OF that]) simp
  show ?thesis
    unfolding my_replace_key_copy_def
    apply (rule Let_frame [where R = ?R and Q = ?Q])
     apply (rule sk [OF start])
    apply (rule Let_frame [where R = ?R and Q = ?Q])
     apply (erule sk)
    apply (rule Let_frame [where R = ?R and Q = ?Q])
     apply (simp add: sk)
    apply (rule Let_frame [where R = ?Q and Q = ?Q])
     apply (erule blob)
    apply (simp add: split_beta Let_def sk dirty del: split_paired_Ex)
    done
qed

lemma my_replace_key_node:
  "\<exists>k. \<forall>q. get_node (snd (my_replace_key env page slot rhs flags db)) q =
     (if q = page
      then (get_node db q)\<lparr>node_entries := (node_entries (get_node db q))(slot := k)\<rparr>
      else get_node db q)"
proof -
  have triv: "\<exists>k. \<forall>q. get_node db q =
     (if q = page
      then (get_node db q)\<lparr>node_entries := (node_entries (get_node db q))(slot := k)\<rparr>
      else get_node db q)"
    by (rule exI [of _ "node_entries (get_node db page) slot"]) simp
  have c1: "\<exists>k. \<forall>q. get_node (snd (my_replace_key_copy env page (page, slot) rhs flags d)) q =
     (if q = page
      then (get_node db q)\<lparr>node_entries := (node_entries (get_node db q))(slot := k)\<rparr>
      else get_node db q)" if "\<forall>q. get_node d q = get_node db q" for d
  proof -
    obtain k where "\<forall>q. get_node (snd (my_replace_key_copy env page (page, slot) rhs flags d)) q =
       (if q = fst (page, slot)
        then (get_node d q)\<lparr>node_entries := (node_entries (get_node d q))(snd (page, slot) := k)\<rparr>
        else get_node d q)"
      using my_replace_key_copy_node [of env page "(page, slot)" rhs flags d] by blast
    then show ?thesis
      using that by (intro exI [of _ k]) simp
  qed
  show ?thesis
    using triv
    by (simp add: my_replace_key_def Let_def split_beta c1)
qed

lemma count_of_node: "get_node d p = N \<Longrightarrow> btree_node_get_count d p = uint (node_count N)"
  by (simp add: btree_node_get_count_def)

lemma from_sibling_rotate_nodes:
  assumes ret: "from_sibling_rotate env page sib anc db = Inr (slot, db1)"
    and dist: "page \<noteq> sib" "anc \<noteq> page" "anc \<noteq> sib"
    and one: "1 \<le> btree_node_get_count db sib"
  shows "(\<exists>k. get_node db1 page = (get_node db page)\<lparr>
              node_count := word_of_int (btree_node_get_count db page + 1),
              node_entries := (node_entries (get_node db page))(btree_node_get_count db page := k)\<rparr>)
       \<and> get_node db1 sib = (get_node db sib)\<lparr>
              node_count := word_of_int (btree_node_get_count db sib - 1),
              node_ptr_left := key_ptr (node_entries (get_node db sib) 0),
              node_entries := move_keys (node_entries (get_node db sib)) 0
                                (node_entries (get_node db sib)) 1
                                (btree_node_get_count db sib - 1)\<rparr>"
proof -
  define n where "n = btree_node_get_count db page"
  define s where "s = btree_node_get_count db sib"
  define slt where "slt = snd (get_slot env db anc (key_of_slot db (sib, 0)))"
  define d2 where "d2 = snd (my_copy_key env (page, n) (anc, slt) db)"
  define d3 where "d3 = key_set_ptr d2 (page, n) (btree_node_get_ptr_left d2 sib)"
  define d4 where "d4 = btree_node_set_ptr_left d3 sib (key_ptr (get_key d3 (sib, 0)))"
  define d5 where "d5 = snd (my_replace_key env anc slt (sib, 0) INTERNAL_KEY d4)"
  define d6 where "d6 = shift_sibling_left d5 sib"
  define d7 where "d7 = btree_node_set_count d6 page (btree_node_get_count d6 page + 1)"
  from ret have db1: "db1 = btree_node_set_count d7 sib (btree_node_get_count d7 sib - 1)"
    unfolding d7_def d6_def d5_def d4_def d3_def d2_def slt_def n_def
    by (auto simp add: from_sibling_rotate_def Let_def split_beta split: if_splits)
  obtain t where d2: "\<forall>q. get_node d2 q =
      (if q = page
       then (get_node db q)\<lparr>node_entries :=
               (node_entries (get_node db q))(n := (get_key db (anc, slt))\<lparr>key_tail := t\<rparr>)\<rparr>
       else get_node db q)"
    using my_copy_key_node [of env "(page, n)" "(anc, slt)" db] unfolding d2_def by auto
  define k where "k = (get_key db (anc, slt))\<lparr>key_tail := t, key_ptr := btree_node_get_ptr_left db sib\<rparr>"
  have d4p: "get_node d4 page = (get_node db page)\<lparr>node_entries :=
       (node_entries (get_node db page))(n := k)\<rparr>"
    using dist d2
    by (simp add: d4_def d3_def k_def btree_node_set_ptr_left_def key_set_ptr_def get_node_set_key
        get_key_def btree_node_get_ptr_left_def)
  have d4s: "get_node d4 sib = (get_node db sib)\<lparr>
       node_ptr_left := key_ptr (node_entries (get_node db sib) 0)\<rparr>"
    using dist d2
    by (simp add: d4_def d3_def btree_node_set_ptr_left_def key_set_ptr_def get_node_set_key
        get_key_def btree_node_get_ptr_left_def)
  have d5: "get_node d5 q = get_node d4 q" if "q \<noteq> anc" for q
    unfolding d5_def using that by (rule get_node_my_replace_key_other)
  have c5: "btree_node_get_count d5 sib = s"
    using dist by (simp add: btree_node_get_count_def d5 d4s s_def)
  have d6p: "get_node d6 page = get_node d4 page"
    using dist one by (simp add: d6_def get_node_shift_sibling_left c5 d5 s_def)
  have d6s: "get_node d6 sib = (get_node db sib)\<lparr>
       node_ptr_left := key_ptr (node_entries (get_node db sib) 0),
       node_entries := move_keys (node_entries (get_node db sib)) 0
                                (node_entries (get_node db sib)) 1 (s - 1)\<rparr>"
    using dist one by (simp add: d6_def get_node_shift_sibling_left c5 d5 d4s s_def)
  have "get_node db1 page = (get_node db page)\<lparr>
              node_count := word_of_int (n + 1),
              node_entries := (node_entries (get_node db page))(n := k)\<rparr>"
    using dist
    by (simp add: db1 d7_def btree_node_set_count_def btree_node_get_count_def d6p d4p n_def)
  moreover have "get_node db1 sib = (get_node db sib)\<lparr>
              node_count := word_of_int (s - 1),
              node_ptr_left := key_ptr (node_entries (get_node db sib) 0),
              node_entries := move_keys (node_entries (get_node db sib)) 0
                                (node_entries (get_node db sib)) 1 (s - 1)\<rparr>"
    using dist
    by (simp add: db1 d7_def btree_node_set_count_def btree_node_get_count_def d6s s_def)
  ultimately show ?thesis
    unfolding n_def s_def by blast
qed

lemma from_sibling_append_anchor_nodes:
  assumes ret: "from_sibling_append_anchor env page sib anc slot db = Inr db1"
    and dist: "page \<noteq> sib"
  shows "(\<exists>k. get_node db1 page = (get_node db page)\<lparr>
              node_count := word_of_int (btree_node_get_count db page + 1),
              node_entries := (node_entries (get_node db page))(btree_node_get_count db page := k)\<rparr>)
       \<and> get_node db1 sib = get_node db sib"
proof -
  define n where "n = btree_node_get_count db page"
  define d2 where "d2 = snd (my_copy_key env (page, n) (anc, slot) db)"
  define d3 where "d3 = key_set_ptr d2 (page, n) (btree_node_get_ptr_left d2 sib)"
  from ret have db1: "db1 = btree_node_set_count d3 page (btree_node_get_count d3 page + 1)"
    unfolding d3_def d2_def n_def
    by (auto simp add: from_sibling_append_anchor_def Let_def split_beta split: if_splits)
  obtain t where d2: "\<forall>q. get_node d2 q =
      (if q = page
       then (get_node db q)\<lparr>node_entries :=
               (node_entries (get_node db q))(n := (get_key db (anc, slot))\<lparr>key_tail := t\<rparr>)\<rparr>
       else get_node db q)"
    using my_copy_key_node [of env "(page, n)" "(anc, slot)" db] unfolding d2_def by auto
  define k where "k = (get_key db (anc, slot))\<lparr>key_tail := t, key_ptr := btree_node_get_ptr_left db sib\<rparr>"
  have "get_node db1 page = (get_node db page)\<lparr>
              node_count := word_of_int (n + 1),
              node_entries := (node_entries (get_node db page))(n := k)\<rparr>"
    using dist d2
    by (simp add: db1 d3_def k_def btree_node_set_count_def btree_node_get_count_def
        key_set_ptr_def get_node_set_key get_key_def btree_node_get_ptr_left_def n_def)
  moreover have "get_node db1 sib = get_node db sib"
    using dist d2
    by (simp add: db1 d3_def btree_node_set_count_def key_set_ptr_def get_node_set_key)
  ultimately show ?thesis
    unfolding n_def by blast
qed

lemma from_sibling_move_nodes:
  assumes dist: "page \<noteq> sib"
  shows "get_node (from_sibling_move page sib c db) page = (get_node db page)\<lparr>
            node_entries := move_keys (node_entries (get_node db page)) (btree_node_get_count db page)
                              (node_entries (get_node db sib)) 0 c\<rparr>"
    and "get_node (from_sibling_move page sib c db) sib = (get_node db sib)\<lparr>
            node_entries := move_keys (node_entries (get_node db sib)) 0
                              (node_entries (get_node db sib)) c
                              (btree_node_get_count db sib - c)\<rparr>"
    and "q \<noteq> page \<Longrightarrow> q \<noteq> sib \<Longrightarrow> get_node (from_sibling_move page sib c db) q = get_node db q"
  using dist
  by (simp_all add: from_sibling_move_def Let_def get_node_memmove_keys btree_node_get_count_def)

lemma from_sibling_update_anchor_nodes:
  assumes ret: "from_sibling_update_anchor env intern sib anchor anc db = Inr db1"
    and dist: "page \<noteq> sib" "anc \<noteq> page" "anc \<noteq> sib"
  shows "get_node db1 page = get_node db page"
    and "get_node db1 sib =
           (if intern
            then (get_node db sib)\<lparr>
                   node_ptr_left := key_ptr (node_entries (get_node db sib) 0),
                   node_entries := move_keys (node_entries (get_node db sib)) 0
                                     (node_entries (get_node db sib)) 1
                                     (btree_node_get_count db sib - 1)\<rparr>
            else get_node db sib)"
proof -
  define d1 where "d1 = btree_node_set_ptr_left db sib (key_ptr (get_key db (sib, 0)))"
  define slt where "slt = snd (get_slot env d1 anc (key_of_slot d1 (sib, 0)))"
  define d2 where "d2 = (if anchor \<noteq> 0
      then snd (my_replace_key env anc slt (sib, 0) INTERNAL_KEY d1) else d1)"
  define lslt where "lslt = snd (get_slot env db anc (key_of_slot db (sib, 0)))"
  have d1p: "get_node d1 page = get_node db page"
    using dist by (simp add: d1_def btree_node_set_ptr_left_def)
  have d1s: "get_node d1 sib = (get_node db sib)\<lparr>
       node_ptr_left := key_ptr (node_entries (get_node db sib) 0)\<rparr>"
    by (simp add: d1_def btree_node_set_ptr_left_def get_key_def)
  have d2q: "get_node d2 q = get_node d1 q" if "q \<noteq> anc" for q
    using that by (simp add: d2_def get_node_my_replace_key_other)
  have db1: "db1 = (if intern
      then memmove_keys d2 (sib, 0) (sib, 1) (btree_node_get_count d2 sib - 1)
      else snd (my_replace_key env anc lslt (sib, 0) INTERNAL_KEY db))"
    using ret unfolding d2_def slt_def d1_def lslt_def
    by (auto simp add: from_sibling_update_anchor_def Let_def split_beta
        split: if_splits sum.splits)
  show "get_node db1 page = get_node db page"
    using dist
    by (simp add: db1 get_node_memmove_keys d2q d1p get_node_my_replace_key_other)
  show "get_node db1 sib =
           (if intern
            then (get_node db sib)\<lparr>
                   node_ptr_left := key_ptr (node_entries (get_node db sib) 0),
                   node_entries := move_keys (node_entries (get_node db sib)) 0
                                     (node_entries (get_node db sib)) 1
                                     (btree_node_get_count db sib - 1)\<rparr>
            else get_node db sib)"
    using dist
    by (simp add: db1 get_node_memmove_keys d2q d1s get_node_my_replace_key_other
        btree_node_get_count_def)
qed

lemma c_div_nonneg: "0 \<le> a \<Longrightarrow> c_div a 2 = a div 2"
  by (cases "a = 0") (simp_all add: c_div_def)

lemma c_div_minus_one: "c_div (- 1) 2 = 0"
  by (simp add: c_div_def)

lemma move_keys_self: "move_keys e d e d n = e"
  by (auto simp add: move_keys_def fun_eq_iff)

lemma node_count_self: "word_of_int (btree_node_get_count db p) = node_count (get_node db p)"
  by (simp add: btree_node_get_count_def)

lemma shift_cleanup_dirty:
  assumes "shift_cleanup page anc sib scratchpad x = (r, scratchpad', db')"
  shows "r = 0" and "scratchpad' = scratchpad\<lparr>mergepage := 0\<rparr>"
    and "page_dirty (db_pages db' page)" and "page_dirty (db_pages db' anc)"
    and "page_dirty (db_pages db' sib)" and "get_node db' q = get_node x q"
  using assms
  by (auto simp add: shift_cleanup_def Let_def page_set_dirty_def get_node_def)

lemma shift_from_sibling_leaf:
  assumes ret: "shift_from_sibling env False page sib anchor anc scratchpad db = (r, scratchpad', db')"
    and ran: "mergepage scratchpad \<noteq> 0" "mergepage scratchpad' = 0"
    and dist: "page \<noteq> sib" "anc \<noteq> page" "anc \<noteq> sib"
    and gt: "btree_node_get_count db page < btree_node_get_count db sib"
  shows "r = 0 \<and> scratchpad' = scratchpad\<lparr>mergepage := 0\<rparr>
    \<and> page_dirty (db_pages db' page) \<and> page_dirty (db_pages db' anc)
    \<and> page_dirty (db_pages db' sib)
    \<and> get_node db' page = (get_node db page)\<lparr>
          node_count := word_of_int (btree_node_get_count db page
             + (btree_node_get_count db sib - btree_node_get_count db page) div 2),
          node_entries := move_keys (node_entries (get_node db page)) (btree_node_get_count db page)
             (node_entries (get_node db sib)) 0
             ((btree_node_get_count db sib - btree_node_get_count db page) div 2)\<rparr>
    \<and> get_node db' sib = (get_node db sib)\<lparr>
          node_count := word_of_int (btree_node_get_count db sib
             - (btree_node_get_count db sib - btree_node_get_count db page) div 2),
          node_entries := move_keys (node_entries (get_node db sib)) 0
             (node_entries (get_node db sib))
             ((btree_node_get_count db sib - btree_node_get_count db page) div 2)
             (btree_node_get_count db sib
                - (btree_node_get_count db sib - btree_node_get_count db page) div 2)\<rparr>"
proof -
  define n where "n = btree_node_get_count db page"
  define s where "s = btree_node_get_count db sib"
  define c where "c = (s - n) div 2"
  have cd: "c_div (s - n) 2 = c"
    using gt unfolding c_def n_def s_def by (intro c_div_nonneg) simp
  show ?thesis
  proof (cases "c = 0")
    case True
    with ret cd have cl: "shift_cleanup page anc sib scratchpad db = (r, scratchpad', db')"
      by (simp add: shift_from_sibling_def Let_def n_def s_def)
    from True show ?thesis
      using shift_cleanup_dirty [OF cl]
      unfolding c_def n_def s_def
      by (simp add: move_keys_nothing move_keys_self node_count_self)
  next
    case False
    define dm where "dm = from_sibling_move page sib c db"
    from ret cd False ran obtain d2 where
      upd: "from_sibling_update_anchor env False sib anchor anc dm = Inr d2"
      and cl: "shift_cleanup page anc sib scratchpad
         (btree_node_set_count
            (btree_node_set_count d2 page (btree_node_get_count d2 page + c))
            sib
            (btree_node_get_count (btree_node_set_count d2 page (btree_node_get_count d2 page + c))
               sib - c)) = (r, scratchpad', db')"
      unfolding dm_def
      by (auto simp add: shift_from_sibling_def Let_def n_def s_def split: sum.splits)
    have d2p: "get_node d2 page = get_node dm page" and d2s: "get_node d2 sib = get_node dm sib"
      using from_sibling_update_anchor_nodes [OF upd dist] by simp_all
    have dmp: "get_node dm page = (get_node db page)\<lparr>
            node_entries := move_keys (node_entries (get_node db page)) n
                              (node_entries (get_node db sib)) 0 c\<rparr>"
      and dms: "get_node dm sib = (get_node db sib)\<lparr>
            node_entries := move_keys (node_entries (get_node db sib)) 0
                              (node_entries (get_node db sib)) c (s - c)\<rparr>"
      unfolding dm_def n_def s_def using from_sibling_move_nodes [OF dist(1)] by simp_all
    have wn: "(word_of_int n :: 16 word) = node_count (get_node db page)"
      and ws: "(word_of_int s :: 16 word) = node_count (get_node db sib)"
      by (simp_all add: n_def s_def node_count_self)
    show ?thesis
      using shift_cleanup_dirty [OF cl] dist
      unfolding c_def [symmetric] n_def [symmetric] s_def [symmetric]
      by (simp add: btree_node_set_count_def btree_node_get_count_def d2p d2s dmp dms wn ws
          flip: n_def s_def)
  qed
qed

lemma c_div_small: "- 1 \<le> a \<Longrightarrow> a < 2 \<Longrightarrow> c_div a 2 = 0"
  by (cases "a = - 1"; cases "a = 0"; cases "a = 1") (simp_all add: c_div_def)

lemma c_div_nonzero:
  assumes "- 1 \<le> a" and "c_div a 2 \<noteq> 0"
  shows "2 \<le> a \<and> c_div a 2 = a div 2 \<and> 1 \<le> a div 2"
proof -
  from assms have "2 \<le> a"
    using c_div_small [of a] by (cases "a < 2") simp_all
  then show ?thesis
    using c_div_nonneg [of a] by simp
qed

lemma uint16_of_int: "0 \<le> x \<Longrightarrow> x < 65536 \<Longrightarrow> uint (word_of_int x :: 16 word) = x"
  unfolding uint_word_of_int_eq by (rule take_bit_int_eq_self) simp_all

lemma shift_from_sibling_intern:
  assumes ret: "shift_from_sibling env True page sib anchor anc scratchpad db = (r, scratchpad', db')"
    and ran: "mergepage scratchpad \<noteq> 0" "mergepage scratchpad' = 0"
    and dist: "page \<noteq> sib" "anc \<noteq> page" "anc \<noteq> sib"
    and gt: "btree_node_get_count db page < btree_node_get_count db sib"
  shows "r = 0 \<and> scratchpad' = scratchpad\<lparr>mergepage := 0\<rparr>
    \<and> page_dirty (db_pages db' page) \<and> page_dirty (db_pages db' anc)
    \<and> page_dirty (db_pages db' sib)
    \<and> btree_node_get_count db' page = btree_node_get_count db page + 1
          + c_div (btree_node_get_count db sib - btree_node_get_count db page - 2) 2
    \<and> btree_node_get_count db' sib = btree_node_get_count db sib - 1
          - c_div (btree_node_get_count db sib - btree_node_get_count db page - 2) 2
    \<and> (\<forall>i. 0 \<le> i
           \<and> i < c_div (btree_node_get_count db sib - btree_node_get_count db page - 2) 2 - 1
          \<longrightarrow> get_key db' (page, btree_node_get_count db page + 2 + i) = get_key db (sib, 1 + i))
    \<and> (\<forall>i. 0 \<le> i \<and> i < btree_node_get_count db page
          \<longrightarrow> get_key db' (page, i) = get_key db (page, i))
    \<and> (\<forall>i. 0 \<le> i \<and> i < btree_node_get_count db sib - 1
             - c_div (btree_node_get_count db sib - btree_node_get_count db page - 2) 2
          \<longrightarrow> get_key db' (sib, i)
              = get_key db (sib, i + c_div (btree_node_get_count db sib
                                             - btree_node_get_count db page - 2) 2 + 1))"
proof -
  define n where "n = btree_node_get_count db page"
  define s where "s = btree_node_get_count db sib"
  define c where "c = c_div (s - n - 2) 2"
  have bounds: "0 \<le> n" "n < s" "s < 65536"
    using gt by (simp_all add: n_def s_def)
  from ret ran obtain slot d1 where rot: "from_sibling_rotate env page sib anc db = Inr (slot, d1)"
    by (cases "from_sibling_rotate env page sib anc db")
       (auto simp add: shift_from_sibling_def)
  have one: "1 \<le> btree_node_get_count db sib"
    using bounds by (simp add: s_def)
  obtain k1 where d1p: "get_node d1 page = (get_node db page)\<lparr>
              node_count := word_of_int (n + 1),
              node_entries := (node_entries (get_node db page))(n := k1)\<rparr>"
    and d1s: "get_node d1 sib = (get_node db sib)\<lparr>
              node_count := word_of_int (s - 1),
              node_ptr_left := key_ptr (node_entries (get_node db sib) 0),
              node_entries := move_keys (node_entries (get_node db sib)) 0
                                (node_entries (get_node db sib)) 1 (s - 1)\<rparr>"
    using from_sibling_rotate_nodes [OF rot dist one] unfolding n_def s_def by blast
  have n1: "btree_node_get_count d1 page = n + 1"
    using bounds by (simp add: count_of_node [OF d1p] uint16_of_int del: of_int_add of_int_diff)
  have s1: "btree_node_get_count d1 sib = s - 1"
    using bounds by (simp add: count_of_node [OF d1s] uint16_of_int del: of_int_add of_int_diff)
  have cd: "c_div (btree_node_get_count d1 sib - btree_node_get_count d1 page) 2 = c"
    by (simp add: n1 s1 c_def algebra_simps)
  have range: "- 1 \<le> s - n - 2"
    using bounds by simp
  show ?thesis
  proof (cases "c = 0")
    case True
    with ret rot cd have cl: "shift_cleanup page anc sib scratchpad d1 = (r, scratchpad', db')"
      by (simp add: shift_from_sibling_def Let_def)
    have fp: "get_node db' page = get_node d1 page" and fs: "get_node db' sib = get_node d1 sib"
      using shift_cleanup_dirty(6) [OF cl] by simp_all
    have "btree_node_get_count db' page = n + 1 + c"
      using True n1 by (simp add: btree_node_get_count_def fp)
    moreover have "btree_node_get_count db' sib = s - 1 - c"
      using True s1 by (simp add: btree_node_get_count_def fs)
    moreover have "\<forall>i. 0 \<le> i \<and> i < n \<longrightarrow> get_key db' (page, i) = get_key db (page, i)"
      by (simp add: get_key_def fp d1p)
    moreover have "\<forall>i. 0 \<le> i \<and> i < s - 1 - c
          \<longrightarrow> get_key db' (sib, i) = get_key db (sib, i + c + 1)"
      using True by (simp add: get_key_def fs d1s move_keys_def add.commute)
    ultimately show ?thesis
      using shift_cleanup_dirty(1-5) [OF cl] True
      unfolding c_def n_def s_def by auto
  next
    case False
    from c_div_nonzero [OF range] False have big: "2 \<le> s - n - 2" and c1: "1 \<le> c"
      and cv: "c = (s - n - 2) div 2"
      by (simp_all add: c_def)
    from ret rot cd False ran obtain d2 where
      app: "from_sibling_append_anchor env page sib anc slot d1 = Inr d2"
      by (cases "from_sibling_append_anchor env page sib anc slot d1")
         (auto simp add: shift_from_sibling_def Let_def)
    define dm where "dm = from_sibling_move page sib (c - 1) d2"
    from ret rot cd False ran app obtain d3 where
      upd: "from_sibling_update_anchor env True sib anchor anc dm = Inr d3"
      unfolding dm_def
      by (cases "from_sibling_update_anchor env True sib anchor anc
                   (from_sibling_move page sib (c - 1) d2)")
         (auto simp add: shift_from_sibling_def Let_def)
    define d4 where "d4 = btree_node_set_count d3 page (btree_node_get_count d3 page + (c - 1))"
    define d5 where "d5 = btree_node_set_count d4 sib (btree_node_get_count d4 sib - (c - 1) - 1)"
    from ret rot cd False app upd
    have cl: "shift_cleanup page anc sib scratchpad d5 = (r, scratchpad', db')"
      unfolding d5_def d4_def dm_def
      by (simp add: shift_from_sibling_def Let_def dm_def [symmetric])
    obtain k2 where d2p: "get_node d2 page = (get_node d1 page)\<lparr>
              node_count := word_of_int (n + 1 + 1),
              node_entries := (node_entries (get_node d1 page))(n + 1 := k2)\<rparr>"
      and d2s: "get_node d2 sib = get_node d1 sib"
      using from_sibling_append_anchor_nodes [OF app dist(1)] unfolding n1 by blast
    have n2: "btree_node_get_count d2 page = n + 2"
      using bounds big by (simp add: count_of_node [OF d2p] uint16_of_int del: of_int_add of_int_diff)
    have s2: "btree_node_get_count d2 sib = s - 1"
      using s1 by (simp add: btree_node_get_count_def d2s)
    have dmp: "get_node dm page = (get_node d2 page)\<lparr>
            node_entries := move_keys (node_entries (get_node d2 page)) (n + 2)
                              (node_entries (get_node d2 sib)) 0 (c - 1)\<rparr>"
      and dms: "get_node dm sib = (get_node d2 sib)\<lparr>
            node_entries := move_keys (node_entries (get_node d2 sib)) 0
                              (node_entries (get_node d2 sib)) (c - 1) (s - 1 - (c - 1))\<rparr>"
      unfolding dm_def using from_sibling_move_nodes [OF dist(1), where c = "c - 1" and db = d2]
      by (simp_all add: n2 s2)
    have sm: "btree_node_get_count dm sib = s - 1"
      using s2 by (simp add: btree_node_get_count_def dms)
    have d3p: "get_node d3 page = get_node dm page"
      and d3s: "get_node d3 sib = (get_node dm sib)\<lparr>
                   node_ptr_left := key_ptr (node_entries (get_node dm sib) 0),
                   node_entries := move_keys (node_entries (get_node dm sib)) 0
                                     (node_entries (get_node dm sib)) 1 (s - 1 - 1)\<rparr>"
      using from_sibling_update_anchor_nodes [OF upd dist] by (simp_all add: sm)
    have n3: "btree_node_get_count d3 page = n + 2"
      using n2 by (simp add: btree_node_get_count_def d3p dmp)
    have s3: "btree_node_get_count d3 sib = s - 1"
      using sm by (simp add: btree_node_get_count_def d3s)
    have fp: "get_node db' page = (get_node d3 page)\<lparr>node_count := word_of_int (n + 2 + (c - 1))\<rparr>"
      using shift_cleanup_dirty(6) [OF cl, of page] dist
      by (simp add: d5_def d4_def btree_node_set_count_def n3)
    have fs: "get_node db' sib = (get_node d3 sib)\<lparr>node_count := word_of_int (s - 1 - (c - 1) - 1)\<rparr>"
      using shift_cleanup_dirty(6) [OF cl, of sib] dist
      by (simp add: d5_def d4_def btree_node_set_count_def btree_node_get_count_def [of _ sib]
          s3 [unfolded btree_node_get_count_def])
    have "btree_node_get_count db' page = n + 1 + c"
      using bounds big cv by (simp add: count_of_node [OF fp] uint16_of_int del: of_int_add of_int_diff)
    moreover have "btree_node_get_count db' sib = s - 1 - c"
      using bounds big cv by (simp add: count_of_node [OF fs] uint16_of_int del: of_int_add of_int_diff)
    moreover have "\<forall>i. 0 \<le> i \<and> i < c - 1
          \<longrightarrow> get_key db' (page, n + 2 + i) = get_key db (sib, 1 + i)"
      using bounds big cv
      by (auto simp add: get_key_def fp d3p dmp d2p d2s d1p d1s move_keys_def)
    moreover have "\<forall>i. 0 \<le> i \<and> i < n \<longrightarrow> get_key db' (page, i) = get_key db (page, i)"
      by (auto simp add: get_key_def fp d3p dmp d2p d1p move_keys_def)
    moreover have "\<forall>i. 0 \<le> i \<and> i < s - 1 - c
          \<longrightarrow> get_key db' (sib, i) = get_key db (sib, i + c + 1)"
      using bounds big cv
      by (auto simp add: get_key_def fs d3s dms d2s d1s move_keys_def algebra_simps)
    ultimately show ?thesis
      using shift_cleanup_dirty(1-5) [OF cl]
      unfolding c_def n_def s_def by simp
  qed
qed

lemma to_sibling_rotate_nodes:
  assumes ret: "to_sibling_rotate env page sib anc db = Inr (slot, db1)"
    and dist: "page \<noteq> sib" "anc \<noteq> page" "anc \<noteq> sib"
  shows "get_node db1 page = (get_node db page)\<lparr>
              node_count := word_of_int (btree_node_get_count db page - 1)\<rparr>
       \<and> (\<exists>k. get_node db1 sib = (get_node db sib)\<lparr>
              node_count := word_of_int (btree_node_get_count db sib + 1),
              node_ptr_left := key_ptr (node_entries (get_node db page)
                                          (btree_node_get_count db page - 1)),
              node_entries := (move_keys (node_entries (get_node db sib)) 1
                                (node_entries (get_node db sib)) 0
                                (btree_node_get_count db sib))(0 := k)\<rparr>)"
proof -
  define n where "n = btree_node_get_count db page"
  define s where "s = btree_node_get_count db sib"
  define slt where "slt = snd (get_slot env db anc (key_of_slot db (sib, 0)))"
  define dA where "dA = shift_sibling_right db sib"
  define dB where "dB = snd (my_copy_key env (sib, 0) (anc, slt) dA)"
  define dC where "dC = key_set_ptr dB (sib, 0) (btree_node_get_ptr_left dB sib)"
  define dD where "dD = btree_node_set_ptr_left dC sib
      (key_ptr (get_key dC (page, btree_node_get_count dC page - 1)))"
  define dE where "dE = snd (my_replace_key env anc slt (page, btree_node_get_count dC page - 1)
      (NOFLUSH OR INTERNAL_KEY) dD)"
  define dF where "dF = btree_node_set_count dE page (btree_node_get_count dE page - 1)"
  from ret have db1: "db1 = btree_node_set_count dF sib (btree_node_get_count dF sib + 1)"
    unfolding dF_def dE_def dD_def dC_def dB_def dA_def slt_def
    by (auto simp add: to_sibling_rotate_def Let_def split_beta split: if_splits)
  have dAp: "get_node dA page = get_node db page"
    and dAs: "get_node dA sib = (get_node db sib)\<lparr>node_entries :=
             move_keys (node_entries (get_node db sib)) 1 (node_entries (get_node db sib)) 0 s\<rparr>"
    using dist by (simp_all add: dA_def get_node_shift_sibling_right s_def)
  obtain t where dB: "\<forall>q. get_node dB q =
      (if q = sib
       then (get_node dA q)\<lparr>node_entries :=
               (node_entries (get_node dA q))(0 := (get_key dA (anc, slt))\<lparr>key_tail := t\<rparr>)\<rparr>
       else get_node dA q)"
    using my_copy_key_node [of env "(sib, 0)" "(anc, slt)" dA] unfolding dB_def by auto
  define k where "k = (get_key dA (anc, slt))\<lparr>key_tail := t, key_ptr := btree_node_get_ptr_left db sib\<rparr>"
  have dCp: "get_node dC page = get_node db page"
    using dist dB by (simp add: dC_def key_set_ptr_def get_node_set_key dAp)
  have dCs: "get_node dC sib = (get_node db sib)\<lparr>node_entries :=
             (move_keys (node_entries (get_node db sib)) 1 (node_entries (get_node db sib)) 0 s)
               (0 := k)\<rparr>"
    using dist dB
    by (simp add: dC_def key_set_ptr_def get_node_set_key get_key_def dAs k_def
        btree_node_get_ptr_left_def)
  have cC: "btree_node_get_count dC page = n"
    by (simp add: btree_node_get_count_def dCp n_def)
  have dDp: "get_node dD page = get_node db page"
    using dist by (simp add: dD_def btree_node_set_ptr_left_def dCp)
  have dDs: "get_node dD sib = (get_node db sib)\<lparr>
             node_ptr_left := key_ptr (node_entries (get_node db page) (n - 1)),
             node_entries :=
             (move_keys (node_entries (get_node db sib)) 1 (node_entries (get_node db sib)) 0 s)
               (0 := k)\<rparr>"
    using dist by (simp add: dD_def btree_node_set_ptr_left_def dCs get_key_def dCp cC)
  have dE: "get_node dE q = get_node dD q" if "q \<noteq> anc" for q
    unfolding dE_def using that by (rule get_node_my_replace_key_other)
  have "get_node db1 page = (get_node db page)\<lparr>node_count := word_of_int (n - 1)\<rparr>"
    using dist
    by (simp add: db1 dF_def btree_node_set_count_def btree_node_get_count_def dE dDp n_def)
  moreover have "get_node db1 sib = (get_node db sib)\<lparr>
              node_count := word_of_int (s + 1),
              node_ptr_left := key_ptr (node_entries (get_node db page) (n - 1)),
              node_entries := (move_keys (node_entries (get_node db sib)) 1
                                (node_entries (get_node db sib)) 0 s)(0 := k)\<rparr>"
    using dist
    by (simp add: db1 dF_def btree_node_set_count_def btree_node_get_count_def dE dDs s_def)
  ultimately show ?thesis
    unfolding n_def s_def by blast
qed

lemma to_sibling_insert_anchor_nodes:
  assumes ret: "to_sibling_insert_anchor env page sib anc slot db = Inr db1"
    and dist: "page \<noteq> sib"
  shows "get_node db1 page = get_node db page
       \<and> (\<exists>k. get_node db1 sib = (get_node db sib)\<lparr>
              node_count := word_of_int (btree_node_get_count db sib + 1),
              node_entries := (move_keys (node_entries (get_node db sib)) 1
                                (node_entries (get_node db sib)) 0
                                (btree_node_get_count db sib))(0 := k)\<rparr>)"
proof -
  define s where "s = btree_node_get_count db sib"
  define dA where "dA = shift_sibling_right db sib"
  define fl where "fl = NOFLUSH OR (if btree_node_is_leaf dA page then 0 else INTERNAL_KEY)"
  define dB where "dB = snd (my_replace_key env sib 0 (anc, slot) fl dA)"
  define dC where "dC = key_set_ptr dB (sib, 0) (btree_node_get_ptr_left dB sib)"
  from ret have db1: "db1 = btree_node_set_count dC sib (btree_node_get_count dC sib + 1)"
    unfolding dC_def dB_def fl_def dA_def
    by (auto simp add: to_sibling_insert_anchor_def Let_def split_beta split: if_splits)
  have dAp: "get_node dA page = get_node db page"
    and dAs: "get_node dA sib = (get_node db sib)\<lparr>node_entries :=
             move_keys (node_entries (get_node db sib)) 1 (node_entries (get_node db sib)) 0 s\<rparr>"
    using dist by (simp_all add: dA_def get_node_shift_sibling_right s_def)
  obtain k0 where dB: "\<forall>q. get_node dB q =
     (if q = sib
      then (get_node dA q)\<lparr>node_entries := (node_entries (get_node dA q))(0 := k0)\<rparr>
      else get_node dA q)"
    using my_replace_key_node [of env sib 0 "(anc, slot)" fl dA] unfolding dB_def by blast
  define k where "k = k0\<lparr>key_ptr := btree_node_get_ptr_left db sib\<rparr>"
  have "get_node db1 page = get_node db page"
    using dist dB
    by (simp add: db1 btree_node_set_count_def dC_def key_set_ptr_def get_node_set_key dAp)
  moreover have "get_node db1 sib = (get_node db sib)\<lparr>
              node_count := word_of_int (s + 1),
              node_entries := (move_keys (node_entries (get_node db sib)) 1
                                (node_entries (get_node db sib)) 0 s)(0 := k)\<rparr>"
    using dist dB
    by (simp add: db1 btree_node_set_count_def btree_node_get_count_def dC_def key_set_ptr_def
        get_node_set_key get_key_def dAs k_def btree_node_get_ptr_left_def s_def)
  ultimately show ?thesis
    unfolding s_def by blast
qed

lemma to_sibling_move_nodes:
  assumes dist: "page \<noteq> sib"
  shows "get_node (to_sibling_move page sib c sx db) page = (get_node db page)\<lparr>
            node_count := word_of_int (btree_node_get_count db page - c)\<rparr>"
    and "get_node (to_sibling_move page sib c sx db) sib = (get_node db sib)\<lparr>
            node_count := word_of_int (btree_node_get_count db sib + c),
            node_entries := move_keys
               (move_keys (node_entries (get_node db sib)) c (node_entries (get_node db sib)) 0
                  (btree_node_get_count db sib))
               0 (node_entries (get_node db page)) (sx + 1) c\<rparr>"
    and "q \<noteq> page \<Longrightarrow> q \<noteq> sib \<Longrightarrow> get_node (to_sibling_move page sib c sx db) q = get_node db q"
  using dist
  by (simp_all add: to_sibling_move_def Let_def get_node_memmove_keys btree_node_get_count_def
      btree_node_set_count_def)

lemma to_sibling_drop_highest_nodes:
  assumes ret: "to_sibling_drop_highest env page sib db = Inr db1"
    and dist: "page \<noteq> sib"
  shows "get_node db1 page = (get_node db page)\<lparr>
            node_count := word_of_int (btree_node_get_count db page - 1)\<rparr>"
    and "get_node db1 sib = (get_node db sib)\<lparr>
            node_ptr_left := key_ptr (node_entries (get_node db page)
                                        (btree_node_get_count db page - 1))\<rparr>"
    and "q \<noteq> page \<Longrightarrow> q \<noteq> sib \<Longrightarrow> get_node db1 q = get_node db q"
proof -
  define d1 where "d1 = btree_node_set_ptr_left db sib
      (key_ptr (get_key db (page, btree_node_get_count db page - 1)))"
  define d2 where "d2 = (if key_flags (get_key d1 (page, btree_node_get_count db page - 1))
                             AND KEY_IS_EXTENDED \<noteq> 0
      then snd (blob_free env
                  (extkey_cache_remove d1
                    (key_get_extended_rid (get_key d1 (page, btree_node_get_count db page - 1))))
                  (key_get_extended_rid (get_key d1 (page, btree_node_get_count db page - 1))))
      else d1)"
  from ret have db1: "db1 = btree_node_set_count d2 page (btree_node_get_count d2 page - 1)"
    unfolding d2_def d1_def
    by (auto simp add: to_sibling_drop_highest_def Let_def split_beta
        split: if_splits sum.splits)
  have d2q: "get_node d2 q = get_node d1 q" for q
    by (simp add: d2_def)
  show "get_node db1 page = (get_node db page)\<lparr>
            node_count := word_of_int (btree_node_get_count db page - 1)\<rparr>"
    using dist
    by (simp add: db1 btree_node_set_count_def btree_node_get_count_def d2q d1_def
        btree_node_set_ptr_left_def)
  show "get_node db1 sib = (get_node db sib)\<lparr>
            node_ptr_left := key_ptr (node_entries (get_node db page)
                                        (btree_node_get_count db page - 1))\<rparr>"
    using dist
    by (simp add: db1 btree_node_set_count_def d2q d1_def btree_node_set_ptr_left_def get_key_def)
  show "get_node db1 q = get_node db q" if "q \<noteq> page" "q \<noteq> sib"
    using that
    by (simp add: db1 btree_node_set_count_def d2q d1_def btree_node_set_ptr_left_def)
qed

lemma to_sibling_update_anchor_nodes:
  assumes ret: "to_sibling_update_anchor env intern page sib anchor anc sx db = Inr db1"
    and other: "q \<noteq> anc"
  shows "get_node db1 q = get_node db q"
proof -
  define bte where "bte = (if intern then (page, sx) else (sib, 0))"
  define slt where "slt = snd (get_slot env db anc (key_of_slot db bte))"
  from ret have "db1 = (if anchor \<noteq> 0
      then snd (my_replace_key env anc (slt + 1) bte INTERNAL_KEY db) else db)"
    unfolding slt_def bte_def
    by (auto simp add: to_sibling_update_anchor_def Let_def split_beta split: if_splits)
  then show ?thesis
    using other by (simp add: get_node_my_replace_key_other)
qed

lemma shift_to_sibling_leaf:
  assumes ret: "shift_to_sibling env False page sib anchor anc scratchpad db = (r, scratchpad', db')"
    and ran: "mergepage scratchpad \<noteq> 0" "mergepage scratchpad' = 0"
    and dist: "page \<noteq> sib" "anc \<noteq> page" "anc \<noteq> sib"
    and gt: "btree_node_get_count db sib < btree_node_get_count db page"
  shows "r = 0 \<and> scratchpad' = scratchpad\<lparr>mergepage := 0\<rparr>
    \<and> page_dirty (db_pages db' page) \<and> page_dirty (db_pages db' anc)
    \<and> page_dirty (db_pages db' sib)
    \<and> get_node db' page = (get_node db page)\<lparr>
          node_count := word_of_int (btree_node_get_count db page
             - (btree_node_get_count db page - btree_node_get_count db sib) div 2)\<rparr>
    \<and> get_node db' sib = (get_node db sib)\<lparr>
          node_count := word_of_int (btree_node_get_count db sib
             + (btree_node_get_count db page - btree_node_get_count db sib) div 2),
          node_entries := move_keys
             (move_keys (node_entries (get_node db sib))
                ((btree_node_get_count db page - btree_node_get_count db sib) div 2)
                (node_entries (get_node db sib)) 0 (btree_node_get_count db sib))
             0 (node_entries (get_node db page))
             (btree_node_get_count db page
                - (btree_node_get_count db page - btree_node_get_count db sib) div 2)
             ((btree_node_get_count db page - btree_node_get_count db sib) div 2)\<rparr>"
proof -
  define n where "n = btree_node_get_count db page"
  define s where "s = btree_node_get_count db sib"
  define c where "c = (n - s) div 2"
  have cd: "c_div (n - s) 2 = c"
    using gt unfolding c_def n_def s_def by (intro c_div_nonneg) simp
  have wn: "(word_of_int n :: 16 word) = node_count (get_node db page)"
    and ws: "(word_of_int s :: 16 word) = node_count (get_node db sib)"
    by (simp_all add: n_def s_def node_count_self)
  show ?thesis
  proof (cases "c = 0")
    case True
    with ret cd have cl: "shift_cleanup page anc sib scratchpad db = (r, scratchpad', db')"
      by (simp add: shift_to_sibling_def Let_def n_def s_def)
    from True show ?thesis
      using shift_cleanup_dirty [OF cl]
      unfolding c_def n_def s_def
      by (simp add: move_keys_nothing move_keys_self node_count_self)
  next
    case False
    define dm where "dm = to_sibling_move page sib c (n - c - 1) db"
    from ret cd False ran obtain d2 where
      upd: "to_sibling_update_anchor env False page sib anchor anc (n - c - 1) dm = Inr d2"
      and cl: "shift_cleanup page anc sib scratchpad d2 = (r, scratchpad', db')"
      unfolding dm_def
      by (auto simp add: shift_to_sibling_def Let_def n_def s_def split: sum.splits)
    have d2q: "get_node d2 q = get_node dm q" if "q \<noteq> anc" for q
      using to_sibling_update_anchor_nodes [OF upd that] .
    have dmp: "get_node dm page = (get_node db page)\<lparr>node_count := word_of_int (n - c)\<rparr>"
      and dms: "get_node dm sib = (get_node db sib)\<lparr>
            node_count := word_of_int (s + c),
            node_entries := move_keys
               (move_keys (node_entries (get_node db sib)) c (node_entries (get_node db sib)) 0 s)
               0 (node_entries (get_node db page)) (n - c - 1 + 1) c\<rparr>"
      unfolding dm_def n_def s_def using to_sibling_move_nodes [OF dist(1)] by simp_all
    show ?thesis
      using shift_cleanup_dirty [OF cl] dist
      unfolding c_def [symmetric] n_def [symmetric] s_def [symmetric]
      by (simp add: d2q dmp dms)
  qed
qed

lemma shift_to_sibling_intern:
  assumes ret: "shift_to_sibling env True page sib anchor anc scratchpad db = (r, scratchpad', db')"
    and ran: "mergepage scratchpad \<noteq> 0" "mergepage scratchpad' = 0"
    and dist: "page \<noteq> sib" "anc \<noteq> page" "anc \<noteq> sib"
    and gt: "btree_node_get_count db sib < btree_node_get_count db page"
  shows "r = 0 \<and> scratchpad' = scratchpad\<lparr>mergepage := 0\<rparr>
    \<and> page_dirty (db_pages db' page) \<and> page_dirty (db_pages db' anc)
    \<and> page_dirty (db_pages db' sib)
    \<and> btree_node_get_count db' page = btree_node_get_count db page - 1
          - c_div (btree_node_get_count db page - btree_node_get_count db sib - 2) 2
    \<and> btree_node_get_count db' sib = btree_node_get_count db sib + 1
          + c_div (btree_node_get_count db page - btree_node_get_count db sib - 2) 2
    \<and> (\<forall>i. 0 \<le> i
           \<and> i < c_div (btree_node_get_count db page - btree_node_get_count db sib - 2) 2 - 1
          \<longrightarrow> get_key db' (sib, i)
              = get_key db (page, btree_node_get_count db page
                   - c_div (btree_node_get_count db page - btree_node_get_count db sib - 2) 2 + i))
    \<and> (\<forall>i. get_key db' (page, i) = get_key db (page, i))
    \<and> (\<forall>i. 0 \<le> i \<and> i < btree_node_get_count db sib
          \<longrightarrow> get_key db' (sib, c_div (btree_node_get_count db page
                                          - btree_node_get_count db sib - 2) 2 + 1 + i)
              = get_key db (sib, i))"
proof -
  define n where "n = btree_node_get_count db page"
  define s where "s = btree_node_get_count db sib"
  define c where "c = c_div (n - s - 2) 2"
  have bounds: "0 \<le> s" "s < n" "n < 65536"
    using gt by (simp_all add: n_def s_def)
  from ret ran obtain slot d1 where rot: "to_sibling_rotate env page sib anc db = Inr (slot, d1)"
    by (cases "to_sibling_rotate env page sib anc db")
       (auto simp add: shift_to_sibling_def)
  obtain k1 where d1p: "get_node d1 page = (get_node db page)\<lparr>node_count := word_of_int (n - 1)\<rparr>"
    and d1s: "get_node d1 sib = (get_node db sib)\<lparr>
              node_count := word_of_int (s + 1),
              node_ptr_left := key_ptr (node_entries (get_node db page) (n - 1)),
              node_entries := (move_keys (node_entries (get_node db sib)) 1
                                (node_entries (get_node db sib)) 0 s)(0 := k1)\<rparr>"
    using to_sibling_rotate_nodes [OF rot dist] unfolding n_def s_def by blast
  have n1: "btree_node_get_count d1 page = n - 1"
    using bounds by (simp add: count_of_node [OF d1p] uint16_of_int del: of_int_add of_int_diff)
  have s1: "btree_node_get_count d1 sib = s + 1"
    using bounds by (simp add: count_of_node [OF d1s] uint16_of_int del: of_int_add of_int_diff)
  have cd: "c_div (btree_node_get_count d1 page - btree_node_get_count d1 sib) 2 = c"
    by (simp add: n1 s1 c_def algebra_simps)
  have range: "- 1 \<le> n - s - 2"
    using bounds by simp
  show ?thesis
  proof (cases "c = 0")
    case True
    with ret rot cd have cl: "shift_cleanup page anc sib scratchpad d1 = (r, scratchpad', db')"
      by (simp add: shift_to_sibling_def Let_def)
    have fp: "get_node db' page = get_node d1 page" and fs: "get_node db' sib = get_node d1 sib"
      using shift_cleanup_dirty(6) [OF cl] by simp_all
    have "btree_node_get_count db' page = n - 1 - c"
      using True n1 by (simp add: btree_node_get_count_def fp)
    moreover have "btree_node_get_count db' sib = s + 1 + c"
      using True s1 by (simp add: btree_node_get_count_def fs)
    moreover have "\<forall>i. get_key db' (page, i) = get_key db (page, i)"
      by (simp add: get_key_def fp d1p)
    moreover have "\<forall>i. 0 \<le> i \<and> i < s \<longrightarrow> get_key db' (sib, c + 1 + i) = get_key db (sib, i)"
      using True by (auto simp add: get_key_def fs d1s move_keys_def)
    ultimately show ?thesis
      using shift_cleanup_dirty(1-5) [OF cl] True
      unfolding c_def n_def s_def by auto
  next
    case False
    from c_div_nonzero [OF range] False have big: "2 \<le> n - s - 2" and c1: "1 \<le> c"
      and cv: "c = (n - s - 2) div 2"
      by (simp_all add: c_def)
    from ret rot cd False ran obtain d2 where
      ins: "to_sibling_insert_anchor env page sib anc slot d1 = Inr d2"
      by (cases "to_sibling_insert_anchor env page sib anc slot d1")
         (auto simp add: shift_to_sibling_def Let_def)
    obtain k2 where d2p: "get_node d2 page = get_node d1 page"
      and d2s: "get_node d2 sib = (get_node d1 sib)\<lparr>
              node_count := word_of_int (s + 1 + 1),
              node_entries := (move_keys (node_entries (get_node d1 sib)) 1
                                (node_entries (get_node d1 sib)) 0 (s + 1))(0 := k2)\<rparr>"
      using to_sibling_insert_anchor_nodes [OF ins dist(1)] unfolding s1 by blast
    have n2: "btree_node_get_count d2 page = n - 1"
      using n1 by (simp add: btree_node_get_count_def d2p)
    have s2: "btree_node_get_count d2 sib = s + 2"
      using bounds big
      by (simp add: count_of_node [OF d2s] uint16_of_int del: of_int_add of_int_diff)
    define sx where "sx = n - 1 - (c - 1) - 1"
    define dm where "dm = to_sibling_move page sib (c - 1) sx d2"
    have dmp: "get_node dm page = (get_node d2 page)\<lparr>node_count := word_of_int (n - 1 - (c - 1))\<rparr>"
      and dms: "get_node dm sib = (get_node d2 sib)\<lparr>
            node_count := word_of_int (s + 2 + (c - 1)),
            node_entries := move_keys
               (move_keys (node_entries (get_node d2 sib)) (c - 1)
                  (node_entries (get_node d2 sib)) 0 (s + 2))
               0 (node_entries (get_node d2 page)) (sx + 1) (c - 1)\<rparr>"
      unfolding dm_def
      using to_sibling_move_nodes [OF dist(1), where c = "c - 1" and db = d2 and sx = sx]
      by (simp_all add: n2 s2)
    have nm: "btree_node_get_count dm page = n - c"
      using bounds big cv
      by (simp add: count_of_node [OF dmp] uint16_of_int del: of_int_add of_int_diff)
    from ret rot cd False ran ins obtain d3 where
      drp: "to_sibling_drop_highest env page sib dm = Inr d3"
      unfolding dm_def sx_def
      by (cases "to_sibling_drop_highest env page sib
                   (to_sibling_move page sib (c - 1) (n - 1 - (c - 1) - 1) d2)")
         (auto simp add: shift_to_sibling_def Let_def n2)
    from ret rot cd False ran ins drp obtain d4 where
      upd: "to_sibling_update_anchor env True page sib anchor anc sx d3 = Inr d4"
      and cl: "shift_cleanup page anc sib scratchpad d4 = (r, scratchpad', db')"
      unfolding dm_def sx_def
      by (cases "to_sibling_update_anchor env True page sib anchor anc (n - 1 - (c - 1) - 1) d3")
         (auto simp add: shift_to_sibling_def Let_def n2)
    have d3p: "get_node d3 page = (get_node dm page)\<lparr>node_count := word_of_int (n - c - 1)\<rparr>"
      and d3s: "get_node d3 sib = (get_node dm sib)\<lparr>
            node_ptr_left := key_ptr (node_entries (get_node dm page) (n - c - 1))\<rparr>"
      using to_sibling_drop_highest_nodes [OF drp dist(1)] by (simp_all add: nm)
    have d4q: "get_node d4 q = get_node d3 q" if "q \<noteq> anc" for q
      using to_sibling_update_anchor_nodes [OF upd that] .
    have fp: "get_node db' page = get_node d3 page" and fs: "get_node db' sib = get_node d3 sib"
      using shift_cleanup_dirty(6) [OF cl] dist by (simp_all add: d4q)
    have "btree_node_get_count db' page = n - 1 - c"
      using bounds big cv
      by (simp add: btree_node_get_count_def fp d3p uint16_of_int del: of_int_add of_int_diff)
    moreover have "btree_node_get_count db' sib = s + 1 + c"
      using bounds big cv
      by (simp add: btree_node_get_count_def fs d3s dms uint16_of_int del: of_int_add of_int_diff)
    moreover have "\<forall>i. 0 \<le> i \<and> i < c - 1
          \<longrightarrow> get_key db' (sib, i) = get_key db (page, n - c + i)"
      using bounds big cv
      by (auto simp add: get_key_def fs d3s dms d2p d1p move_keys_def sx_def algebra_simps)
    moreover have "\<forall>i. get_key db' (page, i) = get_key db (page, i)"
      by (simp add: get_key_def fp d3p dmp d2p d1p)
    moreover have "\<forall>i. 0 \<le> i \<and> i < s \<longrightarrow> get_key db' (sib, c + 1 + i) = get_key db (sib, i)"
      using bounds big cv
      by (auto simp add: get_key_def fs d3s dms d2s d1s move_keys_def algebra_simps)
    ultimately show ?thesis
      using shift_cleanup_dirty(1-5) [OF cl]
      unfolding c_def n_def s_def by simp
  qed
qed

subsection \<open>The result of a shift that reaches its cleanup\<close>

lemma my_shift_pages_cleanup_result:
  assumes ret: "my_shift_pages env page sibpage anchor scratchpad db = (r, scratchpad', db')"
    and dist: "page \<noteq> sibpage" "anchor \<noteq> page" "anchor \<noteq> sibpage"
    and ne: "btree_node_get_count db page \<noteq> btree_node_get_count db sibpage"
    and ran: "mergepage scratchpad \<noteq> 0" "mergepage scratchpad' = 0"
  shows "r = 0 \<and> scratchpad' = scratchpad\<lparr>mergepage := 0\<rparr>
          \<and> page_dirty (db_pages db' page) \<and> page_dirty (db_pages db' anchor)
          \<and> page_dirty (db_pages db' sibpage)
          \<and> (let n = btree_node_get_count db page;
                   s = btree_node_get_count db sibpage
               in (btree_node_is_leaf db page \<and> n < s \<longrightarrow>
                     (let c = (s - n) div 2
                      in btree_node_get_count db' page = n + c
                         \<and> btree_node_get_count db' sibpage = s - c
                         \<and> (\<forall>i. 0 \<le> i \<and> i < c
                               \<longrightarrow> get_key db' (page, n + i) = get_key db (sibpage, i))
                         \<and> (\<forall>i. 0 \<le> i \<and> i < n
                               \<longrightarrow> get_key db' (page, i) = get_key db (page, i))
                         \<and> (\<forall>i. 0 \<le> i \<and> i < s - c
                               \<longrightarrow> get_key db' (sibpage, i) = get_key db (sibpage, c + i))))
                \<and> (btree_node_is_leaf db page \<and> s < n \<longrightarrow>
                     (let c = (n - s) div 2
                      in btree_node_get_count db' page = n - c
                         \<and> btree_node_get_count db' sibpage = s + c
                         \<and> (\<forall>i. 0 \<le> i \<and> i < c
                               \<longrightarrow> get_key db' (sibpage, i) = get_key db (page, n - c + i))
                         \<and> (\<forall>i. get_key db' (page, i) = get_key db (page, i))
                         \<and> (\<forall>i. 0 \<le> i \<and> i < s
                               \<longrightarrow> get_key db' (sibpage, c + i) = get_key db (sibpage, i))))
                \<and> (\<not> btree_node_is_leaf db page \<and> n < s \<longrightarrow>
                     (let c = c_div (s - 1 - (n + 1)) 2
                      in btree_node_get_count db' page = n + 1 + c
                         \<and> btree_node_get_count db' sibpage = s - 1 - c
                         \<and> (\<forall>i. 0 \<le> i \<and> i < c - 1
                               \<longrightarrow> get_key db' (page, n + 2 + i) = get_key db (sibpage, 1 + i))
                         \<and> (\<forall>i. 0 \<le> i \<and> i < n
                               \<longrightarrow> get_key db' (page, i) = get_key db (page, i))
                         \<and> (\<forall>i. 0 \<le> i \<and> i < s - 1 - c
                               \<longrightarrow> get_key db' (sibpage, i) = get_key db (sibpage, i + c + 1))))
                \<and> (\<not> btree_node_is_leaf db page \<and> s < n \<longrightarrow>
                     (let c = c_div (n - 1 - (s + 1)) 2
                      in btree_node_get_count db' page = n - 1 - c
                         \<and> btree_node_get_count db' sibpage = s + 1 + c
                         \<and> (\<forall>i. 0 \<le> i \<and> i < c - 1
                               \<longrightarrow> get_key db' (sibpage, i) = get_key db (page, n - c + i))
                         \<and> (\<forall>i. get_key db' (page, i) = get_key db (page, i))
                         \<and> (\<forall>i. 0 \<le> i \<and> i < s
                               \<longrightarrow> get_key db' (sibpage, c + 1 + i) = get_key db (sibpage, i)))))"
proof -
  have dist': "page \<noteq> sibpage" "anchor \<noteq> page" "anchor \<noteq> sibpage"
    using dist .
  have branch: "(if btree_node_get_count db page \<le> btree_node_get_count db sibpage
      then shift_from_sibling env (\<not> btree_node_is_leaf db page) page sibpage anchor anchor
             scratchpad db
      else shift_to_sibling env (\<not> btree_node_is_leaf db page) page sibpage anchor anchor
             scratchpad db) = (r, scratchpad', db')"
    using ret ne ran
    by (auto simp add: my_shift_pages_def Let_def db_fetch_page_def split: if_splits)
  consider (fl) "btree_node_is_leaf db page"
        "btree_node_get_count db page < btree_node_get_count db sibpage"
    | (tl) "btree_node_is_leaf db page"
        "btree_node_get_count db sibpage < btree_node_get_count db page"
    | (fi) "\<not> btree_node_is_leaf db page"
        "btree_node_get_count db page < btree_node_get_count db sibpage"
    | (ti) "\<not> btree_node_is_leaf db page"
        "btree_node_get_count db sibpage < btree_node_get_count db page"
    using ne by linarith
  then show ?thesis
  proof cases
    case fl
    define n where "n = btree_node_get_count db page"
    define s where "s = btree_node_get_count db sibpage"
    define c where "c = (s - n) div 2"
    have b: "0 \<le> n" "n < s" "s < 65536"
      using fl by (simp_all add: n_def s_def)
    from branch fl have sh: "shift_from_sibling env False page sibpage anchor anchor scratchpad db
        = (r, scratchpad', db')"
      by simp
    note res = shift_from_sibling_leaf [OF sh ran dist' fl(2), folded n_def s_def, folded c_def]
    have "btree_node_get_count db' page = n + c"
      using b res unfolding c_def
      by (simp add: btree_node_get_count_def [of db'] uint16_of_int del: of_int_add of_int_diff)
    moreover have "btree_node_get_count db' sibpage = s - c"
      using b res unfolding c_def
      by (simp add: btree_node_get_count_def [of db'] uint16_of_int del: of_int_add of_int_diff)
    moreover have "\<forall>i. 0 \<le> i \<and> i < c \<longrightarrow> get_key db' (page, n + i) = get_key db (sibpage, i)"
      using res by (simp add: get_key_def move_keys_def)
    moreover have "\<forall>i. 0 \<le> i \<and> i < n \<longrightarrow> get_key db' (page, i) = get_key db (page, i)"
      using res by (simp add: get_key_def move_keys_def)
    moreover have "\<forall>i. 0 \<le> i \<and> i < s - c
        \<longrightarrow> get_key db' (sibpage, i) = get_key db (sibpage, c + i)"
      using res by (simp add: get_key_def move_keys_def)
    ultimately show ?thesis
      using res fl unfolding Let_def c_def n_def s_def by simp
  next
    case tl
    define n where "n = btree_node_get_count db page"
    define s where "s = btree_node_get_count db sibpage"
    define c where "c = (n - s) div 2"
    have b: "0 \<le> s" "s < n" "n < 65536"
      using tl by (simp_all add: n_def s_def)
    from branch tl have sh: "shift_to_sibling env False page sibpage anchor anchor scratchpad db
        = (r, scratchpad', db')"
      by simp
    note res = shift_to_sibling_leaf [OF sh ran dist' tl(2), folded n_def s_def, folded c_def]
    have "btree_node_get_count db' page = n - c"
      using b res unfolding c_def
      by (simp add: btree_node_get_count_def [of db'] uint16_of_int del: of_int_add of_int_diff)
    moreover have "btree_node_get_count db' sibpage = s + c"
      using b res unfolding c_def
      by (simp add: btree_node_get_count_def [of db'] uint16_of_int del: of_int_add of_int_diff)
    moreover have "\<forall>i. 0 \<le> i \<and> i < c
        \<longrightarrow> get_key db' (sibpage, i) = get_key db (page, n - c + i)"
      using res by (simp add: get_key_def move_keys_def)
    moreover have "\<forall>i. get_key db' (page, i) = get_key db (page, i)"
      using res by (simp add: get_key_def move_keys_def)
    moreover have "\<forall>i. 0 \<le> i \<and> i < s
        \<longrightarrow> get_key db' (sibpage, c + i) = get_key db (sibpage, i)"
      using res b unfolding c_def by (auto simp add: get_key_def move_keys_def)
    ultimately show ?thesis
      using res tl unfolding Let_def c_def n_def s_def by simp
  next
    case fi
    from branch fi have sh: "shift_from_sibling env True page sibpage anchor anchor scratchpad db
        = (r, scratchpad', db')"
      by simp
    have e: "btree_node_get_count db sibpage - 1 - (btree_node_get_count db page + 1)
        = btree_node_get_count db sibpage - btree_node_get_count db page - 2"
      by simp
    show ?thesis
      using shift_from_sibling_intern [OF sh ran dist' fi(2)] fi
      unfolding Let_def e by simp
  next
    case ti
    from branch ti have sh: "shift_to_sibling env True page sibpage anchor anchor scratchpad db
        = (r, scratchpad', db')"
      by simp
    have e: "btree_node_get_count db page - 1 - (btree_node_get_count db sibpage + 1)
        = btree_node_get_count db page - btree_node_get_count db sibpage - 2"
      by simp
    show ?thesis
      using shift_to_sibling_intern [OF sh ran dist' ti(2)] ti
      unfolding Let_def e by simp
  qed
qed

subsection \<open>A rebalance given up because cursors cannot be uncoupled\<close>

lemma my_merge_pages_uncouple_fails:
  assumes "db_uncouple_all_cursors env db page \<noteq> 0 \<or> db_uncouple_all_cursors env db sibpage \<noteq> 0"
  shows "my_merge_pages env page sibpage anchor scratchpad db = (0, scratchpad, db)"
  using assms by (auto simp add: my_merge_pages_def Let_def)

lemma my_shift_pages_uncouple_fails:
  assumes "db_uncouple_all_cursors env db page \<noteq> 0 \<or> db_uncouple_all_cursors env db sibpage \<noteq> 0"
  shows "my_shift_pages env page sibpage anchor scratchpad db = (0, scratchpad, db)"
  using assms by (auto simp add: my_shift_pages_def Let_def)

lemma my_rebalance_uncouple_fails:
  assumes "left \<noteq> 0" and "right \<noteq> 0"
    and "btree_node_get_left db page \<noteq> 0" and "btree_node_get_right db page \<noteq> 0"
    and l: "db_uncouple_all_cursors env db (btree_node_get_left db page) \<noteq> 0"
    and r: "db_uncouple_all_cursors env db (btree_node_get_right db page) \<noteq> 0"
  shows "my_rebalance env page left right lanchor ranchor parent scratchpad db
           = (0, scratchpad, db)"
  using assms
  by (auto simp add: my_rebalance_def Let_def db_fetch_page_def my_merge_pages_uncouple_fails
      my_shift_pages_uncouple_fails)

lemma my_remove_entry_steps:
  assumes unc: "db_uncouple_all_cursors env db page = 0"
  shows "my_remove_entry env page slot scratchpad db =
     (0, page_set_dirty
           (btree_node_set_count
              (if slot \<noteq> btree_node_get_count db page - 1
               then memmove_keys
                      (if key_flags (get_key db (page, slot)) AND KEY_IS_EXTENDED \<noteq> 0
                       then extkey_cache_remove
                              (snd (blob_free env db (key_get_extended_rid (get_key db (page, slot)))))
                              (key_get_extended_rid (get_key db (page, slot)))
                       else db)
                      (page, slot) (page, slot + 1) (btree_node_get_count db page - slot - 1)
               else (if key_flags (get_key db (page, slot)) AND KEY_IS_EXTENDED \<noteq> 0
                     then extkey_cache_remove
                            (snd (blob_free env db (key_get_extended_rid (get_key db (page, slot)))))
                            (key_get_extended_rid (get_key db (page, slot)))
                     else db))
              page (btree_node_get_count db page - 1))
           page)"
proof -
  define d1 where "d1 = (if key_flags (get_key db (page, slot)) AND KEY_IS_EXTENDED \<noteq> 0
                       then extkey_cache_remove
                              (snd (blob_free env db (key_get_extended_rid (get_key db (page, slot)))))
                              (key_get_extended_rid (get_key db (page, slot)))
                       else db)"
  have n1: "get_node d1 q = get_node db q" for q
    by (simp add: d1_def)
  have c1: "btree_node_get_count d1 q = btree_node_get_count db q" for q
    by (simp add: btree_node_get_count_def n1)
  define d2 where "d2 = (if slot \<noteq> btree_node_get_count d1 page - 1
               then memmove_keys d1 (page, slot) (page, slot + 1)
                      (btree_node_get_count d1 page - slot - 1)
               else d1)"
  have c2: "btree_node_get_count d2 page = btree_node_get_count db page"
    by (simp add: d2_def btree_node_get_count_def get_node_memmove_keys n1)
  have "my_remove_entry env page slot scratchpad db
          = (0, page_set_dirty (btree_node_set_count d2 page (btree_node_get_count d2 page - 1)) page)"
    using unc unfolding my_remove_entry_def d2_def d1_def
    by (simp only: Let_def split_beta if_False simp_thms)
  then show ?thesis
    unfolding c2 unfolding d2_def c1 unfolding d1_def .
qed

lemma db_error_set_node: "db_error (set_node db p n) = db_error db"
  by (simp add: set_node_def)

lemma db_backend_set_node: "db_backend (set_node db p n) = db_backend db"
  by (simp add: set_node_def)

lemma db_error_snd_blob_free: "db_error (snd (blob_free env db b)) = db_error db"
  by (simp add: blob_free_def Let_def)

lemma db_backend_snd_blob_free: "db_backend (snd (blob_free env db b)) = db_backend db"
  by (simp add: blob_free_def Let_def)

lemma db_backend_extkey_cache_remove: "db_backend (extkey_cache_remove db b) = db_backend db"
  by (simp add: extkey_cache_remove_def split: option.splits)

lemma my_remove_entry_done:
  assumes "db_uncouple_all_cursors env db page = 0"
  shows "fst (my_remove_entry env page slot scratchpad db) = 0"
    and "db_error (snd (my_remove_entry env page slot scratchpad db)) = db_error db"
    and "db_backend (snd (my_remove_entry env page slot scratchpad db)) = db_backend db"
  by (simp_all add: my_remove_entry_steps [OF assms] page_set_dirty_def btree_node_set_count_def
      memmove_keys_def db_error_set_node db_backend_set_node db_error_snd_blob_free
      db_backend_snd_blob_free db_backend_extkey_cache_remove)

lemma get_node_my_remove_entry:
  assumes "db_uncouple_all_cursors env db page = 0"
  shows "get_node (snd (my_remove_entry env page slot scratchpad db)) q =
     (if q = page
      then (get_node db page)
             \<lparr>node_entries :=
                (if slot \<noteq> btree_node_get_count db page - 1
                 then move_keys (node_entries (get_node db page)) slot
                        (node_entries (get_node db page)) (slot + 1)
                        (btree_node_get_count db page - slot - 1)
                 else node_entries (get_node db page)),
              node_count := word_of_int (btree_node_get_count db page - 1)\<rparr>
      else get_node db q)"
  by (simp add: my_remove_entry_steps [OF assms] btree_node_set_count_def get_node_memmove_keys
      del: of_int_add of_int_diff)

lemma my_remove_entry_links:
  assumes "db_uncouple_all_cursors env db page = 0"
  shows "btree_node_get_left (snd (my_remove_entry env page slot scratchpad db)) q
           = btree_node_get_left db q"
    and "btree_node_get_right (snd (my_remove_entry env page slot scratchpad db)) q
           = btree_node_get_right db q"
    and "btree_node_get_ptr_left (snd (my_remove_entry env page slot scratchpad db)) q
           = btree_node_get_ptr_left db q"
    and "btree_node_is_leaf (snd (my_remove_entry env page slot scratchpad db)) q
           = btree_node_is_leaf db q"
  by (simp_all add: btree_node_get_left_def btree_node_get_right_def btree_node_get_ptr_left_def
      btree_node_is_leaf_def get_node_my_remove_entry [OF assms])

lemma my_remove_entry_count:
  assumes "db_uncouple_all_cursors env db page = 0" and "btree_node_get_count db page \<noteq> 0"
  shows "btree_node_get_count (snd (my_remove_entry env page slot scratchpad db)) page
           = btree_node_get_count db page - 1"
proof -
  have b: "0 \<le> btree_node_get_count db page - 1" "btree_node_get_count db page - 1 < 65536"
    using assms(2) count_nonneg [of db page] count_bound [of db page] by linarith+
  have "btree_node_get_count (snd (my_remove_entry env page slot scratchpad db)) page
          = uint (word_of_int (btree_node_get_count db page - 1) :: 16 word)"
    by (simp add: btree_node_get_count_def [of "snd (my_remove_entry env page slot scratchpad db)"]
        get_node_my_remove_entry [OF assms(1)] del: of_int_add of_int_diff)
  then show ?thesis
    using b by (simp add: uint16_of_int del: of_int_add of_int_diff)
qed

lemma my_remove_entry_scratchpad:
  "my_remove_entry env page slot scratchpad db = my_remove_entry env page slot scratchpad' db"
  by (simp add: my_remove_entry_def)

lemma erase_unwind_abandoned:
  assumes newme: "newme \<noteq> 0" and slot: "slot \<noteq> - 1"
    and err: "db_error db = 0"
    and unc: "db_uncouple_all_cursors env db page = 0"
    and sibs: "left \<noteq> 0" "right \<noteq> 0"
      "btree_node_get_left db page \<noteq> 0" "btree_node_get_right db page \<noteq> 0"
    and fail:
      "db_uncouple_all_cursors env (snd (my_remove_entry env page slot scratchpad0 db))
         (btree_node_get_left db page) \<noteq> 0"
      "db_uncouple_all_cursors env (snd (my_remove_entry env page slot scratchpad0 db))
         (btree_node_get_right db page) \<noteq> 0"
  shows "erase_unwind env page slot newme left right lanchor ranchor parent scratchpad db
           = (0, scratchpad, snd (my_remove_entry env page slot scratchpad0 db))"
proof -
  let ?db1 = "snd (my_remove_entry env page slot scratchpad0 db)"
  have same: "my_remove_entry env page slot scratchpad db = (0, ?db1)"
    using my_remove_entry_done(1) [OF unc, of slot scratchpad0]
      my_remove_entry_scratchpad [of env page slot scratchpad db scratchpad0]
    by (metis prod.collapse)
  have e1: "db_error ?db1 = 0"
    using my_remove_entry_done(2) [OF unc] err by simp
  have reb: "my_rebalance env page left right lanchor ranchor parent scratchpad ?db1
               = (0, scratchpad, ?db1)"
    using sibs fail
    by (intro my_rebalance_uncouple_fails) (simp_all add: my_remove_entry_links [OF unc])
  show ?thesis
    using newme slot by (simp add: erase_unwind_def same e1 reb)
qed

lemma erase_leaf_abandoned:
  assumes notroot: "be_rootpage (db_backend db) \<noteq> page"
    and page: "page \<noteq> 0"
    and cnt: "btree_node_get_count db page \<noteq> 0"
    and few: "btree_node_get_count db page \<le> int (minkeys env (be_maxkeys (db_backend db)))"
    and leaf: "btree_node_is_leaf db page"
    and gs: "get_slot env db page (sp_key scratchpad) = (0, slot)" "slot \<noteq> - 1"
    and cmp: "compare_keys env db page (sp_key scratchpad) slot = (0, 0)"
    and err: "db_error db = 0"
    and unc: "db_uncouple_all_cursors env db page = 0"
    and sibs: "left \<noteq> 0" "right \<noteq> 0"
      "btree_node_get_left db page \<noteq> 0" "btree_node_get_right db page \<noteq> 0"
    and fail:
      "db_uncouple_all_cursors env (snd (my_remove_entry env page slot scratchpad0 db))
         (btree_node_get_left db page) \<noteq> 0"
      "db_uncouple_all_cursors env (snd (my_remove_entry env page slot scratchpad0 db))
         (btree_node_get_right db page) \<noteq> 0"
  shows "my_erase_recursive (Suc fuel) env page left right lanchor ranchor parent scratchpad db =
     Some (0,
           (if mergepage scratchpad = 0 then scratchpad\<lparr>mergepage := page\<rparr> else scratchpad)
             \<lparr>sp_rid := key_ptr (get_key db (page, slot)),
              sp_intflags := ucast (key_flags (get_key db (page, slot)))\<rparr>,
           snd (my_remove_entry env page slot scratchpad0 db))"
  using notroot cnt few leaf gs cmp err
  by (simp add: Let_def
      erase_unwind_abandoned [OF page gs(2) err unc sibs fail])

lemma erase_two_levels_abandoned:
  assumes root: "root = be_rootpage (db_backend db)" "root \<noteq> 0"
    and db0: "db0 = db_set_error db 0"
    and sp0: "sp0 = \<lparr>sp_flags = flags, sp_key = key, sp_rid = rid, sp_intflags = intflags,
                      mergepage = 0\<rparr>"
    and inner: "btree_node_get_count db root \<noteq> 0" "\<not> btree_node_is_leaf db root"
    and trav: "traverse_tree env db0 root key = (child, slot)"
    and child: "child \<noteq> 0" "child \<noteq> root" "btree_node_is_leaf db child"
      "btree_node_get_count db child \<noteq> 0"
      "btree_node_get_count db child \<le> int (minkeys env (be_maxkeys (db_backend db)))"
    and found: "get_slot env db0 child key = (0, s)" "s \<noteq> - 1"
      "compare_keys env db0 child key s = (0, 0)"
    and unc: "db_uncouple_all_cursors env db0 child = 0"
    and db1: "db1 = snd (my_remove_entry env child s sp0 db0)"
    and sibs: "next_left_of db0 root slot 0 \<noteq> 0" "next_right_of db0 root slot 0 \<noteq> 0"
      "btree_node_get_left db child \<noteq> 0" "btree_node_get_right db child \<noteq> 0"
    and fail: "db_uncouple_all_cursors env db1 (btree_node_get_left db child) \<noteq> 0"
      "db_uncouple_all_cursors env db1 (btree_node_get_right db child) \<noteq> 0"
    and sp1: "sp1 = sp0\<lparr>mergepage := (if 1 < btree_node_get_count db root then child else root),
                          sp_rid := key_ptr (get_key db (child, s)),
                          sp_intflags := ucast (key_flags (get_key db (child, s)))\<rparr>"
    and p: "p = btree_node_get_ptr_left db root"
  shows "my_erase_recursive (Suc (Suc fuel)) env root 0 0 0 0 0 sp0 db0 = Some (p, sp1, db1)"
    and "db_error db1 = 0"
    and "btree_node_get_count db1 child = btree_node_get_count db child - 1"
    and "mergepage sp1 \<noteq> 0"
proof -
  have n0: "get_node db0 q = get_node db q" for q
    by (simp add: db0)
  have c0: "btree_node_get_count db0 q = btree_node_get_count db q" for q
    by (simp add: btree_node_get_count_def n0)
  have l0: "btree_node_is_leaf db0 q = btree_node_is_leaf db q" for q
    by (simp add: btree_node_is_leaf_def n0)
  have lk0: "btree_node_get_left db0 q = btree_node_get_left db q"
    "btree_node_get_right db0 q = btree_node_get_right db q"
    "btree_node_get_ptr_left db0 q = btree_node_get_ptr_left db q" for q
    by (simp_all add: btree_node_get_left_def btree_node_get_right_def
        btree_node_get_ptr_left_def n0)
  have k0: "get_key db0 k = get_key db k" for k
    by (simp add: get_key_def n0)
  have b0: "db_backend db0 = db_backend db" and e0: "db_error db0 = 0"
    by (simp_all add: db0 db_set_error_def)
  let ?spr = "if 1 < btree_node_get_count db root then sp0 else sp0\<lparr>mergepage := root\<rparr>"
  have keyr: "sp_key ?spr = key"
    by (simp add: sp0)
  have leaf: "my_erase_recursive (Suc fuel) env child (next_left_of db0 root slot 0)
      (next_right_of db0 root slot 0) la ra root ?spr db0 =
     Some (0,
           (if mergepage ?spr = 0 then ?spr\<lparr>mergepage := child\<rparr> else ?spr)
             \<lparr>sp_rid := key_ptr (get_key db0 (child, s)),
              sp_intflags := ucast (key_flags (get_key db0 (child, s)))\<rparr>,
           snd (my_remove_entry env child s sp0 db0))" for la ra
  proof (rule erase_leaf_abandoned)
    show "be_rootpage (db_backend db0) \<noteq> child"
      using child(2) root(1) by (simp add: b0)
    show "child \<noteq> 0" by (rule child(1))
    show "btree_node_get_count db0 child \<noteq> 0"
      using child(4) by (simp add: c0)
    show "btree_node_get_count db0 child \<le> int (minkeys env (be_maxkeys (db_backend db0)))"
      using child(5) by (simp add: c0 b0)
    show "btree_node_is_leaf db0 child"
      using child(3) by (simp add: l0)
    show "get_slot env db0 child (sp_key ?spr) = (0, s)"
      unfolding keyr by (rule found(1))
    show "s \<noteq> - 1" by (rule found(2))
    show "compare_keys env db0 child (sp_key ?spr) s = (0, 0)"
      unfolding keyr by (rule found(3))
    show "db_error db0 = 0" by (rule e0)
    show "db_uncouple_all_cursors env db0 child = 0" by (rule unc)
    show "next_left_of db0 root slot 0 \<noteq> 0" by (rule sibs(1))
    show "next_right_of db0 root slot 0 \<noteq> 0" by (rule sibs(2))
    show "btree_node_get_left db0 child \<noteq> 0"
      using sibs(3) by (simp add: lk0)
    show "btree_node_get_right db0 child \<noteq> 0"
      using sibs(4) by (simp add: lk0)
    show "db_uncouple_all_cursors env (snd (my_remove_entry env child s sp0 db0))
            (btree_node_get_left db0 child) \<noteq> 0"
      using fail(1) by (simp add: lk0 db1)
    show "db_uncouple_all_cursors env (snd (my_remove_entry env child s sp0 db0))
            (btree_node_get_right db0 child) \<noteq> 0"
      using fail(2) by (simp add: lk0 db1)
  qed
  have spl: "(if mergepage ?spr = 0 then ?spr\<lparr>mergepage := child\<rparr> else ?spr)
             \<lparr>sp_rid := key_ptr (get_key db0 (child, s)),
              sp_intflags := ucast (key_flags (get_key db0 (child, s)))\<rparr> = sp1"
    using root(2) by (simp add: sp1 sp0 k0)
  have e1: "db_error db1 = 0"
    using my_remove_entry_done(2) [OF unc] e0 by (simp add: db1)
  have m1: "mergepage sp1 \<noteq> 0"
    using root(2) child(1) by (simp add: sp1)
  have n1: "get_node db1 root = get_node db root"
    using get_node_my_remove_entry [OF unc, of s sp0 root] child(2) by (simp add: db1 n0)
  have leaf1: "\<not> btree_node_is_leaf db1 root" and p1: "btree_node_get_ptr_left db1 root = p"
    using inner(2) by (simp_all add: btree_node_is_leaf_def btree_node_get_ptr_left_def n1 p)
  have reb: "my_rebalance env root 0 0 0 0 0 sp1 db1 = (p, sp1, db1)"
    using m1 leaf1 p1 by (simp add: my_rebalance_def Let_def db_fetch_page_def)
  have unw: "erase_unwind env root slot 0 0 0 0 0 0 sp1 db1 = (p, sp1, db1)"
    by (simp add: erase_unwind_def e1 reb)
  have rootcase: "be_rootpage (db_backend db0) = root"
    by (simp add: b0 root(1))
  show "my_erase_recursive (Suc (Suc fuel)) env root 0 0 0 0 0 sp0 db0 = Some (p, sp1, db1)"
  proof (cases "1 < btree_node_get_count db root")
    case True
    then have spr: "?spr = sp0" by simp
    have m0: "sp0\<lparr>mergepage := 0\<rparr> = sp0" by (simp add: sp0)
    from leaf [unfolded spr] spl [unfolded spr] db1
    have lf: "my_erase_recursive (Suc fuel) env child (next_left_of db0 root slot 0)
      (next_right_of db0 root slot 0) la ra root sp0 db0 = Some (0, sp1, db1)" for la ra
      by simp
    have kk: "sp_key sp0 = key" by (simp add: sp0)
    show ?thesis
      using True inner rootcase
      by (subst my_erase_recursive.simps)
         (simp add: Let_def c0 l0 m0 kk trav lf unw del: my_erase_recursive.simps)
  next
    case False
    then have spr: "?spr = sp0\<lparr>mergepage := root\<rparr>" by simp
    have mz: "mergepage sp0 = 0" by (simp add: sp0)
    from leaf [unfolded spr] spl [unfolded spr] db1
    have lf: "my_erase_recursive (Suc fuel) env child (next_left_of db0 root slot 0)
      (next_right_of db0 root slot 0) la ra root (sp0\<lparr>mergepage := root\<rparr>) db0
        = Some (0, sp1, db1)" for la ra
      by simp
    have kk: "sp_key sp0 = key" by (simp add: sp0)
    show ?thesis
      using False inner rootcase
      by (subst my_erase_recursive.simps)
         (simp add: Let_def c0 l0 mz kk trav lf unw del: my_erase_recursive.simps)
  qed
  show "db_error db1 = 0" by (rule e1)
  show "btree_node_get_count db1 child = btree_node_get_count db child - 1"
    using my_remove_entry_count [OF unc, of s sp0] child(4) by (simp add: db1 c0)
  show "mergepage sp1 \<noteq> 0" by (rule m1)
qed

subsection \<open>The blob store when my_replace_key allocates\<close>

lemma db_blobs_replace_key_overwritten:
  "db_blobs (replace_key_overwritten env page slot rhs flags db) =
     (if key_flags (get_key db (page, slot)) AND KEY_IS_EXTENDED \<noteq> 0
      then db_blobs (snd (blob_free env db (key_get_extended_rid (get_key db (page, slot)))))
      else db_blobs db)"
  by (simp add: replace_key_overwritten_def Let_def)

subsection \<open>Unfolding the model on concrete states\<close>

lemmas accessor_defs =
  db_set_error_def db_fetch_page_def get_node_def set_node_def page_set_dirty_def
  page_set_type_def btree_node_get_count_def btree_node_set_count_def btree_node_is_leaf_def
  btree_node_get_ptr_left_def btree_node_set_ptr_left_def btree_node_get_left_def
  btree_node_set_left_def btree_node_get_right_def btree_node_set_right_def get_key_def
  set_key_def key_set_ptr_def key_get_extended_rid_def key_set_extended_rid_def move_keys_def
  memmove_keys_def offset_bytes_def key_of_slot_def db_uncouple_all_cursors_def blob_read_def
  blob_allocate_def blob_free_def extkey_cache_remove_def txn_free_page_def

lemmas constant_defs =
  HAM_SUCCESS_def HAM_KEY_NOT_FOUND_def HAM_BLOB_NOT_FOUND_def KEY_BLOB_SIZE_TINY_def
  KEY_BLOB_SIZE_SMALL_def KEY_BLOB_SIZE_EMPTY_def KEY_IS_EXTENDED_def PAGE_TYPE_B_ROOT_def
  NOFLUSH_def INTERNAL_KEY_def

lemmas erase_defs =
  my_copy_key_def my_replace_key_copy_def my_replace_key_def my_remove_entry_def
  merge_append_separator_def merge_update_links_def my_merge_pages_def c_div_def
  shift_sibling_left_def shift_sibling_right_def shift_cleanup_def from_sibling_rotate_def
  from_sibling_append_anchor_def from_sibling_move_def from_sibling_update_anchor_def
  shift_from_sibling_def to_sibling_rotate_def to_sibling_insert_anchor_def to_sibling_move_def
  to_sibling_drop_highest_def to_sibling_update_anchor_def shift_to_sibling_def
  my_shift_pages_def my_rebalance_def erase_unwind_def next_left_of_def next_right_of_def
  my_collapse_root_def btree_erase_def

lemmas example_defs =
  ex_get_slot_def ex_traverse_def ex_compare_def ex_alloc_def ex_env_def ex_key_def
  ex_slots_def ex_page_def ex_db_def ex_sp_def

subsection \<open>Facts about the concrete states\<close>

lemma ex_db_extended_keys:
  "get_key ex_db_extended (0x100, 0)
     = \<lparr>key_ptr = 0x300, key_size = 12, key_flags = 8, key_prefix = [30], key_tail = 9\<rparr>"
  "get_key ex_db_extended (0x300, 0)
     = \<lparr>key_ptr = 0x9030, key_size = 11, key_flags = 8, key_prefix = [31], key_tail = 7\<rparr>"
  "db_blobs ex_db_extended = [7 \<mapsto> [1, 2, 3], 9 \<mapsto> [4, 5]]"
  "db_extkey_cache ex_db_extended = None"
  "db_error ex_db_extended = 0"
  "page_dirty (db_pages ex_db_extended 0x100) = False"
  by (simp_all add: ex_db_extended_def ex_key_def get_node_set_key get_key_def set_key_def
      get_node_def set_node_def ex_db_def ex_page_def ex_slots_def)

lemma ex_env_nomem_calls:
  "db_uncouple_all_cursors ex_env_nomem d p = 0"
  "blob_free_status ex_env_nomem d b = 0"
  "blob_alloc ex_env_nomem d x = (- 6, 0)"
  by (simp_all add: ex_env_nomem_def ex_env_def db_uncouple_all_cursors_def)

lemma allocator_fresh_ex_env: "allocator_fresh ex_env"
proof -
  have "snd (ex_alloc db d) \<notin> dom (db_blobs db)" if "fst (ex_alloc db d) = 0" for db d
  proof (cases "filter (\<lambda>i. db_blobs db i = None) [101, 102, 103, 104]")
    case Nil
    with that show ?thesis by (simp add: ex_alloc_def)
  next
    case (Cons i rest)
    then have "i \<in> set (filter (\<lambda>i. db_blobs db i = None) [101, 102, 103, 104])"
      by simp
    then have "db_blobs db i = None"
      by (simp only: set_filter) simp
    with Cons show ?thesis by (simp add: ex_alloc_def domIff)
  qed
  then show ?thesis
    by (simp add: allocator_fresh_def ex_env_def)
qed

lemma ex_alloc_extended:
  "db_blobs d = [7 \<mapsto> [1, 2, 3], 9 \<mapsto> [4, 5]] \<Longrightarrow> blob_alloc ex_env d x = (0, 101)"
  by (simp add: ex_env_def ex_alloc_def)

lemma ex_db_internal_facts:
  "btree_node_get_count ex_db_internal 0x500 = 1"
  "btree_node_get_count ex_db_internal 0x600 = 1"
  "\<not> btree_node_is_leaf ex_db_internal 0x500"
  "btree_node_get_ptr_left ex_db_internal 0x600 = 0x610"
  "get_key ex_db_internal (0x500, 0) = ex_key 20 0x520"
  "get_key ex_db_internal (0x600, 0) = ex_key 60 0x620"
  "get_key ex_db_internal (0x700, 0) = ex_key 40 0x600"
  "get_slot ex_env ex_db_internal 0x700 (key_of_slot ex_db_internal (0x600, 0)) = (0, 0)"
  by (simp_all add: accessor_defs example_defs ex_db_internal_def upt_rec)

lemma ex_env_calls:
  "db_uncouple_all_cursors ex_env d p = 0"
  "txn_free_status ex_env d p = 0"
  by (simp_all add: ex_env_def db_uncouple_all_cursors_def)

lemma ex_db_internal_separator:
  "fst (merge_append_separator ex_env 0x500 0x600 0x700 ex_db_internal) = 0"
  by (simp add: merge_append_separator_def my_copy_key_def Let_def split_beta
      ex_db_internal_facts ex_key_def KEY_IS_EXTENDED_def)

lemma ex_db_full_keys:
  "get_key ex_db_full k = get_key ex_db_extended k"
  "db_blobs ex_db_full = [7 \<mapsto> [1, 2, 3], 9 \<mapsto> [4, 5], 101 \<mapsto> [6], 102 \<mapsto> [7],
                          103 \<mapsto> [8], 104 \<mapsto> [9]]"
  "db_error ex_db_full = 0"
  "page_dirty (db_pages ex_db_full 0x100) = False"
  using ex_db_extended_keys(5,6) by (simp_all add: ex_db_full_def get_key_def get_node_def)

lemma ex_db_wide_facts:
  "btree_node_get_left ex_db_wide 0x300 = 0x200"
  "btree_node_get_right ex_db_wide 0x300 = 0x400"
  "btree_node_get_count ex_db_wide 0x200 = 6"
  "btree_node_get_count ex_db_wide 0x300 = 8"
  "btree_node_get_count ex_db_wide 0x400 = 5"
  "btree_node_is_leaf ex_db_wide 0x200"
  "minkeys ex_env (be_maxkeys (db_backend ex_db_wide)) = 4"
  "get_key ex_db_wide (0x300, 0) = ex_key 30 0x9030"
  by (simp_all add: accessor_defs example_defs ex_db_wide_def)

lemma ex_db_wide_shift_runs:
  "mergepage (fst (snd (my_shift_pages ex_env 0x200 0x300 0x100 ex_sp ex_db_wide))) = 0"
  by (simp add: erase_defs accessor_defs constant_defs example_defs ex_db_wide_def Let_def
      split_beta upt_rec)

lemma ex_db_facts:
  "btree_node_get_left ex_db 0x300 = 0x200"
  "btree_node_get_right ex_db 0x300 = 0x400"
  "btree_node_get_count ex_db 0x200 = 3"
  "btree_node_get_count ex_db 0x300 = 2"
  "btree_node_get_count ex_db 0x400 = 4"
  "btree_node_is_leaf ex_db 0x300"
  "minkeys ex_env (be_maxkeys (db_backend ex_db)) = 2"
  "get_key ex_db (0x400, 0) = ex_key 50 0x9050"
  by (simp_all add: accessor_defs example_defs)

lemma ex_db_shift_runs:
  "mergepage (fst (snd (my_shift_pages ex_env 0x300 0x400 0x100 ex_sp ex_db))) = 0"
  by (simp add: erase_defs accessor_defs constant_defs example_defs Let_def split_beta upt_rec)

lemma ex_env_fail_calls:
  "traverse_tree ex_env_fail = ex_traverse"
  "get_slot ex_env_fail = ex_get_slot"
  "compare_keys ex_env_fail = ex_compare"
  "minkeys ex_env_fail m = m div 2"
  "db_uncouple_all_cursors ex_env_fail d q = (if q = 0x200 \<or> q = 0x400 then - 6 else 0)"
  "txn_free_status ex_env_fail d q = 0"
  by (simp_all add: ex_env_fail_def ex_env_def db_uncouple_all_cursors_def)

lemma ex_env_stuck_calls:
  "traverse_tree ex_env_stuck = ex_traverse"
  "get_slot ex_env_stuck = ex_get_slot"
  "compare_keys ex_env_stuck = ex_compare"
  "minkeys ex_env_stuck m = m div 2"
  "db_uncouple_all_cursors ex_env_stuck d q = (if q = 0x200 \<or> q = 0x400 then - 6 else 0)"
  "txn_free_status ex_env_stuck d q = - 18"
  by (simp_all add: ex_env_stuck_def ex_env_fail_def ex_env_def db_uncouple_all_cursors_def)

lemma ex_db_erase_facts:
  "db_set_error ex_db 0 = ex_db"
  "be_rootpage (db_backend ex_db) = 0x100"
  "be_maxkeys (db_backend ex_db) = 4"
  "btree_node_get_count ex_db 0x100 = 2"
  "\<not> btree_node_is_leaf ex_db 0x100"
  "btree_node_get_ptr_left ex_db 0x100 = 0x200"
  "btree_node_is_leaf ex_db 0x300"
  "btree_node_get_count ex_db 0x300 = 2"
  "btree_node_get_left ex_db 0x300 = 0x200"
  "btree_node_get_right ex_db 0x300 = 0x400"
  "btree_node_get_count ex_db 0x200 = 3"
  "btree_node_get_count ex_db 0x400 = 4"
  "ex_traverse ex_db 0x100 (sp_key ex_sp) = (0x300, 0)"
  "ex_get_slot ex_db 0x300 (sp_key ex_sp) = (0, 1)"
  "ex_compare ex_db 0x300 (sp_key ex_sp) 1 = (0, 0)"
  "next_left_of ex_db 0x100 0 0 = 0x200"
  "next_right_of ex_db 0x100 0 0 = 0x400"
  "get_key ex_db (0x300, 1) = ex_key 35 0x9035"
  by (simp_all add: accessor_defs example_defs next_left_of_def next_right_of_def upt_rec)

section \<open>Claims about the erase code\<close>

text \<open>
  Claim C1 states that \<open>my_replace_key\<close> rolls back when the allocation of the new
  extended blob fails: the key's previous bytes and its previous blob remain, and no new
  blob is installed. The code frees the old blob and overwrites the flags and the key bytes
  before it allocates, and returns the allocator's status as soon as the allocation fails.
  Here the first key of the root (bytes 30, blob 9) is replaced by the first key of the leaf
  \<open>0x300\<close> (bytes 31, blob 7) while the allocator is out of memory: the call returns -6, the
  key bytes are 31 afterwards and blob 9 is gone.
\<close>

theorem replace_key_failed_allocation_is_not_rolled_back:
  "key_flags (get_key ex_db_extended (0x300, 0)) AND KEY_IS_EXTENDED \<noteq> 0
   \<and> fst (blob_alloc ex_env_nomem ex_db_extended [1, 2, 3]) \<noteq> 0
   \<and> fst (my_replace_key ex_env_nomem 0x100 0 (0x300, 0) INTERNAL_KEY ex_db_extended) = - 6
   \<and> key_prefix (get_key ex_db_extended (0x100, 0)) = [30]
   \<and> key_prefix (get_key (snd (my_replace_key ex_env_nomem 0x100 0 (0x300, 0) INTERNAL_KEY
        ex_db_extended)) (0x100, 0)) = [31]
   \<and> key_get_extended_rid (get_key ex_db_extended (0x100, 0)) = 9
   \<and> db_blobs ex_db_extended 9 = Some [4, 5]
   \<and> db_blobs (snd (my_replace_key ex_env_nomem 0x100 0 (0x300, 0) INTERNAL_KEY
        ex_db_extended)) 9 = None"
  by (simp add: my_replace_key_def my_replace_key_copy_def Let_def blob_free_def
      blob_read_def blob_allocate_def key_get_extended_rid_def ex_db_extended_keys
      ex_env_nomem_calls constant_defs)

text \<open>
  Claim C1, as amended: when \<open>rhs\<close> is extended, its blob can be read and the allocation of
  the new blob that this call makes fails, \<open>my_replace_key\<close> returns the allocator's status
  and installs no new blob, and nothing is rolled back: the database is left as it was handed
  to the allocator. An extended blob the key owned before has been freed, the flags and the
  key bytes (with the blob id they end in) are those of \<open>rhs\<close>, without the blob size flags
  for an internal key, while the key's size and pointer, \<open>rhs\<close>, the dirty flag of the page
  and the error of the database are as before.
\<close>

theorem replace_key_allocation_failure_keeps_no_old_key:
  assumes unc: "db_uncouple_all_cursors env db page = 0"
    and ext: "key_flags (get_key db rhs) AND KEY_IS_EXTENDED \<noteq> 0"
    and distinct: "rhs \<noteq> (page, slot)"
    and old_ext: "key_flags (get_key db (page, slot)) AND KEY_IS_EXTENDED \<noteq> 0 \<longrightarrow>
                    blob_free_status env db (key_get_extended_rid (get_key db (page, slot))) = 0
                    \<and> key_get_extended_rid (get_key db (page, slot))
                        \<noteq> key_get_extended_rid (get_key db rhs)"
    and rd: "db_blobs db (key_get_extended_rid (get_key db rhs)) = Some d"
    and fail: "fst (blob_alloc env (replace_key_overwritten env page slot rhs flags db) d) = st"
    and st: "st \<noteq> 0"
  shows "my_replace_key env page slot rhs flags db
           = (st, replace_key_overwritten env page slot rhs flags db)
    \<and> (let db' = snd (my_replace_key env page slot rhs flags db);
            old = get_key db (page, slot);
            new = get_key db' (page, slot)
        in db_blobs db' =
             (if key_flags old AND KEY_IS_EXTENDED \<noteq> 0
              then (db_blobs db)(key_get_extended_rid old := None) else db_blobs db)
           \<and> key_prefix new = key_prefix (get_key db rhs)
           \<and> key_tail new = key_tail (get_key db rhs)
           \<and> key_flags new =
               (if flags AND INTERNAL_KEY \<noteq> 0
                then key_flags (get_key db rhs)
                       AND NOT (KEY_BLOB_SIZE_TINY OR KEY_BLOB_SIZE_SMALL OR KEY_BLOB_SIZE_EMPTY)
                else key_flags (get_key db rhs))
           \<and> key_size new = key_size old
           \<and> key_ptr new = key_ptr old
           \<and> get_key db' rhs = get_key db rhs
           \<and> page_dirty (db_pages db' page) = page_dirty (db_pages db page)
           \<and> db_error db' = db_error db)"
proof -
  let ?D = "replace_key_overwritten env page slot rhs flags db"
  have al: "blob_alloc env ?D d = (st, snd (blob_alloc env ?D d))"
    using fail by (metis prod.collapse)
  have ba: "blob_allocate env ?D d = (st, ?D, 0)"
    using st by (subst blob_allocate_def, subst al) simp
  have free: "snd (blob_free env db (key_get_extended_rid (get_key db (page, slot))))
                = db\<lparr>db_blobs := (db_blobs db)(key_get_extended_rid (get_key db (page, slot)) := None)\<rparr>"
    if "key_flags (get_key db (page, slot)) AND KEY_IS_EXTENDED \<noteq> 0"
    using that old_ext by (simp add: blob_free_def)
  have gk: "get_key (snd (blob_free env d' b)) k = get_key d' k" for d' b k
    by (simp add: get_key_def)
  have keep: "get_key ?D rhs = get_key db rhs"
    using distinct by (simp add: replace_key_overwritten_def Let_def gk)
  have blobs: "db_blobs ?D =
             (if key_flags (get_key db (page, slot)) AND KEY_IS_EXTENDED \<noteq> 0
              then (db_blobs db)(key_get_extended_rid (get_key db (page, slot)) := None)
              else db_blobs db)"
    using free by (simp add: replace_key_overwritten_def Let_def)
  have read: "blob_read ?D (key_get_extended_rid (get_key db rhs)) = (0, d)"
    using rd old_ext by (auto simp add: blob_read_def blobs)
  have fold: "my_replace_key env page slot rhs flags db =
      (let db1 = ?D;
           (st, db2) =
            (if key_flags (get_key db1 rhs) AND KEY_IS_EXTENDED \<noteq> 0 then
               let rhsblobid = key_get_extended_rid (get_key db1 rhs);
                   (st, record) = blob_read db1 rhsblobid
               in if st \<noteq> 0 then (st, db1)
                  else
                    let (st, db1, lhsblobid) = blob_allocate env db1 record
                    in if st \<noteq> 0 then (st, db1)
                       else (0, key_set_extended_rid db1 (page, slot) lhsblobid)
             else (0, db1))
       in if st \<noteq> 0 then (st, db2)
          else
            let db3 = set_key db2 (page, slot)
                        ((get_key db2 (page, slot))\<lparr>key_size := key_size (get_key db2 rhs)\<rparr>);
                db4 = page_set_dirty db3 page
            in (HAM_SUCCESS, db4))"
  proof (cases "key_flags (get_key db (page, slot)) AND KEY_IS_EXTENDED \<noteq> 0")
    case True
    then have "fst (blob_free env db (key_get_extended_rid (get_key db (page, slot)))) = 0"
      using old_ext by (simp add: blob_free_def)
    with True unc show ?thesis
      unfolding my_replace_key_def my_replace_key_copy_def replace_key_overwritten_def
      by (simp only: Let_def split_beta if_True if_False simp_thms fst_conv snd_conv)
  next
    case False
    with unc show ?thesis
      unfolding my_replace_key_def my_replace_key_copy_def replace_key_overwritten_def
      by (simp only: Let_def split_beta if_True if_False simp_thms fst_conv snd_conv)
  qed
  have res: "my_replace_key env page slot rhs flags db = (st, ?D)"
    using ext st by (simp add: fold Let_def keep read ba)
  have fields: "key_prefix (get_key ?D (page, slot)) = key_prefix (get_key db rhs)
      \<and> key_tail (get_key ?D (page, slot)) = key_tail (get_key db rhs)
      \<and> key_flags (get_key ?D (page, slot)) =
               (if flags AND INTERNAL_KEY \<noteq> 0
                then key_flags (get_key db rhs)
                       AND NOT (KEY_BLOB_SIZE_TINY OR KEY_BLOB_SIZE_SMALL OR KEY_BLOB_SIZE_EMPTY)
                else key_flags (get_key db rhs))
      \<and> key_size (get_key ?D (page, slot)) = key_size (get_key db (page, slot))
      \<and> key_ptr (get_key ?D (page, slot)) = key_ptr (get_key db (page, slot))
      \<and> page_dirty (db_pages ?D page) = page_dirty (db_pages db page)
      \<and> db_error ?D = db_error db"
    using distinct free
    by (simp add: replace_key_overwritten_def Let_def gk)
  show ?thesis
    using fields by (simp add: res Let_def keep blobs)
qed

text \<open>
  The amended claim with the allocator of the examples, which has room in the tree with two
  blobs and none once its four ids are taken: the first key of the root is replaced by the
  first key of the leaf \<open>0x300\<close>.
\<close>

theorem replace_key_allocation_failure_keeps_no_old_key_witness:
  "db_uncouple_all_cursors ex_env ex_db_full 0x100 = 0
   \<and> key_flags (get_key ex_db_full (0x300, 0)) AND KEY_IS_EXTENDED \<noteq> 0
   \<and> key_flags (get_key ex_db_full (0x100, 0)) AND KEY_IS_EXTENDED \<noteq> 0
   \<and> db_blobs ex_db_full (key_get_extended_rid (get_key ex_db_full (0x300, 0))) = Some [1, 2, 3]
   \<and> fst (blob_alloc ex_env
            (replace_key_overwritten ex_env 0x100 0 (0x300, 0) INTERNAL_KEY ex_db_full)
            [1, 2, 3]) = - 6
   \<and> fst (blob_alloc ex_env ex_db_extended [1, 2, 3]) = 0
   \<and> fst (my_replace_key ex_env 0x100 0 (0x300, 0) INTERNAL_KEY ex_db_full) = - 6
   \<and> db_blobs (snd (my_replace_key ex_env 0x100 0 (0x300, 0) INTERNAL_KEY ex_db_full)) 9 = None
   \<and> db_blobs (snd (my_replace_key ex_env 0x100 0 (0x300, 0) INTERNAL_KEY ex_db_full)) 7
       = Some [1, 2, 3]
   \<and> get_key (snd (my_replace_key ex_env 0x100 0 (0x300, 0) INTERNAL_KEY ex_db_full)) (0x100, 0)
       = \<lparr>key_ptr = 0x300, key_size = 12, key_flags = 8, key_prefix = [31], key_tail = 7\<rparr>
   \<and> \<not> page_dirty (db_pages (snd (my_replace_key ex_env 0x100 0 (0x300, 0) INTERNAL_KEY
          ex_db_full)) 0x100)"
proof -
  let ?db' = "snd (my_replace_key ex_env 0x100 0 (0x300, 0) INTERNAL_KEY ex_db_full)"
  have unc: "db_uncouple_all_cursors ex_env ex_db_full 0x100 = 0"
    by (simp add: ex_env_calls)
  have ext: "key_flags (get_key ex_db_full (0x300, 0)) AND KEY_IS_EXTENDED \<noteq> 0"
    and old: "key_flags (get_key ex_db_full (0x100, 0)) AND KEY_IS_EXTENDED \<noteq> 0"
    by (simp_all add: ex_db_full_keys ex_db_extended_keys KEY_IS_EXTENDED_def)
  have distinct: "(0x300 :: ham_offset_t, 0 :: int) \<noteq> (0x100, 0)"
    by simp
  have free: "blob_free_status ex_env d b = 0" for d b
    by (simp add: ex_env_def)
  have old_ext: "key_flags (get_key ex_db_full (0x100, 0)) AND KEY_IS_EXTENDED \<noteq> 0 \<longrightarrow>
      blob_free_status ex_env ex_db_full
        (key_get_extended_rid (get_key ex_db_full (0x100, 0))) = 0
      \<and> key_get_extended_rid (get_key ex_db_full (0x100, 0))
          \<noteq> key_get_extended_rid (get_key ex_db_full (0x300, 0))"
    by (simp add: ex_db_full_keys ex_db_extended_keys free key_get_extended_rid_def)
  have rd: "db_blobs ex_db_full (key_get_extended_rid (get_key ex_db_full (0x300, 0)))
              = Some [1, 2, 3]"
    by (simp add: ex_db_full_keys ex_db_extended_keys key_get_extended_rid_def)
  have fail: "fst (blob_alloc ex_env
                (replace_key_overwritten ex_env 0x100 0 (0x300, 0) INTERNAL_KEY ex_db_full)
                [1, 2, 3]) = - 6"
    by (simp add: ex_env_def ex_alloc_def db_blobs_replace_key_overwritten blob_free_def
        ex_db_full_keys ex_db_extended_keys key_get_extended_rid_def KEY_IS_EXTENDED_def)
  have room: "fst (blob_alloc ex_env ex_db_extended [1, 2, 3]) = 0"
    by (simp add: ex_alloc_extended ex_db_extended_keys)
  have st: "(- 6 :: ham_status_t) \<noteq> 0"
    by simp
  note t = replace_key_allocation_failure_keeps_no_old_key
             [OF unc ext distinct old_ext rd fail st, THEN conjunct2]
  note r = replace_key_allocation_failure_keeps_no_old_key
             [OF unc ext distinct old_ext rd fail st, THEN conjunct1]
  from r have res: "fst (my_replace_key ex_env 0x100 0 (0x300, 0) INTERNAL_KEY ex_db_full) = - 6"
    by simp
  from t old have blobs: "db_blobs ?db' 9 = None" "db_blobs ?db' 7 = Some [1, 2, 3]"
    by (simp_all add: Let_def ex_db_full_keys ex_db_extended_keys key_get_extended_rid_def)
  from t have "key_prefix (get_key ?db' (0x100, 0)) = [31]"
    and "key_tail (get_key ?db' (0x100, 0)) = 7"
    and "key_flags (get_key ?db' (0x100, 0)) = 8"
    and "key_size (get_key ?db' (0x100, 0)) = 12"
    and "key_ptr (get_key ?db' (0x100, 0)) = 0x300"
    by (simp_all add: Let_def ex_db_full_keys ex_db_extended_keys constant_defs)
  then have key: "get_key ?db' (0x100, 0)
       = \<lparr>key_ptr = 0x300, key_size = 12, key_flags = 8, key_prefix = [31], key_tail = 7\<rparr>"
    by (cases "get_key ?db' (0x100, 0)") simp
  from t have dirty: "\<not> page_dirty (db_pages ?db' 0x100)"
    by (simp add: Let_def ex_db_full_keys)
  from unc ext old rd fail room res blobs key dirty show ?thesis
    by simp
qed



text \<open>
  Claim C3 states that \<open>my_shift_pages\<close> still runs its cleanup when the number of slots to
  move is zero: the two pages and the anchor are marked dirty and \<open>mergepage\<close> is cleared.
  When the two counts are equal the function returns before anything else is done: here
  both leaves hold two keys, and after the call \<open>mergepage\<close> is still set and no page is
  dirty.
\<close>

theorem shift_pages_equal_counts_skip_cleanup:
  "btree_node_get_count ex_db_equal 0x300 = 2
   \<and> btree_node_get_count ex_db_equal 0x400 = 2
   \<and> my_shift_pages ex_env 0x300 0x400 0x100 ex_sp ex_db_equal = (0, ex_sp, ex_db_equal)
   \<and> mergepage ex_sp = 0x300
   \<and> \<not> page_dirty (db_pages ex_db_equal 0x300)
   \<and> \<not> page_dirty (db_pages ex_db_equal 0x400)
   \<and> \<not> page_dirty (db_pages ex_db_equal 0x100)"
  by (simp add: my_shift_pages_def btree_node_get_count_def get_node_def ex_db_equal_def
      ex_db_def ex_page_def ex_sp_def)

text \<open>
  Claim C3, as amended. A call on two pages with equal counts returns at once and changes
  nothing. Otherwise the number \<open>c\<close> is half the difference of the two counts, rounded
  towards zero, read when \<open>c\<close> is computed: for leaves these are the counts at the call, for
  internal nodes the counts after one key was rotated through the anchor, and of these \<open>c\<close>
  slots an internal node moves \<open>c - 1\<close> in bulk, the anchor key taking the place of one.
  When \<open>c\<close> is zero (and the cursors uncouple) the call does the cleanup only, for
  internal nodes on the database the rotation has left; and every call that reaches the
  cleanup marks the two pages and the anchor dirty, clears \<open>mergepage\<close> and leaves the
  counts and slots given below.
\<close>

theorem shift_pages_moves_half_the_difference:
  assumes ret: "my_shift_pages env page sibpage anchor scratchpad db = (r, scratchpad', db')"
    and dist: "page \<noteq> sibpage" "anchor \<noteq> page" "anchor \<noteq> sibpage"
  shows
    "(btree_node_get_count db page = btree_node_get_count db sibpage
        \<longrightarrow> r = 0 \<and> scratchpad' = scratchpad \<and> db' = db)
   \<and> (btree_node_get_count db page \<noteq> btree_node_get_count db sibpage
        \<and> db_uncouple_all_cursors env db page = 0
        \<and> db_uncouple_all_cursors env db sibpage = 0
        \<and> (anchor \<noteq> 0 \<longrightarrow> db_uncouple_all_cursors env db anchor = 0)
        \<and> btree_node_is_leaf db page
        \<and> \<bar>btree_node_get_count db sibpage - btree_node_get_count db page\<bar> div 2 = 0
        \<longrightarrow> (r, scratchpad', db') = shift_cleanup page anchor sibpage scratchpad db)
   \<and> (btree_node_get_count db page \<noteq> btree_node_get_count db sibpage
        \<and> db_uncouple_all_cursors env db page = 0
        \<and> db_uncouple_all_cursors env db sibpage = 0
        \<and> (anchor \<noteq> 0 \<longrightarrow> db_uncouple_all_cursors env db anchor = 0)
        \<and> \<not> btree_node_is_leaf db page
        \<and> (if btree_node_get_count db page < btree_node_get_count db sibpage
            then from_sibling_rotate env page sibpage anchor db
            else to_sibling_rotate env page sibpage anchor db) = Inr (slot, rotated)
        \<and> \<bar>btree_node_get_count rotated sibpage - btree_node_get_count rotated page\<bar> div 2 = 0
        \<longrightarrow> (r, scratchpad', db') = shift_cleanup page anchor sibpage scratchpad rotated)
   \<and> (btree_node_get_count db page \<noteq> btree_node_get_count db sibpage
        \<and> mergepage scratchpad \<noteq> 0 \<and> mergepage scratchpad' = 0
        \<longrightarrow> r = 0 \<and> scratchpad' = scratchpad\<lparr>mergepage := 0\<rparr>
          \<and> page_dirty (db_pages db' page) \<and> page_dirty (db_pages db' anchor)
          \<and> page_dirty (db_pages db' sibpage)
          \<and> (let n = btree_node_get_count db page;
                   s = btree_node_get_count db sibpage
               in (btree_node_is_leaf db page \<and> n < s \<longrightarrow>
                     (let c = (s - n) div 2
                      in btree_node_get_count db' page = n + c
                         \<and> btree_node_get_count db' sibpage = s - c
                         \<and> (\<forall>i. 0 \<le> i \<and> i < c
                               \<longrightarrow> get_key db' (page, n + i) = get_key db (sibpage, i))
                         \<and> (\<forall>i. 0 \<le> i \<and> i < n
                               \<longrightarrow> get_key db' (page, i) = get_key db (page, i))
                         \<and> (\<forall>i. 0 \<le> i \<and> i < s - c
                               \<longrightarrow> get_key db' (sibpage, i) = get_key db (sibpage, c + i))))
                \<and> (btree_node_is_leaf db page \<and> s < n \<longrightarrow>
                     (let c = (n - s) div 2
                      in btree_node_get_count db' page = n - c
                         \<and> btree_node_get_count db' sibpage = s + c
                         \<and> (\<forall>i. 0 \<le> i \<and> i < c
                               \<longrightarrow> get_key db' (sibpage, i) = get_key db (page, n - c + i))
                         \<and> (\<forall>i. get_key db' (page, i) = get_key db (page, i))
                         \<and> (\<forall>i. 0 \<le> i \<and> i < s
                               \<longrightarrow> get_key db' (sibpage, c + i) = get_key db (sibpage, i))))
                \<and> (\<not> btree_node_is_leaf db page \<and> n < s \<longrightarrow>
                     (let c = c_div (s - 1 - (n + 1)) 2
                      in btree_node_get_count db' page = n + 1 + c
                         \<and> btree_node_get_count db' sibpage = s - 1 - c
                         \<and> (\<forall>i. 0 \<le> i \<and> i < c - 1
                               \<longrightarrow> get_key db' (page, n + 2 + i) = get_key db (sibpage, 1 + i))
                         \<and> (\<forall>i. 0 \<le> i \<and> i < n
                               \<longrightarrow> get_key db' (page, i) = get_key db (page, i))
                         \<and> (\<forall>i. 0 \<le> i \<and> i < s - 1 - c
                               \<longrightarrow> get_key db' (sibpage, i) = get_key db (sibpage, i + c + 1))))
                \<and> (\<not> btree_node_is_leaf db page \<and> s < n \<longrightarrow>
                     (let c = c_div (n - 1 - (s + 1)) 2
                      in btree_node_get_count db' page = n - 1 - c
                         \<and> btree_node_get_count db' sibpage = s + 1 + c
                         \<and> (\<forall>i. 0 \<le> i \<and> i < c - 1
                               \<longrightarrow> get_key db' (sibpage, i) = get_key db (page, n - c + i))
                         \<and> (\<forall>i. get_key db' (page, i) = get_key db (page, i))
                         \<and> (\<forall>i. 0 \<le> i \<and> i < s
                               \<longrightarrow> get_key db' (sibpage, c + 1 + i) = get_key db (sibpage, i))))))"
proof (intro conjI impI)
  assume "btree_node_get_count db page = btree_node_get_count db sibpage"
  with ret show "r = 0" and "scratchpad' = scratchpad" and "db' = db"
    by (simp_all add: my_shift_pages_def)
next
  assume a: "btree_node_get_count db page \<noteq> btree_node_get_count db sibpage
        \<and> db_uncouple_all_cursors env db page = 0
        \<and> db_uncouple_all_cursors env db sibpage = 0
        \<and> (anchor \<noteq> 0 \<longrightarrow> db_uncouple_all_cursors env db anchor = 0)
        \<and> btree_node_is_leaf db page
        \<and> \<bar>btree_node_get_count db sibpage - btree_node_get_count db page\<bar> div 2 = 0"
  have "c_div (btree_node_get_count db sibpage - btree_node_get_count db page) 2 = 0"
    if "btree_node_get_count db page < btree_node_get_count db sibpage"
    using that a by (simp add: c_div_nonneg)
  moreover have "c_div (btree_node_get_count db page - btree_node_get_count db sibpage) 2 = 0"
    if "btree_node_get_count db sibpage < btree_node_get_count db page"
    using that a by (simp add: c_div_nonneg abs_if split: if_splits)
  ultimately show "(r, scratchpad', db') = shift_cleanup page anchor sibpage scratchpad db"
    using a ret [symmetric]
    by (cases "btree_node_get_count db page < btree_node_get_count db sibpage")
       (auto simp add: my_shift_pages_def Let_def db_fetch_page_def shift_from_sibling_def
          shift_to_sibling_def)
next
  assume a: "btree_node_get_count db page \<noteq> btree_node_get_count db sibpage
        \<and> db_uncouple_all_cursors env db page = 0
        \<and> db_uncouple_all_cursors env db sibpage = 0
        \<and> (anchor \<noteq> 0 \<longrightarrow> db_uncouple_all_cursors env db anchor = 0)
        \<and> \<not> btree_node_is_leaf db page
        \<and> (if btree_node_get_count db page < btree_node_get_count db sibpage
            then from_sibling_rotate env page sibpage anchor db
            else to_sibling_rotate env page sibpage anchor db) = Inr (slot, rotated)
        \<and> \<bar>btree_node_get_count rotated sibpage - btree_node_get_count rotated page\<bar> div 2 = 0"
  then have zero: "c_div (btree_node_get_count rotated sibpage - btree_node_get_count rotated page) 2 = 0"
    "c_div (btree_node_get_count rotated page - btree_node_get_count rotated sibpage) 2 = 0"
    by (simp_all add: c_div_def abs_if split: if_splits)
  show "(r, scratchpad', db') = shift_cleanup page anchor sibpage scratchpad rotated"
  proof (cases "btree_node_get_count db page < btree_node_get_count db sibpage")
    case True
    with a zero ret [symmetric] show ?thesis
      by (auto simp add: my_shift_pages_def Let_def db_fetch_page_def shift_from_sibling_def)
  next
    case False
    with a zero ret [symmetric] show ?thesis
      by (auto simp add: my_shift_pages_def Let_def db_fetch_page_def shift_to_sibling_def)
  qed
next
  assume a: "btree_node_get_count db page \<noteq> btree_node_get_count db sibpage
        \<and> mergepage scratchpad \<noteq> 0 \<and> mergepage scratchpad' = 0"
  then have ne: "btree_node_get_count db page \<noteq> btree_node_get_count db sibpage"
    and ran: "mergepage scratchpad \<noteq> 0" "mergepage scratchpad' = 0"
    by simp_all
  have dist': "page \<noteq> sibpage" "anchor \<noteq> page" "anchor \<noteq> sibpage"
    using dist .
  have branch: "(if btree_node_get_count db page \<le> btree_node_get_count db sibpage
      then shift_from_sibling env (\<not> btree_node_is_leaf db page) page sibpage anchor anchor
             scratchpad db
      else shift_to_sibling env (\<not> btree_node_is_leaf db page) page sibpage anchor anchor
             scratchpad db) = (r, scratchpad', db')"
    using ret ne ran
    by (auto simp add: my_shift_pages_def Let_def db_fetch_page_def split: if_splits)
  consider (fl) "btree_node_is_leaf db page"
        "btree_node_get_count db page < btree_node_get_count db sibpage"
    | (tl) "btree_node_is_leaf db page"
        "btree_node_get_count db sibpage < btree_node_get_count db page"
    | (fi) "\<not> btree_node_is_leaf db page"
        "btree_node_get_count db page < btree_node_get_count db sibpage"
    | (ti) "\<not> btree_node_is_leaf db page"
        "btree_node_get_count db sibpage < btree_node_get_count db page"
    using ne by linarith
  then have main: "r = 0 \<and> scratchpad' = scratchpad\<lparr>mergepage := 0\<rparr>
          \<and> page_dirty (db_pages db' page) \<and> page_dirty (db_pages db' anchor)
          \<and> page_dirty (db_pages db' sibpage)
          \<and> (let n = btree_node_get_count db page;
                   s = btree_node_get_count db sibpage
               in (btree_node_is_leaf db page \<and> n < s \<longrightarrow>
                     (let c = (s - n) div 2
                      in btree_node_get_count db' page = n + c
                         \<and> btree_node_get_count db' sibpage = s - c
                         \<and> (\<forall>i. 0 \<le> i \<and> i < c
                               \<longrightarrow> get_key db' (page, n + i) = get_key db (sibpage, i))
                         \<and> (\<forall>i. 0 \<le> i \<and> i < n
                               \<longrightarrow> get_key db' (page, i) = get_key db (page, i))
                         \<and> (\<forall>i. 0 \<le> i \<and> i < s - c
                               \<longrightarrow> get_key db' (sibpage, i) = get_key db (sibpage, c + i))))
                \<and> (btree_node_is_leaf db page \<and> s < n \<longrightarrow>
                     (let c = (n - s) div 2
                      in btree_node_get_count db' page = n - c
                         \<and> btree_node_get_count db' sibpage = s + c
                         \<and> (\<forall>i. 0 \<le> i \<and> i < c
                               \<longrightarrow> get_key db' (sibpage, i) = get_key db (page, n - c + i))
                         \<and> (\<forall>i. get_key db' (page, i) = get_key db (page, i))
                         \<and> (\<forall>i. 0 \<le> i \<and> i < s
                               \<longrightarrow> get_key db' (sibpage, c + i) = get_key db (sibpage, i))))
                \<and> (\<not> btree_node_is_leaf db page \<and> n < s \<longrightarrow>
                     (let c = c_div (s - 1 - (n + 1)) 2
                      in btree_node_get_count db' page = n + 1 + c
                         \<and> btree_node_get_count db' sibpage = s - 1 - c
                         \<and> (\<forall>i. 0 \<le> i \<and> i < c - 1
                               \<longrightarrow> get_key db' (page, n + 2 + i) = get_key db (sibpage, 1 + i))
                         \<and> (\<forall>i. 0 \<le> i \<and> i < n
                               \<longrightarrow> get_key db' (page, i) = get_key db (page, i))
                         \<and> (\<forall>i. 0 \<le> i \<and> i < s - 1 - c
                               \<longrightarrow> get_key db' (sibpage, i) = get_key db (sibpage, i + c + 1))))
                \<and> (\<not> btree_node_is_leaf db page \<and> s < n \<longrightarrow>
                     (let c = c_div (n - 1 - (s + 1)) 2
                      in btree_node_get_count db' page = n - 1 - c
                         \<and> btree_node_get_count db' sibpage = s + 1 + c
                         \<and> (\<forall>i. 0 \<le> i \<and> i < c - 1
                               \<longrightarrow> get_key db' (sibpage, i) = get_key db (page, n - c + i))
                         \<and> (\<forall>i. get_key db' (page, i) = get_key db (page, i))
                         \<and> (\<forall>i. 0 \<le> i \<and> i < s
                               \<longrightarrow> get_key db' (sibpage, c + 1 + i) = get_key db (sibpage, i)))))"
  proof cases
    case fl
    define n where "n = btree_node_get_count db page"
    define s where "s = btree_node_get_count db sibpage"
    define c where "c = (s - n) div 2"
    have b: "0 \<le> n" "n < s" "s < 65536"
      using fl by (simp_all add: n_def s_def)
    from branch fl have sh: "shift_from_sibling env False page sibpage anchor anchor scratchpad db
        = (r, scratchpad', db')"
      by simp
    note res = shift_from_sibling_leaf [OF sh ran dist' fl(2), folded n_def s_def, folded c_def]
    have "btree_node_get_count db' page = n + c"
      using b res unfolding c_def
      by (simp add: btree_node_get_count_def [of db'] uint16_of_int del: of_int_add of_int_diff)
    moreover have "btree_node_get_count db' sibpage = s - c"
      using b res unfolding c_def
      by (simp add: btree_node_get_count_def [of db'] uint16_of_int del: of_int_add of_int_diff)
    moreover have "\<forall>i. 0 \<le> i \<and> i < c \<longrightarrow> get_key db' (page, n + i) = get_key db (sibpage, i)"
      using res by (simp add: get_key_def move_keys_def)
    moreover have "\<forall>i. 0 \<le> i \<and> i < n \<longrightarrow> get_key db' (page, i) = get_key db (page, i)"
      using res by (simp add: get_key_def move_keys_def)
    moreover have "\<forall>i. 0 \<le> i \<and> i < s - c
        \<longrightarrow> get_key db' (sibpage, i) = get_key db (sibpage, c + i)"
      using res by (simp add: get_key_def move_keys_def)
    ultimately show ?thesis
      using res fl unfolding Let_def c_def n_def s_def by simp
  next
    case tl
    define n where "n = btree_node_get_count db page"
    define s where "s = btree_node_get_count db sibpage"
    define c where "c = (n - s) div 2"
    have b: "0 \<le> s" "s < n" "n < 65536"
      using tl by (simp_all add: n_def s_def)
    from branch tl have sh: "shift_to_sibling env False page sibpage anchor anchor scratchpad db
        = (r, scratchpad', db')"
      by simp
    note res = shift_to_sibling_leaf [OF sh ran dist' tl(2), folded n_def s_def, folded c_def]
    have "btree_node_get_count db' page = n - c"
      using b res unfolding c_def
      by (simp add: btree_node_get_count_def [of db'] uint16_of_int del: of_int_add of_int_diff)
    moreover have "btree_node_get_count db' sibpage = s + c"
      using b res unfolding c_def
      by (simp add: btree_node_get_count_def [of db'] uint16_of_int del: of_int_add of_int_diff)
    moreover have "\<forall>i. 0 \<le> i \<and> i < c
        \<longrightarrow> get_key db' (sibpage, i) = get_key db (page, n - c + i)"
      using res by (simp add: get_key_def move_keys_def)
    moreover have "\<forall>i. get_key db' (page, i) = get_key db (page, i)"
      using res by (simp add: get_key_def move_keys_def)
    moreover have "\<forall>i. 0 \<le> i \<and> i < s
        \<longrightarrow> get_key db' (sibpage, c + i) = get_key db (sibpage, i)"
      using res b unfolding c_def by (auto simp add: get_key_def move_keys_def)
    ultimately show ?thesis
      using res tl unfolding Let_def c_def n_def s_def by simp
  next
    case fi
    from branch fi have sh: "shift_from_sibling env True page sibpage anchor anchor scratchpad db
        = (r, scratchpad', db')"
      by simp
    have e: "btree_node_get_count db sibpage - 1 - (btree_node_get_count db page + 1)
        = btree_node_get_count db sibpage - btree_node_get_count db page - 2"
      by simp
    show ?thesis
      using shift_from_sibling_intern [OF sh ran dist' fi(2)] fi
      unfolding Let_def e by simp
  next
    case ti
    from branch ti have sh: "shift_to_sibling env True page sibpage anchor anchor scratchpad db
        = (r, scratchpad', db')"
      by simp
    have e: "btree_node_get_count db page - 1 - (btree_node_get_count db sibpage + 1)
        = btree_node_get_count db page - btree_node_get_count db sibpage - 2"
      by simp
    show ?thesis
      using shift_to_sibling_intern [OF sh ran dist' ti(2)] ti
      unfolding Let_def e by simp
  qed
  from main show "r = 0" by simp
  from main show "scratchpad' = scratchpad\<lparr>mergepage := 0\<rparr>" by simp
  from main show "page_dirty (db_pages db' page)" by simp
  from main show "page_dirty (db_pages db' anchor)" by simp
  from main show "page_dirty (db_pages db' sibpage)" by simp
  from main show "let n = btree_node_get_count db page;
                   s = btree_node_get_count db sibpage
               in (btree_node_is_leaf db page \<and> n < s \<longrightarrow>
                     (let c = (s - n) div 2
                      in btree_node_get_count db' page = n + c
                         \<and> btree_node_get_count db' sibpage = s - c
                         \<and> (\<forall>i. 0 \<le> i \<and> i < c
                               \<longrightarrow> get_key db' (page, n + i) = get_key db (sibpage, i))
                         \<and> (\<forall>i. 0 \<le> i \<and> i < n
                               \<longrightarrow> get_key db' (page, i) = get_key db (page, i))
                         \<and> (\<forall>i. 0 \<le> i \<and> i < s - c
                               \<longrightarrow> get_key db' (sibpage, i) = get_key db (sibpage, c + i))))
                \<and> (btree_node_is_leaf db page \<and> s < n \<longrightarrow>
                     (let c = (n - s) div 2
                      in btree_node_get_count db' page = n - c
                         \<and> btree_node_get_count db' sibpage = s + c
                         \<and> (\<forall>i. 0 \<le> i \<and> i < c
                               \<longrightarrow> get_key db' (sibpage, i) = get_key db (page, n - c + i))
                         \<and> (\<forall>i. get_key db' (page, i) = get_key db (page, i))
                         \<and> (\<forall>i. 0 \<le> i \<and> i < s
                               \<longrightarrow> get_key db' (sibpage, c + i) = get_key db (sibpage, i))))
                \<and> (\<not> btree_node_is_leaf db page \<and> n < s \<longrightarrow>
                     (let c = c_div (s - 1 - (n + 1)) 2
                      in btree_node_get_count db' page = n + 1 + c
                         \<and> btree_node_get_count db' sibpage = s - 1 - c
                         \<and> (\<forall>i. 0 \<le> i \<and> i < c - 1
                               \<longrightarrow> get_key db' (page, n + 2 + i) = get_key db (sibpage, 1 + i))
                         \<and> (\<forall>i. 0 \<le> i \<and> i < n
                               \<longrightarrow> get_key db' (page, i) = get_key db (page, i))
                         \<and> (\<forall>i. 0 \<le> i \<and> i < s - 1 - c
                               \<longrightarrow> get_key db' (sibpage, i) = get_key db (sibpage, i + c + 1))))
                \<and> (\<not> btree_node_is_leaf db page \<and> s < n \<longrightarrow>
                     (let c = c_div (n - 1 - (s + 1)) 2
                      in btree_node_get_count db' page = n - 1 - c
                         \<and> btree_node_get_count db' sibpage = s + 1 + c
                         \<and> (\<forall>i. 0 \<le> i \<and> i < c - 1
                               \<longrightarrow> get_key db' (sibpage, i) = get_key db (page, n - c + i))
                         \<and> (\<forall>i. get_key db' (page, i) = get_key db (page, i))
                         \<and> (\<forall>i. 0 \<le> i \<and> i < s
                               \<longrightarrow> get_key db' (sibpage, c + 1 + i) = get_key db (sibpage, i))))"
    by (elim conjE)
qed

text \<open>The leaf \<open>0x300\<close> with two keys takes one key from its right neighbour with four.\<close>

theorem shift_pages_moves_half_the_difference_witness:
  "(0x300 :: ham_offset_t) \<noteq> 0x400 \<and> (0x100 :: ham_offset_t) \<noteq> 0x300
   \<and> (0x100 :: ham_offset_t) \<noteq> 0x400
   \<and> btree_node_get_count ex_db 0x300 = 2 \<and> btree_node_get_count ex_db 0x400 = 4
   \<and> btree_node_is_leaf ex_db 0x300
   \<and> mergepage ex_sp \<noteq> 0
   \<and> mergepage (fst (snd (my_shift_pages ex_env 0x300 0x400 0x100 ex_sp ex_db))) = 0
   \<and> btree_node_get_count (snd (snd (my_shift_pages ex_env 0x300 0x400 0x100 ex_sp ex_db))) 0x300 = 3
   \<and> btree_node_get_count (snd (snd (my_shift_pages ex_env 0x300 0x400 0x100 ex_sp ex_db))) 0x400 = 3
   \<and> get_key (snd (snd (my_shift_pages ex_env 0x300 0x400 0x100 ex_sp ex_db))) (0x300, 2)
       = ex_key 50 0x9050
   \<and> get_key (snd (snd (my_shift_pages ex_env 0x300 0x400 0x100 ex_sp ex_db))) (0x400, 0)
       = ex_key 60 0x9060
   \<and> page_dirty (db_pages (snd (snd (my_shift_pages ex_env 0x300 0x400 0x100 ex_sp ex_db))) 0x100)"
proof -
  let ?X = "my_shift_pages ex_env 0x300 0x400 0x100 ex_sp ex_db"
  have ran: "mergepage (fst (snd ?X)) = 0"
    by (simp add: erase_defs accessor_defs constant_defs example_defs Let_def split_beta upt_rec)
  have n: "btree_node_get_count ex_db 0x300 = 2" and s: "btree_node_get_count ex_db 0x400 = 4"
    and leaf: "btree_node_is_leaf ex_db 0x300" and mp: "mergepage ex_sp \<noteq> 0"
    and k0: "get_key ex_db (0x400, 0) = ex_key 50 0x9050"
    and k1: "get_key ex_db (0x400, 1) = ex_key 60 0x9060"
    by (simp_all add: accessor_defs example_defs)
  have d: "(0x300 :: ham_offset_t) \<noteq> 0x400" "(0x100 :: ham_offset_t) \<noteq> 0x300"
    "(0x100 :: ham_offset_t) \<noteq> 0x400"
    by simp_all
  have X: "?X = (fst ?X, fst (snd ?X), snd (snd ?X))"
    by simp
  note t = shift_pages_moves_half_the_difference [OF X d]
  from t ran n s leaf mp
  have c1: "btree_node_get_count (snd (snd ?X)) 0x300 = 3"
    and c2: "btree_node_get_count (snd (snd ?X)) 0x400 = 3"
    and m1: "\<forall>i. 0 \<le> i \<and> i < 1
               \<longrightarrow> get_key (snd (snd ?X)) (0x300, 2 + i) = get_key ex_db (0x400, i)"
    and m2: "\<forall>i. 0 \<le> i \<and> i < 3
               \<longrightarrow> get_key (snd (snd ?X)) (0x400, i) = get_key ex_db (0x400, 1 + i)"
    and dirty: "page_dirty (db_pages (snd (snd ?X)) 0x100)"
    by (simp_all add: Let_def)
  from m1 [rule_format, of 0] m2 [rule_format, of 0] c1 c2 dirty
  have "btree_node_get_count (snd (snd ?X)) 0x300 = 3"
    and "btree_node_get_count (snd (snd ?X)) 0x400 = 3"
    and "get_key (snd (snd ?X)) (0x300, 2) = get_key ex_db (0x400, 0)"
    and "get_key (snd (snd ?X)) (0x400, 0) = get_key ex_db (0x400, 1)"
    and "page_dirty (db_pages (snd (snd ?X)) 0x100)"
    by simp_all
  then show ?thesis
    using ran n s leaf mp k0 k1 by simp
qed


text \<open>
  Claim C6: after a successful \<open>my_copy_key\<close> from an extended key \<open>rhs\<close> to another key
  \<open>lhs\<close>, with an allocator that hands out unused blob ids, the blob id of \<open>lhs\<close> differs from
  that of \<open>rhs\<close>, \<open>rhs\<close> is unchanged, and the new blob holds the bytes of the blob of \<open>rhs\<close>.
\<close>

theorem copy_key_allocates_new_blob:
  assumes ok: "my_copy_key env lhs rhs db = (0, db')"
    and ext: "key_flags (get_key db rhs) AND KEY_IS_EXTENDED \<noteq> 0"
    and distinct: "lhs \<noteq> rhs"
    and fresh: "allocator_fresh env"
  shows "key_get_extended_rid (get_key db' lhs) \<noteq> key_get_extended_rid (get_key db rhs)
         \<and> get_key db' rhs = get_key db rhs
         \<and> db_blobs db' (key_get_extended_rid (get_key db' lhs))
             = db_blobs db (key_get_extended_rid (get_key db rhs))
         \<and> db_blobs db (key_get_extended_rid (get_key db rhs)) \<noteq> None"
proof -
  let ?db1 = "set_key db lhs (get_key db rhs)"
  let ?rid = "key_tail (get_key db rhs)"
  from distinct have rhs1: "get_key ?db1 rhs = get_key db rhs" by simp
  obtain d where rd: "db_blobs db ?rid = Some d"
    using ok ext rhs1 distinct
    by (cases "db_blobs db ?rid")
       (auto simp add: my_copy_key_def Let_def blob_read_def key_get_extended_rid_def
          HAM_BLOB_NOT_FOUND_def)
  obtain st new where al: "blob_alloc env ?db1 d = (st, new)"
    by (cases "blob_alloc env ?db1 d")
  from ok ext rhs1 distinct rd al have st0: "st = 0"
    by (auto simp add: my_copy_key_def Let_def blob_read_def key_get_extended_rid_def
          blob_allocate_def split: if_splits)
  from ok ext rhs1 distinct rd al st0
  have db': "db' = key_set_extended_rid (?db1\<lparr>db_blobs := (db_blobs ?db1)(new \<mapsto> d)\<rparr>) lhs new"
    by (auto simp add: my_copy_key_def Let_def blob_read_def key_get_extended_rid_def
          blob_allocate_def split: if_splits)
  from fresh al st0 have "new \<notin> dom (db_blobs ?db1)"
    unfolding allocator_fresh_def by (metis fst_conv snd_conv)
  then have newfree: "db_blobs db new = None" by (simp add: domIff)
  with rd have neq: "new \<noteq> ?rid" by auto
  show ?thesis
    using neq rd distinct
    by (cases lhs; cases rhs)
       (auto simp add: db' key_get_extended_rid_def key_set_extended_rid_def get_key_def
          set_key_def get_node_def set_node_def)
qed

text \<open>The extended first key of the leaf \<open>0x300\<close> is copied behind the keys of \<open>0x200\<close>.\<close>

theorem copy_key_allocates_new_blob_witness:
  "allocator_fresh ex_env
   \<and> key_flags (get_key ex_db_extended (0x300, 0)) AND KEY_IS_EXTENDED \<noteq> 0
   \<and> key_get_extended_rid (get_key ex_db_extended (0x300, 0)) = 7
   \<and> fst (my_copy_key ex_env (0x200, 3) (0x300, 0) ex_db_extended) = 0
   \<and> key_get_extended_rid
        (get_key (snd (my_copy_key ex_env (0x200, 3) (0x300, 0) ex_db_extended)) (0x200, 3)) \<noteq> 7
   \<and> get_key (snd (my_copy_key ex_env (0x200, 3) (0x300, 0) ex_db_extended)) (0x300, 0)
       = get_key ex_db_extended (0x300, 0)
   \<and> db_blobs (snd (my_copy_key ex_env (0x200, 3) (0x300, 0) ex_db_extended))
        (key_get_extended_rid
          (get_key (snd (my_copy_key ex_env (0x200, 3) (0x300, 0) ex_db_extended)) (0x200, 3)))
       = Some [1, 2, 3]"
proof -
  let ?X = "my_copy_key ex_env (0x200, 3) (0x300, 0) ex_db_extended"
  have ext: "key_flags (get_key ex_db_extended (0x300, 0)) AND KEY_IS_EXTENDED \<noteq> 0"
    by (simp add: ex_db_extended_keys KEY_IS_EXTENDED_def)
  have rid: "key_get_extended_rid (get_key ex_db_extended (0x300, 0)) = 7"
    and blob: "db_blobs ex_db_extended 7 = Some [1, 2, 3]"
    by (simp_all add: ex_db_extended_keys key_get_extended_rid_def)
  have distinct: "(0x200 :: ham_offset_t, 3 :: int) \<noteq> (0x300, 0)"
    by simp
  have ok0: "fst ?X = 0"
    by (simp add: my_copy_key_def Let_def split_beta blob_read_def blob_allocate_def
        key_get_extended_rid_def ex_db_extended_keys ex_alloc_extended KEY_IS_EXTENDED_def)
  then have ok: "?X = (0, snd ?X)"
    by (metis prod.collapse)
  note t = copy_key_allocates_new_blob [OF ok ext distinct allocator_fresh_ex_env]
  from t rid blob ext ok0 allocator_fresh_ex_env show ?thesis
    by simp
qed
text \<open>
  Claim C7: \<open>btree_erase\<close> returns \<open>HAM_KEY_NOT_FOUND\<close>, which is not the status of success,
  when the tree has no root page and when the root node holds no key; in both cases the
  pages of the tree are as before, and the database records the status as its error.
\<close>

theorem erase_on_empty_tree_is_not_found:
  "HAM_KEY_NOT_FOUND \<noteq> 0
   \<and> (be_rootpage (db_backend db) = 0 \<longrightarrow>
        btree_erase fuel env key rid intflags flags db =
          Some (HAM_KEY_NOT_FOUND,
                \<lparr>sp_flags = flags, sp_key = key, sp_rid = rid, sp_intflags = intflags,
                 mergepage = 0\<rparr>,
                db\<lparr>db_error := HAM_KEY_NOT_FOUND\<rparr>))
   \<and> (be_rootpage (db_backend db) \<noteq> 0
        \<and> btree_node_get_count db (be_rootpage (db_backend db)) = 0 \<longrightarrow>
        btree_erase (Suc fuel) env key rid intflags flags db =
          Some (HAM_KEY_NOT_FOUND,
                \<lparr>sp_flags = flags, sp_key = key, sp_rid = rid, sp_intflags = intflags,
                 mergepage = 0\<rparr>,
                db\<lparr>db_error := HAM_KEY_NOT_FOUND\<rparr>))"
  by (simp add: btree_erase_def Let_def db_set_error_def db_fetch_page_def HAM_KEY_NOT_FOUND_def
      btree_node_get_count_def get_node_def)

text \<open>A database without a root page, and one whose root \<open>0x900\<close> is an empty node.\<close>

theorem erase_on_empty_tree_is_not_found_witness:
  "be_rootpage (db_backend (ex_db\<lparr>db_backend := \<lparr>be_rootpage = 0, be_maxkeys = 4, be_dirty = False\<rparr>\<rparr>)) = 0
   \<and> btree_erase 0 ex_env (sp_key ex_sp) 0 0 0
         (ex_db\<lparr>db_backend := \<lparr>be_rootpage = 0, be_maxkeys = 4, be_dirty = False\<rparr>\<rparr>)
       = Some (- 11,
               \<lparr>sp_flags = 0, sp_key = sp_key ex_sp, sp_rid = 0, sp_intflags = 0, mergepage = 0\<rparr>,
               ex_db\<lparr>db_backend := \<lparr>be_rootpage = 0, be_maxkeys = 4, be_dirty = False\<rparr>,
                     db_error := - 11\<rparr>)
   \<and> be_rootpage (db_backend (ex_db\<lparr>db_backend := \<lparr>be_rootpage = 0x900, be_maxkeys = 4,
                                                      be_dirty = False\<rparr>\<rparr>)) \<noteq> 0
   \<and> btree_node_get_count
        (ex_db\<lparr>db_backend := \<lparr>be_rootpage = 0x900, be_maxkeys = 4, be_dirty = False\<rparr>\<rparr>) 0x900 = 0
   \<and> btree_erase 1 ex_env (sp_key ex_sp) 0 0 0
         (ex_db\<lparr>db_backend := \<lparr>be_rootpage = 0x900, be_maxkeys = 4, be_dirty = False\<rparr>\<rparr>)
       = Some (- 11,
               \<lparr>sp_flags = 0, sp_key = sp_key ex_sp, sp_rid = 0, sp_intflags = 0, mergepage = 0\<rparr>,
               ex_db\<lparr>db_backend := \<lparr>be_rootpage = 0x900, be_maxkeys = 4, be_dirty = False\<rparr>,
                     db_error := - 11\<rparr>)"
proof -
  have c: "btree_node_get_count
        (ex_db\<lparr>db_backend := \<lparr>be_rootpage = 0x900, be_maxkeys = 4, be_dirty = False\<rparr>\<rparr>) 0x900 = 0"
    by (simp add: accessor_defs example_defs)
  show ?thesis
    using erase_on_empty_tree_is_not_found
            [of "ex_db\<lparr>db_backend := \<lparr>be_rootpage = 0, be_maxkeys = 4, be_dirty = False\<rparr>\<rparr>"
                0 ex_env "sp_key ex_sp" 0 0 0]
          erase_on_empty_tree_is_not_found
            [of "ex_db\<lparr>db_backend := \<lparr>be_rootpage = 0x900, be_maxkeys = 4, be_dirty = False\<rparr>\<rparr>"
                0 ex_env "sp_key ex_sp" 0 0 0]
          c
    by (simp add: HAM_KEY_NOT_FOUND_def)
qed

end
